theory Spec2Isabelle
  imports Complex_Main "HOL-Library.Word"
begin

unbundle bit_operations_syntax

section \<open>Point-cloud mesh reconstruction: voxelizer, normalizer, Marching Cubes\<close>

text \<open>
  The development embeds the two reconstruction engines of the repository:
  \<^item> the sequential engine, class \<open>CPUMarchingCubes\<close> (\<open>buildDensityField\<close>,
    \<open>interpolateVertex\<close>, \<open>march\<close>, \<open>reconstruct\<close>), and
  \<^item> the compute-shader engine, class \<open>MeshReconstructor\<close> (\<open>setPointCloud\<close>,
    \<open>reconstruct\<close>) with its four WGSL shaders (\<open>clearVoxelShader\<close>,
    \<open>splatPointsShader\<close>, \<open>normalizeDensityShader\<close>, \<open>marchingCubesShader\<close>).

  Numbers: the source computes in IEEE floating point (\<open>number\<close>, \<open>f32\<close>). Here a
  floating-point quantity is a real number. Rounding is modelled in the normalisation
  shader, where the range of the density and the colour of a voxel depend on it (\<open>f32\<close>
  below); elsewhere the operations are exact, and NaN and overflow to infinity are outside
  the model. The one place where the source produces an infinity by construction (the
  bounding box of an empty cloud) is modelled by the type \<open>xreal\<close>.
  WGSL \<open>u32\<close> storage cells and the triangle counter are 32-bit words. Work items of a
  compute pass are run one after the other in a fixed order; the only cross-item effects
  of the shaders are atomic additions.
\<close>

subsection \<open>Vectors\<close>

type_synonym vec3 = "real \<times> real \<times> real"

definition vx :: "vec3 \<Rightarrow> real" where "vx v = fst v"
definition vy :: "vec3 \<Rightarrow> real" where "vy v = fst (snd v)"
definition vz :: "vec3 \<Rightarrow> real" where "vz v = snd (snd v)"

definition vsub :: "vec3 \<Rightarrow> vec3 \<Rightarrow> vec3" where
  "vsub a b = (vx a - vx b, vy a - vy b, vz a - vz b)"

definition vadd :: "vec3 \<Rightarrow> vec3 \<Rightarrow> vec3" where
  "vadd a b = (vx a + vx b, vy a + vy b, vz a + vz b)"

definition vscale :: "real \<Rightarrow> vec3 \<Rightarrow> vec3" where
  "vscale t a = (t * vx a, t * vy a, t * vz a)"

definition cross :: "vec3 \<Rightarrow> vec3 \<Rightarrow> vec3" where
  "cross a b = (vy a * vz b - vz a * vy b, vz a * vx b - vx a * vz b, vx a * vy b - vy a * vx b)"

definition vlength :: "vec3 \<Rightarrow> real" where
  "vlength a = sqrt ((vx a)\<^sup>2 + (vy a)\<^sup>2 + (vz a)\<^sup>2)"

text \<open>WGSL \<open>mix(a, b, t) = a * (1 - t) + b * t\<close>, componentwise.\<close>

definition mix :: "vec3 \<Rightarrow> vec3 \<Rightarrow> real \<Rightarrow> vec3" where
  "mix a b t = vadd (vscale (1 - t) a) (vscale t b)"

subsection \<open>Vertex interpolation\<close>

text \<open>\<open>CPUMarchingCubes.interpolateVertex(p1, p2, v1, v2, iso)\<close>.\<close>

definition interpolateVertex :: "vec3 \<Rightarrow> vec3 \<Rightarrow> real \<Rightarrow> real \<Rightarrow> real \<Rightarrow> vec3" where
  "interpolateVertex p1 p2 v1 v2 isov =
     (if \<bar>isov - v1\<bar> < 0.00001 then p1
      else if \<bar>isov - v2\<bar> < 0.00001 then p2
      else if \<bar>v1 - v2\<bar> < 0.00001 then p1
      else let t = (isov - v1) / (v2 - v1)
           in (vx p1 + t * (vx p2 - vx p1), vy p1 + t * (vy p2 - vy p1), vz p1 + t * (vz p2 - vz p1)))"

text \<open>\<open>CPUMarchingCubes.interpolateColor\<close>: the same guards, on colours.\<close>

definition interpolateColor :: "vec3 \<Rightarrow> vec3 \<Rightarrow> real \<Rightarrow> real \<Rightarrow> real \<Rightarrow> vec3" where
  "interpolateColor c1 c2 v1 v2 isov =
     (if \<bar>isov - v1\<bar> < 0.00001 then c1
      else if \<bar>isov - v2\<bar> < 0.00001 then c2
      else if \<bar>v1 - v2\<bar> < 0.00001 then c1
      else let t = (isov - v1) / (v2 - v1)
           in (vx c1 + t * (vx c2 - vx c1), vy c1 + t * (vy c2 - vy c1), vz c1 + t * (vz c2 - vz c1)))"

text \<open>
  \<open>interpolateVertex\<close> and \<open>interpolateColor\<close> of \<open>marchingCubesShader\<close>; the iso value is
  the uniform \<open>params.isoValue\<close>. The shader's colour interpolation has only the third guard.
\<close>

definition interpolateVertex_wgsl :: "real \<Rightarrow> vec3 \<Rightarrow> vec3 \<Rightarrow> real \<Rightarrow> real \<Rightarrow> vec3" where
  "interpolateVertex_wgsl isoValue p1 p2 v1 v2 =
     (if \<bar>isoValue - v1\<bar> < 0.00001 then p1
      else if \<bar>isoValue - v2\<bar> < 0.00001 then p2
      else if \<bar>v1 - v2\<bar> < 0.00001 then p1
      else let t = (isoValue - v1) / (v2 - v1) in mix p1 p2 t)"

definition interpolateColor_wgsl :: "real \<Rightarrow> vec3 \<Rightarrow> vec3 \<Rightarrow> real \<Rightarrow> real \<Rightarrow> vec3" where
  "interpolateColor_wgsl isoValue c1 c2 v1 v2 =
     (if \<bar>v1 - v2\<bar> < 0.00001 then c1
      else let t = (isoValue - v1) / (v2 - v1) in mix c1 c2 t)"

subsection \<open>Cube index\<close>

text \<open>
  \<open>march\<close> of the sequential engine: eight \<open>if (cubeValues[i] > iso) cubeIndex |= 2^i\<close>
  statements on a JavaScript number.
\<close>

definition cubeIndex_cpu :: "real list \<Rightarrow> real \<Rightarrow> int" where
  "cubeIndex_cpu cubeValues isov =
     (let c0 = (0::int);
          c1 = (if cubeValues ! 0 > isov then c0 OR 1 else c0);
          c2 = (if cubeValues ! 1 > isov then c1 OR 2 else c1);
          c3 = (if cubeValues ! 2 > isov then c2 OR 4 else c2);
          c4 = (if cubeValues ! 3 > isov then c3 OR 8 else c3);
          c5 = (if cubeValues ! 4 > isov then c4 OR 16 else c4);
          c6 = (if cubeValues ! 5 > isov then c5 OR 32 else c5);
          c7 = (if cubeValues ! 6 > isov then c6 OR 64 else c6);
          c8 = (if cubeValues ! 7 > isov then c7 OR 128 else c7)
      in c8)"

text \<open>
  \<open>marchingCubesShader\<close>: \<open>for (var i = 0u; i < 8u; i++) { if (cornerDensity[i] <
  params.isoValue) { cubeIndex |= (1u << i); } }\<close>.
\<close>

definition cubeIndex_wgsl :: "real list \<Rightarrow> real \<Rightarrow> 32 word" where
  "cubeIndex_wgsl cornerDensity isoValue =
     fold (\<lambda>i cubeIndex. if cornerDensity ! i < isoValue then cubeIndex OR push_bit i 1 else cubeIndex)
       [0..<8] 0"

subsection \<open>Numbers that may be infinite\<close>

text \<open>
  \<open>reconstruct\<close> starts the bounding box at \<open>Infinity\<close> and \<open>-Infinity\<close>; for an empty cloud
  these values survive the loop and are stored in \<open>gridMin\<close> and \<open>gridMax\<close>. \<open>xmin\<close> and
  \<open>xmax\<close> are \<open>Math.min\<close> and \<open>Math.max\<close> with a finite second argument, \<open>xsub\<close> and
  \<open>xadd\<close> subtract and add a finite padding. \<open>fin\<close> reads a bound where the source goes on
  computing with it; on an infinite bound the source's arithmetic leaves the reals and
  \<open>fin\<close> is 0 there, so only statements that hold for every value of \<open>fin\<close> on infinite
  bounds, or that are about finite bounds, carry over.
\<close>

datatype xreal = NInf | Fin real | PInf

fun xmin :: "xreal \<Rightarrow> real \<Rightarrow> xreal" where
  "xmin NInf x = NInf"
| "xmin (Fin a) x = Fin (min a x)"
| "xmin PInf x = Fin x"

fun xmax :: "xreal \<Rightarrow> real \<Rightarrow> xreal" where
  "xmax NInf x = Fin x"
| "xmax (Fin a) x = Fin (max a x)"
| "xmax PInf x = PInf"

fun xsub :: "xreal \<Rightarrow> real \<Rightarrow> xreal" where
  "xsub NInf p = NInf"
| "xsub (Fin a) p = Fin (a - p)"
| "xsub PInf p = PInf"

fun xadd :: "xreal \<Rightarrow> real \<Rightarrow> xreal" where
  "xadd NInf p = NInf"
| "xadd (Fin a) p = Fin (a + p)"
| "xadd PInf p = PInf"

fun fin :: "xreal \<Rightarrow> real" where
  "fin (Fin a) = a"
| "fin NInf = 0"
| "fin PInf = 0"

type_synonym xvec3 = "xreal \<times> xreal \<times> xreal"

definition fin3 :: "xvec3 \<Rightarrow> vec3" where
  "fin3 b = (fin (fst b), fin (fst (snd b)), fin (snd (snd b)))"

text \<open>
  The bounding-box loop shared by \<open>CPUMarchingCubes.reconstruct\<close> and
  \<open>MeshReconstructor.setPointCloud\<close>: \<open>positions\<close> is the flat array of \<open>3 * count\<close>
  coordinates. Reading a typed array past its end gives \<open>undefined\<close> in the source; the
  model reads \<open>positions ! k\<close> and is meant for \<open>3 * count \<le> length positions\<close>.
\<close>

definition boundingBox :: "real list \<Rightarrow> nat \<Rightarrow> xvec3 \<times> xvec3" where
  "boundingBox positions count =
     fold (\<lambda>i ((minX, minY, minZ), (maxX, maxY, maxZ)).
             let x = positions ! (i * 3);
                 y = positions ! (i * 3 + 1);
                 z = positions ! (i * 3 + 2)
             in ((xmin minX x, xmin minY y, xmin minZ z), (xmax maxX x, xmax maxY y, xmax maxZ z)))
       [0..<count] ((PInf, PInf, PInf), (NInf, NInf, NInf))"

subsection \<open>The sequential engine: state, lookup tables\<close>

record CPUMarchingCubes =
  gridSize :: "nat \<times> nat \<times> nat"
  isoValue :: real
  splatRadius :: real
  gridMin :: xvec3
  gridMax :: xvec3

record DensityField =
  density :: "real list"
  colorR :: "real list"
  colorG :: "real list"
  colorB :: "real list"

record MarchingCubesResult =
  positions :: "real list"
  normals :: "real list"
  colors :: "real list"
  triangleCount :: real

text \<open>\<open>edgeTable\<close>, \<open>triTable\<close> and \<open>edgeVertices\<close> of the sequential engine, as written there.\<close>

definition edgeTable :: "int list" where
  "edgeTable = [
    0x0, 0x109, 0x203, 0x30a, 0x406, 0x50f, 0x605, 0x70c, 0x80c, 0x905, 0xa0f, 0xb06, 0xc0a, 0xd03,
    0xe09, 0xf00, 0x190, 0x99, 0x393, 0x29a, 0x596, 0x49f, 0x795, 0x69c, 0x99c, 0x895, 0xb9f, 0xa96,
    0xd9a, 0xc93, 0xf99, 0xe90, 0x230, 0x339, 0x33, 0x13a, 0x636, 0x73f, 0x435, 0x53c, 0xa3c, 0xb35,
    0x83f, 0x936, 0xe3a, 0xf33, 0xc39, 0xd30, 0x3a0, 0x2a9, 0x1a3, 0xaa, 0x7a6, 0x6af, 0x5a5, 0x4ac,
    0xbac, 0xaa5, 0x9af, 0x8a6, 0xfaa, 0xea3, 0xda9, 0xca0, 0x460, 0x569, 0x663, 0x76a, 0x66, 0x16f,
    0x265, 0x36c, 0xc6c, 0xd65, 0xe6f, 0xf66, 0x86a, 0x963, 0xa69, 0xb60, 0x5f0, 0x4f9, 0x7f3, 0x6fa,
    0x1f6, 0xff, 0x3f5, 0x2fc, 0xdfc, 0xcf5, 0xfff, 0xef6, 0x9fa, 0x8f3, 0xbf9, 0xaf0, 0x650, 0x759,
    0x453, 0x55a, 0x256, 0x35f, 0x55, 0x15c, 0xe5c, 0xf55, 0xc5f, 0xd56, 0xa5a, 0xb53, 0x859, 0x950,
    0x7c0, 0x6c9, 0x5c3, 0x4ca, 0x3c6, 0x2cf, 0x1c5, 0xcc, 0xfcc, 0xec5, 0xdcf, 0xcc6, 0xbca, 0xac3,
    0x9c9, 0x8c0, 0x8c0, 0x9c9, 0xac3, 0xbca, 0xcc6, 0xdcf, 0xec5, 0xfcc, 0xcc, 0x1c5, 0x2cf, 0x3c6,
    0x4ca, 0x5c3, 0x6c9, 0x7c0, 0x950, 0x859, 0xb53, 0xa5a, 0xd56, 0xc5f, 0xf55, 0xe5c, 0x15c, 0x55,
    0x35f, 0x256, 0x55a, 0x453, 0x759, 0x650, 0xaf0, 0xbf9, 0x8f3, 0x9fa, 0xef6, 0xfff, 0xcf5, 0xdfc,
    0x2fc, 0x3f5, 0xff, 0x1f6, 0x6fa, 0x7f3, 0x4f9, 0x5f0, 0xb60, 0xa69, 0x963, 0x86a, 0xf66, 0xe6f,
    0xd65, 0xc6c, 0x36c, 0x265, 0x16f, 0x66, 0x76a, 0x663, 0x569, 0x460, 0xca0, 0xda9, 0xea3, 0xfaa,
    0x8a6, 0x9af, 0xaa5, 0xbac, 0x4ac, 0x5a5, 0x6af, 0x7a6, 0xaa, 0x1a3, 0x2a9, 0x3a0, 0xd30, 0xc39,
    0xf33, 0xe3a, 0x936, 0x83f, 0xb35, 0xa3c, 0x53c, 0x435, 0x73f, 0x636, 0x13a, 0x33, 0x339, 0x230,
    0xe90, 0xf99, 0xc93, 0xd9a, 0xa96, 0xb9f, 0x895, 0x99c, 0x69c, 0x795, 0x49f, 0x596, 0x29a, 0x393,
    0x99, 0x190, 0xf00, 0xe09, 0xd03, 0xc0a, 0xb06, 0xa0f, 0x905, 0x80c, 0x70c, 0x605, 0x50f, 0x406,
    0x30a, 0x203, 0x109, 0x0]"

definition triTable :: "int list list" where
  "triTable = [
    [-1],
    [0, 8, 3],
    [0, 1, 9],
    [1, 8, 3, 9, 8, 1],
    [1, 2, 10],
    [0, 8, 3, 1, 2, 10],
    [9, 2, 10, 0, 2, 9],
    [2, 8, 3, 2, 10, 8, 10, 9, 8],
    [3, 11, 2],
    [0, 11, 2, 8, 11, 0],
    [1, 9, 0, 2, 3, 11],
    [1, 11, 2, 1, 9, 11, 9, 8, 11],
    [3, 10, 1, 11, 10, 3],
    [0, 10, 1, 0, 8, 10, 8, 11, 10],
    [3, 9, 0, 3, 11, 9, 11, 10, 9],
    [9, 8, 10, 10, 8, 11],
    [4, 7, 8],
    [4, 3, 0, 7, 3, 4],
    [0, 1, 9, 8, 4, 7],
    [4, 1, 9, 4, 7, 1, 7, 3, 1],
    [1, 2, 10, 8, 4, 7],
    [3, 4, 7, 3, 0, 4, 1, 2, 10],
    [9, 2, 10, 9, 0, 2, 8, 4, 7],
    [2, 10, 9, 2, 9, 7, 2, 7, 3, 7, 9, 4],
    [8, 4, 7, 3, 11, 2],
    [11, 4, 7, 11, 2, 4, 2, 0, 4],
    [9, 0, 1, 8, 4, 7, 2, 3, 11],
    [4, 7, 11, 9, 4, 11, 9, 11, 2, 9, 2, 1],
    [3, 10, 1, 3, 11, 10, 7, 8, 4],
    [1, 11, 10, 1, 4, 11, 1, 0, 4, 7, 11, 4],
    [4, 7, 8, 9, 0, 11, 9, 11, 10, 11, 0, 3],
    [4, 7, 11, 4, 11, 9, 9, 11, 10],
    [9, 5, 4],
    [9, 5, 4, 0, 8, 3],
    [0, 5, 4, 1, 5, 0],
    [8, 5, 4, 8, 3, 5, 3, 1, 5],
    [1, 2, 10, 9, 5, 4],
    [3, 0, 8, 1, 2, 10, 4, 9, 5],
    [5, 2, 10, 5, 4, 2, 4, 0, 2],
    [2, 10, 5, 3, 2, 5, 3, 5, 4, 3, 4, 8],
    [9, 5, 4, 2, 3, 11],
    [0, 11, 2, 0, 8, 11, 4, 9, 5],
    [0, 5, 4, 0, 1, 5, 2, 3, 11],
    [2, 1, 5, 2, 5, 8, 2, 8, 11, 4, 8, 5],
    [10, 3, 11, 10, 1, 3, 9, 5, 4],
    [4, 9, 5, 0, 8, 1, 8, 10, 1, 8, 11, 10],
    [5, 4, 0, 5, 0, 11, 5, 11, 10, 11, 0, 3],
    [5, 4, 8, 5, 8, 10, 10, 8, 11],
    [9, 7, 8, 5, 7, 9],
    [9, 3, 0, 9, 5, 3, 5, 7, 3],
    [0, 7, 8, 0, 1, 7, 1, 5, 7],
    [1, 5, 3, 3, 5, 7],
    [9, 7, 8, 9, 5, 7, 10, 1, 2],
    [10, 1, 2, 9, 5, 0, 5, 3, 0, 5, 7, 3],
    [8, 0, 2, 8, 2, 5, 8, 5, 7, 10, 5, 2],
    [2, 10, 5, 2, 5, 3, 3, 5, 7],
    [7, 9, 5, 7, 8, 9, 3, 11, 2],
    [9, 5, 7, 9, 7, 2, 9, 2, 0, 2, 7, 11],
    [2, 3, 11, 0, 1, 8, 1, 7, 8, 1, 5, 7],
    [11, 2, 1, 11, 1, 7, 7, 1, 5],
    [9, 5, 8, 8, 5, 7, 10, 1, 3, 10, 3, 11],
    [5, 7, 0, 5, 0, 9, 7, 11, 0, 1, 0, 10, 11, 10, 0],
    [11, 10, 0, 11, 0, 3, 10, 5, 0, 8, 0, 7, 5, 7, 0],
    [11, 10, 5, 7, 11, 5],
    [10, 6, 5],
    [0, 8, 3, 5, 10, 6],
    [9, 0, 1, 5, 10, 6],
    [1, 8, 3, 1, 9, 8, 5, 10, 6],
    [1, 6, 5, 2, 6, 1],
    [1, 6, 5, 1, 2, 6, 3, 0, 8],
    [9, 6, 5, 9, 0, 6, 0, 2, 6],
    [5, 9, 8, 5, 8, 2, 5, 2, 6, 3, 2, 8],
    [2, 3, 11, 10, 6, 5],
    [11, 0, 8, 11, 2, 0, 10, 6, 5],
    [0, 1, 9, 2, 3, 11, 5, 10, 6],
    [5, 10, 6, 1, 9, 2, 9, 11, 2, 9, 8, 11],
    [6, 3, 11, 6, 5, 3, 5, 1, 3],
    [0, 8, 11, 0, 11, 5, 0, 5, 1, 5, 11, 6],
    [3, 11, 6, 0, 3, 6, 0, 6, 5, 0, 5, 9],
    [6, 5, 9, 6, 9, 11, 11, 9, 8],
    [5, 10, 6, 4, 7, 8],
    [4, 3, 0, 4, 7, 3, 6, 5, 10],
    [1, 9, 0, 5, 10, 6, 8, 4, 7],
    [10, 6, 5, 1, 9, 7, 1, 7, 3, 7, 9, 4],
    [6, 1, 2, 6, 5, 1, 4, 7, 8],
    [1, 2, 5, 5, 2, 6, 3, 0, 4, 3, 4, 7],
    [8, 4, 7, 9, 0, 5, 0, 6, 5, 0, 2, 6],
    [7, 3, 9, 7, 9, 4, 3, 2, 9, 5, 9, 6, 2, 6, 9],
    [3, 11, 2, 7, 8, 4, 10, 6, 5],
    [5, 10, 6, 4, 7, 2, 4, 2, 0, 2, 7, 11],
    [0, 1, 9, 4, 7, 8, 2, 3, 11, 5, 10, 6],
    [9, 2, 1, 9, 11, 2, 9, 4, 11, 7, 11, 4, 5, 10, 6],
    [8, 4, 7, 3, 11, 5, 3, 5, 1, 5, 11, 6],
    [5, 1, 11, 5, 11, 6, 1, 0, 11, 7, 11, 4, 0, 4, 11],
    [0, 5, 9, 0, 6, 5, 0, 3, 6, 11, 6, 3, 8, 4, 7],
    [6, 5, 9, 6, 9, 11, 4, 7, 9, 7, 11, 9],
    [10, 4, 9, 6, 4, 10],
    [4, 10, 6, 4, 9, 10, 0, 8, 3],
    [10, 0, 1, 10, 6, 0, 6, 4, 0],
    [8, 3, 1, 8, 1, 6, 8, 6, 4, 6, 1, 10],
    [1, 4, 9, 1, 2, 4, 2, 6, 4],
    [3, 0, 8, 1, 2, 9, 2, 4, 9, 2, 6, 4],
    [0, 2, 4, 4, 2, 6],
    [8, 3, 2, 8, 2, 4, 4, 2, 6],
    [10, 4, 9, 10, 6, 4, 11, 2, 3],
    [0, 8, 2, 2, 8, 11, 4, 9, 10, 4, 10, 6],
    [3, 11, 2, 0, 1, 6, 0, 6, 4, 6, 1, 10],
    [6, 4, 1, 6, 1, 10, 4, 8, 1, 2, 1, 11, 8, 11, 1],
    [9, 6, 4, 9, 3, 6, 9, 1, 3, 11, 6, 3],
    [8, 11, 1, 8, 1, 0, 11, 6, 1, 9, 1, 4, 6, 4, 1],
    [3, 11, 6, 3, 6, 0, 0, 6, 4],
    [6, 4, 8, 11, 6, 8],
    [7, 10, 6, 7, 8, 10, 8, 9, 10],
    [0, 7, 3, 0, 10, 7, 0, 9, 10, 6, 7, 10],
    [10, 6, 7, 1, 10, 7, 1, 7, 8, 1, 8, 0],
    [10, 6, 7, 10, 7, 1, 1, 7, 3],
    [1, 2, 6, 1, 6, 8, 1, 8, 9, 8, 6, 7],
    [2, 6, 9, 2, 9, 1, 6, 7, 9, 0, 9, 3, 7, 3, 9],
    [7, 8, 0, 7, 0, 6, 6, 0, 2],
    [7, 3, 2, 6, 7, 2],
    [2, 3, 11, 10, 6, 8, 10, 8, 9, 8, 6, 7],
    [2, 0, 7, 2, 7, 11, 0, 9, 7, 6, 7, 10, 9, 10, 7],
    [1, 8, 0, 1, 7, 8, 1, 10, 7, 6, 7, 10, 2, 3, 11],
    [11, 2, 1, 11, 1, 7, 10, 6, 1, 6, 7, 1],
    [8, 9, 6, 8, 6, 7, 9, 1, 6, 11, 6, 3, 1, 3, 6],
    [0, 9, 1, 11, 6, 7],
    [7, 8, 0, 7, 0, 6, 3, 11, 0, 11, 6, 0],
    [7, 11, 6],
    [7, 6, 11],
    [3, 0, 8, 11, 7, 6],
    [0, 1, 9, 11, 7, 6],
    [8, 1, 9, 8, 3, 1, 11, 7, 6],
    [10, 1, 2, 6, 11, 7],
    [1, 2, 10, 3, 0, 8, 6, 11, 7],
    [2, 9, 0, 2, 10, 9, 6, 11, 7],
    [6, 11, 7, 2, 10, 3, 10, 8, 3, 10, 9, 8],
    [7, 2, 3, 6, 2, 7],
    [7, 0, 8, 7, 6, 0, 6, 2, 0],
    [2, 7, 6, 2, 3, 7, 0, 1, 9],
    [1, 6, 2, 1, 8, 6, 1, 9, 8, 8, 7, 6],
    [10, 7, 6, 10, 1, 7, 1, 3, 7],
    [10, 7, 6, 1, 7, 10, 1, 8, 7, 1, 0, 8],
    [0, 3, 7, 0, 7, 10, 0, 10, 9, 6, 10, 7],
    [7, 6, 10, 7, 10, 8, 8, 10, 9],
    [6, 8, 4, 11, 8, 6],
    [3, 6, 11, 3, 0, 6, 0, 4, 6],
    [8, 6, 11, 8, 4, 6, 9, 0, 1],
    [9, 4, 6, 9, 6, 3, 9, 3, 1, 11, 3, 6],
    [6, 8, 4, 6, 11, 8, 2, 10, 1],
    [1, 2, 10, 3, 0, 11, 0, 6, 11, 0, 4, 6],
    [4, 11, 8, 4, 6, 11, 0, 2, 9, 2, 10, 9],
    [10, 9, 3, 10, 3, 2, 9, 4, 3, 11, 3, 6, 4, 6, 3],
    [8, 2, 3, 8, 4, 2, 4, 6, 2],
    [0, 4, 2, 4, 6, 2],
    [1, 9, 0, 2, 3, 4, 2, 4, 6, 4, 3, 8],
    [1, 9, 4, 1, 4, 2, 2, 4, 6],
    [8, 1, 3, 8, 6, 1, 8, 4, 6, 6, 10, 1],
    [10, 1, 0, 10, 0, 6, 6, 0, 4],
    [4, 6, 3, 4, 3, 8, 6, 10, 3, 0, 3, 9, 10, 9, 3],
    [10, 9, 4, 6, 10, 4],
    [4, 9, 5, 7, 6, 11],
    [0, 8, 3, 4, 9, 5, 11, 7, 6],
    [5, 0, 1, 5, 4, 0, 7, 6, 11],
    [11, 7, 6, 8, 3, 4, 3, 5, 4, 3, 1, 5],
    [9, 5, 4, 10, 1, 2, 7, 6, 11],
    [6, 11, 7, 1, 2, 10, 0, 8, 3, 4, 9, 5],
    [7, 6, 11, 5, 4, 10, 4, 2, 10, 4, 0, 2],
    [3, 4, 8, 3, 5, 4, 3, 2, 5, 10, 5, 2, 11, 7, 6],
    [7, 2, 3, 7, 6, 2, 5, 4, 9],
    [9, 5, 4, 0, 8, 6, 0, 6, 2, 6, 8, 7],
    [3, 6, 2, 3, 7, 6, 1, 5, 0, 5, 4, 0],
    [6, 2, 8, 6, 8, 7, 2, 1, 8, 4, 8, 5, 1, 5, 8],
    [9, 5, 4, 10, 1, 6, 1, 7, 6, 1, 3, 7],
    [1, 6, 10, 1, 7, 6, 1, 0, 7, 8, 7, 0, 9, 5, 4],
    [4, 0, 10, 4, 10, 5, 0, 3, 10, 6, 10, 7, 3, 7, 10],
    [7, 6, 10, 7, 10, 8, 5, 4, 10, 4, 8, 10],
    [6, 9, 5, 6, 11, 9, 11, 8, 9],
    [3, 6, 11, 0, 6, 3, 0, 5, 6, 0, 9, 5],
    [0, 11, 8, 0, 5, 11, 0, 1, 5, 5, 6, 11],
    [6, 11, 3, 6, 3, 5, 5, 3, 1],
    [1, 2, 10, 9, 5, 11, 9, 11, 8, 11, 5, 6],
    [0, 11, 3, 0, 6, 11, 0, 9, 6, 5, 6, 9, 1, 2, 10],
    [11, 8, 5, 11, 5, 6, 8, 0, 5, 10, 5, 2, 0, 2, 5],
    [6, 11, 3, 6, 3, 5, 2, 10, 3, 10, 5, 3],
    [5, 8, 9, 5, 2, 8, 5, 6, 2, 3, 8, 2],
    [9, 5, 6, 9, 6, 0, 0, 6, 2],
    [1, 5, 8, 1, 8, 0, 5, 6, 8, 3, 8, 2, 6, 2, 8],
    [1, 5, 6, 2, 1, 6],
    [1, 3, 6, 1, 6, 10, 3, 8, 6, 5, 6, 9, 8, 9, 6],
    [10, 1, 0, 10, 0, 6, 9, 5, 0, 5, 6, 0],
    [0, 3, 8, 5, 6, 10],
    [10, 5, 6],
    [11, 5, 10, 7, 5, 11],
    [11, 5, 10, 11, 7, 5, 8, 3, 0],
    [5, 11, 7, 5, 10, 11, 1, 9, 0],
    [10, 7, 5, 10, 11, 7, 9, 8, 1, 8, 3, 1],
    [11, 1, 2, 11, 7, 1, 7, 5, 1],
    [0, 8, 3, 1, 2, 7, 1, 7, 5, 7, 2, 11],
    [9, 7, 5, 9, 2, 7, 9, 0, 2, 2, 11, 7],
    [7, 5, 2, 7, 2, 11, 5, 9, 2, 3, 2, 8, 9, 8, 2],
    [2, 5, 10, 2, 3, 5, 3, 7, 5],
    [8, 2, 0, 8, 5, 2, 8, 7, 5, 10, 2, 5],
    [9, 0, 1, 5, 10, 3, 5, 3, 7, 3, 10, 2],
    [9, 8, 2, 9, 2, 1, 8, 7, 2, 10, 2, 5, 7, 5, 2],
    [1, 3, 5, 3, 7, 5],
    [0, 8, 7, 0, 7, 1, 1, 7, 5],
    [9, 0, 3, 9, 3, 5, 5, 3, 7],
    [9, 8, 7, 5, 9, 7],
    [5, 8, 4, 5, 10, 8, 10, 11, 8],
    [5, 0, 4, 5, 11, 0, 5, 10, 11, 11, 3, 0],
    [0, 1, 9, 8, 4, 10, 8, 10, 11, 10, 4, 5],
    [10, 11, 4, 10, 4, 5, 11, 3, 4, 9, 4, 1, 3, 1, 4],
    [2, 5, 1, 2, 8, 5, 2, 11, 8, 4, 5, 8],
    [0, 4, 11, 0, 11, 3, 4, 5, 11, 2, 11, 1, 5, 1, 11],
    [0, 2, 5, 0, 5, 9, 2, 11, 5, 4, 5, 8, 11, 8, 5],
    [9, 4, 5, 2, 11, 3],
    [2, 5, 10, 3, 5, 2, 3, 4, 5, 3, 8, 4],
    [5, 10, 2, 5, 2, 4, 4, 2, 0],
    [3, 10, 2, 3, 5, 10, 3, 8, 5, 4, 5, 8, 0, 1, 9],
    [5, 10, 2, 5, 2, 4, 1, 9, 2, 9, 4, 2],
    [8, 4, 5, 8, 5, 3, 3, 5, 1],
    [0, 4, 5, 1, 0, 5],
    [8, 4, 5, 8, 5, 3, 9, 0, 5, 0, 3, 5],
    [9, 4, 5],
    [4, 11, 7, 4, 9, 11, 9, 10, 11],
    [0, 8, 3, 4, 9, 7, 9, 11, 7, 9, 10, 11],
    [1, 10, 11, 1, 11, 4, 1, 4, 0, 7, 4, 11],
    [3, 1, 4, 3, 4, 8, 1, 10, 4, 7, 4, 11, 10, 11, 4],
    [4, 11, 7, 9, 11, 4, 9, 2, 11, 9, 1, 2],
    [9, 7, 4, 9, 11, 7, 9, 1, 11, 2, 11, 1, 0, 8, 3],
    [11, 7, 4, 11, 4, 2, 2, 4, 0],
    [11, 7, 4, 11, 4, 2, 8, 3, 4, 3, 2, 4],
    [2, 9, 10, 2, 7, 9, 2, 3, 7, 7, 4, 9],
    [9, 10, 7, 9, 7, 4, 10, 2, 7, 8, 7, 0, 2, 0, 7],
    [3, 7, 10, 3, 10, 2, 7, 4, 10, 1, 10, 0, 4, 0, 10],
    [1, 10, 2, 8, 7, 4],
    [4, 9, 1, 4, 1, 7, 7, 1, 3],
    [4, 9, 1, 4, 1, 7, 0, 8, 1, 8, 7, 1],
    [4, 0, 3, 7, 4, 3],
    [4, 8, 7],
    [9, 10, 8, 10, 11, 8],
    [3, 0, 9, 3, 9, 11, 11, 9, 10],
    [0, 1, 10, 0, 10, 8, 8, 10, 11],
    [3, 1, 10, 11, 3, 10],
    [1, 2, 11, 1, 11, 9, 9, 11, 8],
    [3, 0, 9, 3, 9, 11, 1, 2, 9, 2, 11, 9],
    [0, 2, 11, 8, 0, 11],
    [3, 2, 11],
    [2, 3, 8, 2, 8, 10, 10, 8, 9],
    [9, 10, 2, 0, 9, 2],
    [2, 3, 8, 2, 8, 10, 0, 1, 8, 1, 10, 8],
    [1, 10, 2],
    [1, 3, 8, 9, 1, 8],
    [0, 9, 1],
    [0, 3, 8],
    []]"

definition edgeVertices :: "(nat \<times> nat) list" where
  "edgeVertices = [(0, 1), (1, 2), (2, 3), (3, 0), (4, 5), (5, 6), (6, 7), (7, 4),
                   (0, 4), (1, 5), (2, 6), (3, 7)]"

subsection \<open>The sequential engine: \<open>buildDensityField\<close>\<close>

text \<open>The five arrays \<open>buildDensityField\<close> fills while splatting.\<close>

record SplatArrays =
  s_density :: "real list"
  s_colorR :: "real list"
  s_colorG :: "real list"
  s_colorB :: "real list"
  s_weights :: "real list"

text \<open>
  The body of the innermost loop, for point \<open>i\<close> at grid position \<open>(nx, ny, nz)\<close> and the
  cell \<open>(ix, iy, iz)\<close>: the two \<open>continue\<close> guards, the Gaussian weight, the accumulation.
\<close>

definition splatVoxel ::
  "CPUMarchingCubes \<Rightarrow> real list option \<Rightarrow> nat \<Rightarrow> vec3 \<Rightarrow> int \<times> int \<times> int \<Rightarrow> SplatArrays \<Rightarrow> SplatArrays" where
  "splatVoxel this cols i n c a =
     (let (gx, gy, gz) = gridSize this; (nx, ny, nz) = n; (ix, iy, iz) = c
      in if ix < 0 \<or> ix \<ge> int gx \<or> iy < 0 \<or> iy \<ge> int gy \<or> iz < 0 \<or> iz \<ge> int gz then a
         else
           let cellCenterX = real_of_int ix + 0.5;
               cellCenterY = real_of_int iy + 0.5;
               cellCenterZ = real_of_int iz + 0.5;
               dist = sqrt ((nx - cellCenterX)\<^sup>2 + (ny - cellCenterY)\<^sup>2 + (nz - cellCenterZ)\<^sup>2)
           in if dist > splatRadius this then a
              else
                let sigma = splatRadius this * 0.5;
                    weight = exp ((- dist * dist) / (2 * sigma * sigma));
                    idx = nat (ix * int gy * int gz + iy * int gz + iz);
                    a1 = a\<lparr>s_density := (s_density a)[idx := s_density a ! idx + weight],
                           s_weights := (s_weights a)[idx := s_weights a ! idx + weight]\<rparr>
                in case cols of
                     None \<Rightarrow> a1
                   | Some cs \<Rightarrow>
                       a1\<lparr>s_colorR := (s_colorR a1)[idx := s_colorR a1 ! idx + cs ! (i * 3) * weight],
                          s_colorG := (s_colorG a1)[idx := s_colorG a1 ! idx + cs ! (i * 3 + 1) * weight],
                          s_colorB := (s_colorB a1)[idx := s_colorB a1 ! idx + cs ! (i * 3 + 2) * weight]\<rparr>)"

text \<open>The grid position of point \<open>i\<close> and the cell that contains it.\<close>

definition gridPosition :: "CPUMarchingCubes \<Rightarrow> real list \<Rightarrow> nat \<Rightarrow> vec3" where
  "gridPosition this ps i =
     (let (gx, gy, gz) = gridSize this;
          (minX, minY, minZ) = fin3 (gridMin this);
          (maxX, maxY, maxZ) = fin3 (gridMax this);
          px = ps ! (i * 3); py = ps ! (i * 3 + 1); pz = ps ! (i * 3 + 2)
      in (((px - minX) / (maxX - minX)) * real gx,
          ((py - minY) / (maxY - minY)) * real gy,
          ((pz - minZ) / (maxZ - minZ)) * real gz))"

definition containingCell :: "vec3 \<Rightarrow> int \<times> int \<times> int" where
  "containingCell n = (\<lfloor>vx n\<rfloor>, \<lfloor>vy n\<rfloor>, \<lfloor>vz n\<rfloor>)"

text \<open>The three nested \<open>dx\<close>, \<open>dy\<close>, \<open>dz\<close> loops for one point.\<close>

definition splatPoint ::
  "CPUMarchingCubes \<Rightarrow> real list \<Rightarrow> real list option \<Rightarrow> nat \<Rightarrow> SplatArrays \<Rightarrow> SplatArrays" where
  "splatPoint this ps cols i a =
     (let cellRadius = \<lceil>splatRadius this\<rceil>;
          n = gridPosition this ps i;
          (cx, cy, cz) = containingCell n
      in fold (\<lambda>dx. fold (\<lambda>dy. fold (\<lambda>dz. splatVoxel this cols i n (cx + dx, cy + dy, cz + dz))
                                   [- cellRadius..cellRadius])
                        [- cellRadius..cellRadius])
           [- cellRadius..cellRadius] a)"

definition splatAll ::
  "CPUMarchingCubes \<Rightarrow> real list \<Rightarrow> real list option \<Rightarrow> nat \<Rightarrow> SplatArrays" where
  "splatAll this ps cols count =
     (let (gx, gy, gz) = gridSize this;
          gridCount = gx * gy * gz;
          zeros = replicate gridCount 0
      in fold (splatPoint this ps cols) [0..<count]
           \<lparr>s_density = zeros, s_colorR = zeros, s_colorG = zeros, s_colorB = zeros, s_weights = zeros\<rparr>)"

text \<open>The colour normalisation loop at the end of \<open>buildDensityField\<close>.\<close>

definition normalizeColor :: "real list \<Rightarrow> real list \<Rightarrow> nat \<Rightarrow> real" where
  "normalizeColor weights channel i = (if weights ! i > 0 then channel ! i / weights ! i else 0.5)"

definition buildDensityField ::
  "CPUMarchingCubes \<Rightarrow> real list \<Rightarrow> real list option \<Rightarrow> nat \<Rightarrow> DensityField" where
  "buildDensityField this ps cols count =
     (let (gx, gy, gz) = gridSize this;
          gridCount = gx * gy * gz;
          a = splatAll this ps cols count
      in \<lparr>density = s_density a,
          colorR = map (normalizeColor (s_weights a) (s_colorR a)) [0..<gridCount],
          colorG = map (normalizeColor (s_weights a) (s_colorG a)) [0..<gridCount],
          colorB = map (normalizeColor (s_weights a) (s_colorB a)) [0..<gridCount]\<rparr>)"

subsection \<open>The sequential engine: \<open>march\<close>\<close>

definition getIndex :: "CPUMarchingCubes \<Rightarrow> int \<Rightarrow> int \<Rightarrow> int \<Rightarrow> int" where
  "getIndex this x y z = (let (gx, gy, gz) = gridSize this in x * int gy * int gz + y * int gz + z)"

definition outOfGrid :: "CPUMarchingCubes \<Rightarrow> int \<Rightarrow> int \<Rightarrow> int \<Rightarrow> bool" where
  "outOfGrid this x y z =
     (let (gx, gy, gz) = gridSize this
      in x < 0 \<or> x \<ge> int gx \<or> y < 0 \<or> y \<ge> int gy \<or> z < 0 \<or> z \<ge> int gz)"

definition getDensity :: "CPUMarchingCubes \<Rightarrow> DensityField \<Rightarrow> int \<Rightarrow> int \<Rightarrow> int \<Rightarrow> real" where
  "getDensity this f x y z =
     (if outOfGrid this x y z then 0 else density f ! nat (getIndex this x y z))"

definition getColor :: "CPUMarchingCubes \<Rightarrow> DensityField \<Rightarrow> int \<Rightarrow> int \<Rightarrow> int \<Rightarrow> vec3" where
  "getColor this f x y z =
     (if outOfGrid this x y z then (0.5, 0.5, 0.5)
      else let idx = nat (getIndex this x y z) in (colorR f ! idx, colorG f ! idx, colorB f ! idx))"

text \<open>The three growing arrays \<open>vertices\<close>, \<open>normals\<close>, \<open>colors\<close> of \<open>march\<close>.\<close>

record MeshArrays =
  m_vertices :: "real list"
  m_normals :: "real list"
  m_colors :: "real list"

definition spread :: "vec3 \<Rightarrow> real list" where
  "spread v = [vx v, vy v, vz v]"

text \<open>
  \<open>vertList[e]\<close> for an entry \<open>e\<close> of a \<open>triTable\<close> row: \<open>undefined\<close> (here \<open>None\<close>) when the
  slot was never written, when \<open>e\<close> is not an index of the array, or when \<open>e\<close> itself is
  \<open>undefined\<close> because the row ended.
\<close>

definition slot :: "vec3 option list \<Rightarrow> int option \<Rightarrow> vec3 option" where
  "slot xs e = (case e of None \<Rightarrow> None
                | Some k \<Rightarrow> if 0 \<le> k \<and> k < int (length xs) then xs ! nat k else None)"

definition entry :: "int list \<Rightarrow> nat \<Rightarrow> int option" where
  "entry xs i = (if i < length xs then Some (xs ! i) else None)"

text \<open>
  The body of the triangle loop after the \<open>undefined\<close> test: face normal, the degenerate
  test, and the three \<open>push\<close> calls.
\<close>

definition pushTriangle :: "vec3 \<Rightarrow> vec3 \<Rightarrow> vec3 \<Rightarrow> vec3 \<Rightarrow> vec3 \<Rightarrow> vec3 \<Rightarrow> MeshArrays \<Rightarrow> MeshArrays" where
  "pushTriangle v0 v1 v2 c0 c1 c2 out =
     (let edge1 = vsub v1 v0;
          edge2 = vsub v2 v0;
          normal = cross edge1 edge2;
          len = sqrt ((vx normal)\<^sup>2 + (vy normal)\<^sup>2 + (vz normal)\<^sup>2)
      in if len < 0.0001 then out
         else
           let normal = (vx normal / len, vy normal / len, vz normal / len)
           in \<lparr>m_vertices = m_vertices out @ spread v0 @ spread v1 @ spread v2,
               m_normals = m_normals out @ spread normal @ spread normal @ spread normal,
               m_colors = m_colors out @ spread c0 @ spread c1 @ spread c2\<rparr>)"

text \<open>
  The triangle loop \<open>for (let i = 0; i < triangles.length; i += 3)\<close>, on the part of the row
  from index \<open>i\<close> on: \<open>break\<close> at the sentinel, \<open>continue\<close> when a slot is \<open>undefined\<close>.
\<close>

fun emitTriangles :: "vec3 option list \<Rightarrow> vec3 option list \<Rightarrow> int list \<Rightarrow> MeshArrays \<Rightarrow> MeshArrays" where
  "emitTriangles vertList colorList [] out = out"
| "emitTriangles vertList colorList (e0 # rest) out =
     (if e0 = - 1 then out
      else
        let e1 = entry rest 0; e2 = entry rest 1
        in case (slot vertList (Some e0), slot vertList e1, slot vertList e2,
                 slot colorList (Some e0), slot colorList e1, slot colorList e2) of
             (Some v0, Some v1, Some v2, Some c0, Some c1, Some c2) \<Rightarrow>
               emitTriangles vertList colorList (drop 2 rest) (pushTriangle v0 v1 v2 c0 c1 c2 out)
           | _ \<Rightarrow> emitTriangles vertList colorList (drop 2 rest) out)"

text \<open>
  The edge loop \<open>for (let e = 0; e < 12; e++) if (edges & (1 << e)) { ... }\<close>, filling
  \<open>vertList\<close> and \<open>colorList\<close>, both created by \<open>new Array(12)\<close>.
\<close>

definition interpolateEdges ::
  "int \<Rightarrow> vec3 list \<Rightarrow> vec3 list \<Rightarrow> real list \<Rightarrow> real \<Rightarrow> vec3 option list \<times> vec3 option list" where
  "interpolateEdges edges cubePos cubeColors cubeValues isov =
     fold (\<lambda>e (vertList, colorList).
             if edges AND push_bit e 1 \<noteq> 0 then
               let (a, b) = edgeVertices ! e
               in (vertList[e := Some (interpolateVertex (cubePos ! a) (cubePos ! b) (cubeValues ! a) (cubeValues ! b) isov)],
                   colorList[e := Some (interpolateColor (cubeColors ! a) (cubeColors ! b) (cubeValues ! a) (cubeValues ! b) isov)])
             else (vertList, colorList))
       [0..<12] (replicate 12 None, replicate 12 None)"

definition cellSize :: "CPUMarchingCubes \<Rightarrow> vec3" where
  "cellSize this =
     (let (gx, gy, gz) = gridSize this;
          (minX, minY, minZ) = fin3 (gridMin this);
          (maxX, maxY, maxZ) = fin3 (gridMax this)
      in ((maxX - minX) / real gx, (maxY - minY) / real gy, (maxZ - minZ) / real gz))"

text \<open>The body of the innermost cell loop of \<open>march\<close>.\<close>

definition marchCell :: "CPUMarchingCubes \<Rightarrow> DensityField \<Rightarrow> int \<times> int \<times> int \<Rightarrow> MeshArrays \<Rightarrow> MeshArrays" where
  "marchCell this f c out =
     (let (ix, iy, iz) = c;
          cubeValues = [getDensity this f ix iy iz, getDensity this f (ix + 1) iy iz,
                        getDensity this f (ix + 1) (iy + 1) iz, getDensity this f ix (iy + 1) iz,
                        getDensity this f ix iy (iz + 1), getDensity this f (ix + 1) iy (iz + 1),
                        getDensity this f (ix + 1) (iy + 1) (iz + 1), getDensity this f ix (iy + 1) (iz + 1)];
          cubeColors = [getColor this f ix iy iz, getColor this f (ix + 1) iy iz,
                        getColor this f (ix + 1) (iy + 1) iz, getColor this f ix (iy + 1) iz,
                        getColor this f ix iy (iz + 1), getColor this f (ix + 1) iy (iz + 1),
                        getColor this f (ix + 1) (iy + 1) (iz + 1), getColor this f ix (iy + 1) (iz + 1)];
          cubeIndex = cubeIndex_cpu cubeValues (isoValue this)
      in if edgeTable ! nat cubeIndex = 0 then out
         else
           let (sx, sy, sz) = cellSize this;
               (minX, minY, minZ) = fin3 (gridMin this);
               bx = minX + real_of_int ix * sx;
               by = minY + real_of_int iy * sy;
               bz = minZ + real_of_int iz * sz;
               cubePos = [(bx, by, bz), (bx + sx, by, bz), (bx + sx, by + sy, bz), (bx, by + sy, bz),
                          (bx, by, bz + sz), (bx + sx, by, bz + sz), (bx + sx, by + sy, bz + sz),
                          (bx, by + sy, bz + sz)];
               edges = edgeTable ! nat cubeIndex;
               (vertList, colorList) = interpolateEdges edges cubePos cubeColors cubeValues (isoValue this);
               triangles = triTable ! nat cubeIndex
           in emitTriangles vertList colorList triangles out)"

text \<open>The cells \<open>march\<close> visits, in its order: \<open>ix\<close> outermost, \<open>iz\<close> innermost, each below
  the grid size minus one.\<close>

definition marchCells :: "CPUMarchingCubes \<Rightarrow> (int \<times> int \<times> int) list" where
  "marchCells this =
     (let (gx, gy, gz) = gridSize this
      in concat (map (\<lambda>ix. concat (map (\<lambda>iy. map (\<lambda>iz. (ix, iy, iz)) [0..int gz - 2]) [0..int gy - 2]))
                  [0..int gx - 2]))"

definition march :: "CPUMarchingCubes \<Rightarrow> DensityField \<Rightarrow> MarchingCubesResult" where
  "march this f =
     (let out = fold (marchCell this f) (marchCells this) \<lparr>m_vertices = [], m_normals = [], m_colors = []\<rparr>
      in \<lparr>positions = m_vertices out, normals = m_normals out, colors = m_colors out,
          triangleCount = real (length (m_vertices out)) / 9\<rparr>)"

subsection \<open>The sequential engine: \<open>reconstruct\<close>\<close>

text \<open>
  \<open>reconstruct\<close> overwrites the fields \<open>gridMin\<close> and \<open>gridMax\<close> of the object and then
  calls \<open>buildDensityField\<close> and \<open>march\<close>; the model returns the result and the object.
\<close>

definition reconstruct ::
  "CPUMarchingCubes \<Rightarrow> real list \<Rightarrow> real list option \<Rightarrow> nat \<Rightarrow> MarchingCubesResult \<times> CPUMarchingCubes" where
  "reconstruct this ps cols count =
     (let ((minX, minY, minZ), (maxX, maxY, maxZ)) = boundingBox ps count;
          padding = splatRadius this * 2;
          this1 = this\<lparr>gridMin := (xsub minX padding, xsub minY padding, xsub minZ padding),
                       gridMax := (xadd maxX padding, xadd maxY padding, xadd maxZ padding)\<rparr>;
          densityField = buildDensityField this1 ps cols count
      in (march this1 densityField, this1))"

text \<open>A new \<open>CPUMarchingCubes\<close> object: the field initialisers of the class.\<close>

definition initialCPU :: CPUMarchingCubes where
  "initialCPU =
     \<lparr>gridSize = (64, 64, 64), isoValue = 0.5, splatRadius = 1.5,
      gridMin = (Fin (- 60), Fin (- 60), Fin (- 60)), gridMax = (Fin 60, Fin 60, Fin 60)\<rparr>"

subsection \<open>Rounding to \<open>f32\<close>\<close>

text \<open>
  The shaders compute in \<open>f32\<close>, IEEE 754 binary32. \<open>f32 x\<close> is the binary32 number nearest
  to the real number \<open>x\<close>, ties going to the even significand: 24 significant bits, the
  exponent not below \<open>-126\<close> (below it the spacing stays that of the subnormal numbers).
  Overflow to infinity is left out; the model rounds magnitudes below \<open>2\<^sup>1\<^sup>2\<^sup>8\<close> only.
  \<open>roundEven\<close> rounds a real number to the nearest integer, ties to even.
\<close>

definition roundEven :: "real \<Rightarrow> int" where
  "roundEven x =
     (let f = \<lfloor>x\<rfloor>
      in if x - real_of_int f < 1/2 then f
         else if x - real_of_int f > 1/2 then f + 1
         else if even f then f else f + 1)"

definition f32 :: "real \<Rightarrow> real" where
  "f32 x =
     (if x = 0 then 0
      else
        let e = max \<lfloor>log 2 \<bar>x\<bar>\<rfloor> (- 126);
            ulp = 2 powi (e - 23)
        in real_of_int (roundEven (x / ulp)) * ulp)"

subsection \<open>The compute-shader engine: state\<close>

text \<open>
  \<open>MeshReconstructor\<close> with the fields the reconstruction reads or writes. A GPU buffer is
  the list of its elements; \<open>pointsBuffer\<close> is \<open>None\<close> while it is \<open>null\<close> (the other buffers
  are created and destroyed together with it). \<open>initialized\<close> stands for
  \<open>this.initialized && this.device\<close>. \<open>maxBufferSize\<close> is the limit reported by the device.
\<close>

record ReconstructParams =
  p_isoValue :: real
  p_splatRadius :: real
  p_gridMin :: xvec3
  p_gridMax :: xvec3

record Vertex =
  v_position :: vec3
  v_normal :: vec3
  v_color :: vec3

record ReconstructResult =
  r_positions :: "real list"
  r_normals :: "real list"
  r_colors :: "real list"
  r_triangleCount :: nat

record MeshReconstructor =
  initialized :: bool
  numPoints :: nat
  mr_gridSize :: "nat \<times> nat \<times> nat"
  mr_triangleCount :: nat
  params :: ReconstructParams
  maxBufferSize :: nat
  maxTriangleCount :: nat
  pointsBuffer :: "vec3 list option"
  colorsBuffer :: "vec3 list"
  voxelBuffer :: "32 word list"
  voxelColorsRBuffer :: "32 word list"
  voxelColorsGBuffer :: "32 word list"
  voxelColorsBBuffer :: "32 word list"
  normalizedColorsBuffer :: "vec3 list"
  densityBuffer :: "real list"
  vertexBuffer :: "Vertex list"
  triangleCountBuffer :: "32 word"

definition zeroVertex :: Vertex where
  "zeroVertex = \<lparr>v_position = (0, 0, 0), v_normal = (0, 0, 0), v_color = (0, 0, 0)\<rparr>"

subsection \<open>The compute-shader engine: \<open>setPointCloud\<close>\<close>

text \<open>
  The size computation of the vertex output in \<open>setPointCloud\<close>: the size in bytes of the
  vertex buffer (\<open>actualBufferSize\<close>) for a grid resolution and a device limit.
\<close>

definition actualBufferSize :: "nat \<Rightarrow> nat \<Rightarrow> nat" where
  "actualBufferSize maxBuf gridRes =
     (let gridCount = gridRes * gridRes * gridRes;
          surfaceVoxels = 6 * gridRes * gridRes * 2;
          maxTriangles = min (surfaceVoxels * 5) gridCount;
          maxVertices = maxTriangles * 3;
          bytesPerVertex = 48;
          vertexBufferSize = maxVertices * bytesPerVertex;
          maxAllowedSize = min maxBuf (512 * 1024 * 1024)
      in min vertexBufferSize maxAllowedSize)"

definition setPointCloud ::
  "MeshReconstructor \<Rightarrow> real list \<Rightarrow> real list option \<Rightarrow> nat \<Rightarrow> nat \<Rightarrow> MeshReconstructor" where
  "setPointCloud this ps cols count gridRes =
     (if \<not> initialized this then this
      else
        let gridCount = gridRes * gridRes * gridRes;
            ((minX, minY, minZ), (maxX, maxY, maxZ)) = boundingBox ps count;
            padding = p_splatRadius (params this) * 2;
            pointData = map (\<lambda>i. (ps ! (i * 3), ps ! (i * 3 + 1), ps ! (i * 3 + 2))) [0..<count];
            colorData = map (\<lambda>i. case cols of
                                    Some cs \<Rightarrow> (cs ! (i * 3), cs ! (i * 3 + 1), cs ! (i * 3 + 2))
                                  | None \<Rightarrow> (0.5, 0.5, 0.5)) [0..<count];
            bytesPerVertex = 48;
            size = actualBufferSize (maxBufferSize this) gridRes
        in this\<lparr>numPoints := count,
                mr_gridSize := (gridRes, gridRes, gridRes),
                params := (params this)\<lparr>p_gridMin := (xsub minX padding, xsub minY padding, xsub minZ padding),
                                         p_gridMax := (xadd maxX padding, xadd maxY padding, xadd maxZ padding)\<rparr>,
                pointsBuffer := Some pointData,
                colorsBuffer := colorData,
                voxelBuffer := replicate gridCount 0,
                voxelColorsRBuffer := replicate gridCount 0,
                voxelColorsGBuffer := replicate gridCount 0,
                voxelColorsBBuffer := replicate gridCount 0,
                normalizedColorsBuffer := replicate gridCount (0, 0, 0),
                densityBuffer := replicate gridCount 0,
                vertexBuffer := replicate (size div bytesPerVertex) zeroVertex,
                triangleCountBuffer := 0,
                maxTriangleCount := nat \<lfloor>real size / real bytesPerVertex / 3\<rfloor>\<rparr>)"

subsection \<open>The compute-shader engine: the four shaders\<close>

text \<open>
  A pass \<open>dispatchWorkgroups(n)\<close> of a shader with \<open>@workgroup_size(64)\<close> runs \<open>main\<close> once
  for each \<open>id.x\<close> below \<open>64 * n\<close>.
\<close>

definition dispatch1 :: "nat \<Rightarrow> (nat \<Rightarrow> 's \<Rightarrow> 's) \<Rightarrow> 's \<Rightarrow> 's" where
  "dispatch1 n main st = fold main [0..<64 * n] st"

definition totalVoxels :: "MeshReconstructor \<Rightarrow> nat" where
  "totalVoxels st = (let (gx, gy, gz) = mr_gridSize st in gx * gy * gz)"

text \<open>\<open>clearVoxelShader\<close>.\<close>

definition clearVoxel_main :: "nat \<Rightarrow> MeshReconstructor \<Rightarrow> MeshReconstructor" where
  "clearVoxel_main idx st =
     (if idx \<ge> totalVoxels st then st
      else st\<lparr>voxelBuffer := (voxelBuffer st)[idx := 0],
              voxelColorsRBuffer := (voxelColorsRBuffer st)[idx := 0],
              voxelColorsGBuffer := (voxelColorsGBuffer st)[idx := 0],
              voxelColorsBBuffer := (voxelColorsBBuffer st)[idx := 0]\<rparr>)"

text \<open>
  WGSL \<open>u32(e)\<close> for an \<open>f32\<close> value \<open>e\<close>: truncation towards zero, clamped to the range
  from 0 to 4294967040, the largest \<open>f32\<close> value that is a \<open>u32\<close>.
\<close>

definition u32_of_real :: "real \<Rightarrow> 32 word" where
  "u32_of_real r = (if r \<le> 0 then 0 else if 4294967040 \<le> r then 4294967040 else word_of_int \<lfloor>r\<rfloor>)"

text \<open>\<open>voxelIndex\<close> of \<open>splatPointsShader\<close> and \<open>marchingCubesShader\<close>.\<close>

definition voxelIndex :: "MeshReconstructor \<Rightarrow> nat \<Rightarrow> nat \<Rightarrow> nat \<Rightarrow> nat" where
  "voxelIndex st x y z = (let (gx, gy, gz) = mr_gridSize st in x + y * gx + z * gx * gy)"

definition vdiv :: "vec3 \<Rightarrow> vec3 \<Rightarrow> vec3" where
  "vdiv a b = (vx a / vx b, vy a / vy b, vz a / vz b)"

definition vmul :: "vec3 \<Rightarrow> vec3 \<Rightarrow> vec3" where
  "vmul a b = (vx a * vx b, vy a * vy b, vz a * vz b)"

definition gridSizeF :: "MeshReconstructor \<Rightarrow> vec3" where
  "gridSizeF st = (let (gx, gy, gz) = mr_gridSize st in (real gx, real gy, real gz))"

text \<open>\<open>cellSize\<close>, \<open>gridPos\<close> and \<open>radiusCells\<close> of \<open>splatPointsShader\<close> for a point at \<open>pos\<close>.\<close>

definition splat_cellSize :: "MeshReconstructor \<Rightarrow> vec3" where
  "splat_cellSize st =
     (let gridExtent = vsub (fin3 (p_gridMax (params st))) (fin3 (p_gridMin (params st)))
      in vdiv gridExtent (gridSizeF st))"

definition splat_gridPos :: "MeshReconstructor \<Rightarrow> vec3 \<Rightarrow> vec3" where
  "splat_gridPos st pos =
     (let gridExtent = vsub (fin3 (p_gridMax (params st))) (fin3 (p_gridMin (params st)));
          relPos = vdiv (vsub pos (fin3 (p_gridMin (params st)))) gridExtent
      in vmul relPos (gridSizeF st))"

definition splat_radiusCells :: "MeshReconstructor \<Rightarrow> int" where
  "splat_radiusCells st =
     (let cellSize = splat_cellSize st;
          radius = p_splatRadius (params st)
      in \<lceil>radius / min (vx cellSize) (min (vy cellSize) (vz cellSize))\<rceil>)"

text \<open>
  The body of the innermost loop of \<open>splatPointsShader\<close> for a point at \<open>pos\<close> with colour
  \<open>color\<close> and the cell \<open>cell\<close>: the three \<open>continue\<close> guards and the four atomic additions.
\<close>

definition splat_cell :: "vec3 \<Rightarrow> vec3 \<Rightarrow> int \<times> int \<times> int \<Rightarrow> MeshReconstructor \<Rightarrow> MeshReconstructor" where
  "splat_cell pos color cell st =
     (let (gx, gy, gz) = mr_gridSize st; (cx, cy, cz) = cell
      in if cx < 0 \<or> cx \<ge> int gx \<or> cy < 0 \<or> cy \<ge> int gy \<or> cz < 0 \<or> cz \<ge> int gz then st
         else
           let cellSize = splat_cellSize st;
               radius = p_splatRadius (params st);
               cellCenter = vadd (vmul (real_of_int cx + 0.5, real_of_int cy + 0.5, real_of_int cz + 0.5) cellSize)
                                 (fin3 (p_gridMin (params st)));
               dist = vlength (vsub pos cellCenter)
           in if dist > radius then st
              else
                let weight = exp (- 0.5 * (dist / (radius * 0.5)) * (dist / (radius * 0.5)));
                    quantizedWeight = u32_of_real (weight * 1000.0)
                in if quantizedWeight = 0 then st
                   else
                     let idx = voxelIndex st (nat cx) (nat cy) (nat cz);
                         qf = real (unat quantizedWeight)
                     in st\<lparr>voxelBuffer := (voxelBuffer st)[idx := voxelBuffer st ! idx + quantizedWeight],
                            voxelColorsRBuffer :=
                              (voxelColorsRBuffer st)[idx := voxelColorsRBuffer st ! idx + u32_of_real (vx color * qf)],
                            voxelColorsGBuffer :=
                              (voxelColorsGBuffer st)[idx := voxelColorsGBuffer st ! idx + u32_of_real (vy color * qf)],
                            voxelColorsBBuffer :=
                              (voxelColorsBBuffer st)[idx := voxelColorsBBuffer st ! idx + u32_of_real (vz color * qf)]\<rparr>)"

text \<open>\<open>main\<close> of \<open>splatPointsShader\<close>: \<open>dz\<close> is the outermost loop, \<open>dx\<close> the innermost.\<close>

definition splatPoints_main :: "nat \<Rightarrow> MeshReconstructor \<Rightarrow> MeshReconstructor" where
  "splatPoints_main pointIdx st =
     (if pointIdx \<ge> numPoints st then st
      else
        let pos = the (pointsBuffer st) ! pointIdx;
            color = colorsBuffer st ! pointIdx;
            radiusCells = splat_radiusCells st;
            (cx, cy, cz) = containingCell (splat_gridPos st pos)
        in fold (\<lambda>dz. fold (\<lambda>dy. fold (\<lambda>dx. splat_cell pos color (cx + dx, cy + dy, cz + dz))
                                     [- radiusCells..radiusCells])
                          [- radiusCells..radiusCells])
             [- radiusCells..radiusCells] st)"

text \<open>
  \<open>normalizeDensityShader\<close>. Density and colour are computed in \<open>f32\<close>: the conversion
  \<open>f32(atomicLoad(...))\<close>, the division, the product, \<open>exp\<close> and the subtraction each round
  their result. \<open>exp\<close> is taken as correctly rounded; WGSL allows it an error of a few units
  in the last place, which is immaterial to what is proved about it below (its value at a
  non-positive argument lies between 0 and 1, and below \<open>2\<^sup>-\<^sup>2\<^sup>6\<close> at \<open>-20\<close> and beyond).
\<close>

definition normalizedDensity :: "32 word \<Rightarrow> real" where
  "normalizedDensity raw =
     (let rawDensity = f32 (f32 (real (unat raw)) / 1000.0)
      in f32 (1.0 - f32 (exp (f32 (- rawDensity * 0.5)))))"

definition normalizedColor :: "32 word \<Rightarrow> 32 word \<Rightarrow> 32 word \<Rightarrow> 32 word \<Rightarrow> vec3" where
  "normalizedColor raw cr cg cb =
     (let rawDensity = f32 (f32 (real (unat raw)) / 1000.0)
      in if rawDensity > f32 0.001 then
           (f32 (f32 (f32 (real (unat cr)) / rawDensity) / 1000.0),
            f32 (f32 (f32 (real (unat cg)) / rawDensity) / 1000.0),
            f32 (f32 (f32 (real (unat cb)) / rawDensity) / 1000.0))
         else (0.5, 0.5, 0.5))"

definition normalizeDensity_main :: "nat \<Rightarrow> MeshReconstructor \<Rightarrow> MeshReconstructor" where
  "normalizeDensity_main idx st =
     (if idx \<ge> totalVoxels st then st
      else st\<lparr>densityBuffer := (densityBuffer st)[idx := normalizedDensity (voxelBuffer st ! idx)],
              normalizedColorsBuffer :=
                (normalizedColorsBuffer st)[idx := normalizedColor (voxelBuffer st ! idx)
                   (voxelColorsRBuffer st ! idx) (voxelColorsGBuffer st ! idx) (voxelColorsBBuffer st ! idx)]\<rparr>)"

text \<open>
  \<open>marchingCubesShader\<close>. The tables \<open>EDGE_TABLE\<close> and \<open>TRI_TABLE\<close> bound to it come from a
  module that is not part of the sources at hand; they are parameters \<open>et\<close> (256 entries)
  and \<open>tt\<close> (256 rows of 16 entries, flattened) of the model.
\<close>

text \<open>WGSL \<open>mix\<close> with a vector as third argument: componentwise.\<close>

definition mixv :: "vec3 \<Rightarrow> vec3 \<Rightarrow> vec3 \<Rightarrow> vec3" where
  "mixv a b t = (vx a * (1 - vx t) + vx b * vx t, vy a * (1 - vy t) + vy b * vy t,
                 vz a * (1 - vz t) + vz b * vz t)"

definition worldPos :: "MeshReconstructor \<Rightarrow> nat \<Rightarrow> nat \<Rightarrow> nat \<Rightarrow> vec3" where
  "worldPos st x y z =
     (let gs = gridSizeF st;
          t = vdiv (real x, real y, real z) (vx gs - 1.0, vy gs - 1.0, vz gs - 1.0);
          a = fin3 (p_gridMin (params st));
          b = fin3 (p_gridMax (params st))
      in mixv a b t)"

text \<open>
  The end of the triangle loop: \<open>atomicAdd(&triangleCount, 1u)\<close> and the guarded write of
  three vertices. Counter and indices are \<open>u32\<close>.
\<close>

definition writeTriangle ::
  "vec3 \<Rightarrow> vec3 \<Rightarrow> vec3 \<Rightarrow> vec3 \<Rightarrow> vec3 \<Rightarrow> vec3 \<Rightarrow> vec3 \<Rightarrow> MeshReconstructor \<Rightarrow> MeshReconstructor" where
  "writeTriangle v0 v1 v2 nrm c0 c1 c2 st =
     (let triIdx = triangleCountBuffer st;
          st1 = st\<lparr>triangleCountBuffer := triIdx + 1\<rparr>;
          baseIdx = triIdx * 3;
          arrayLength = (word_of_nat (length (vertexBuffer st)) :: 32 word)
      in if baseIdx + 2 < arrayLength then
           st1\<lparr>vertexBuffer :=
                 (vertexBuffer st)
                   [unat baseIdx := \<lparr>v_position = v0, v_normal = nrm, v_color = c0\<rparr>,
                    unat (baseIdx + 1) := \<lparr>v_position = v1, v_normal = nrm, v_color = c1\<rparr>,
                    unat (baseIdx + 2) := \<lparr>v_position = v2, v_normal = nrm, v_color = c2\<rparr>]\<rparr>
         else st1)"

text \<open>
  The triangle loop \<open>for (var i = 0u; i < 16u; i += 3u)\<close> of one invocation, on the
  remaining values of \<open>i\<close>: \<open>break\<close> at a negative entry, \<open>continue\<close> on a degenerate face.
\<close>

fun mc_triangles ::
  "int list \<Rightarrow> nat \<Rightarrow> vec3 list \<Rightarrow> vec3 list \<Rightarrow> nat list \<Rightarrow> MeshReconstructor \<Rightarrow> MeshReconstructor" where
  "mc_triangles tt tableOffset vertList colorList [] st = st"
| "mc_triangles tt tableOffset vertList colorList (i # is) st =
     (let idx0 = tt ! (tableOffset + i)
      in if idx0 < 0 then st
         else
           let idx1 = tt ! (tableOffset + i + 1);
               idx2 = tt ! (tableOffset + i + 2);
               v0 = vertList ! nat idx0; v1 = vertList ! nat idx1; v2 = vertList ! nat idx2;
               c0 = colorList ! nat idx0; c1 = colorList ! nat idx1; c2 = colorList ! nat idx2;
               edge1 = vsub v1 v0;
               edge2 = vsub v2 v0;
               faceNormal = cross edge1 edge2
           in if vlength faceNormal < 0.0001 then mc_triangles tt tableOffset vertList colorList is st
              else
                let nrm = vscale (1 / vlength faceNormal) faceNormal
                in mc_triangles tt tableOffset vertList colorList is (writeTriangle v0 v1 v2 nrm c0 c1 c2 st))"

text \<open>The twelve \<open>if ((edges & 2^e) != 0u)\<close> statements, with the corner pairs they name.\<close>

definition mc_edgeCorners :: "(nat \<times> nat) list" where
  "mc_edgeCorners = [(0, 1), (1, 2), (2, 3), (3, 0), (4, 5), (5, 6), (6, 7), (7, 4),
                     (0, 4), (1, 5), (2, 6), (3, 7)]"

definition mc_edges ::
  "real \<Rightarrow> 32 word \<Rightarrow> vec3 list \<Rightarrow> vec3 list \<Rightarrow> real list \<Rightarrow> vec3 list \<times> vec3 list" where
  "mc_edges isov edges cornerPos cornerColor cornerDensity =
     fold (\<lambda>e (vertList, colorList).
             if edges AND push_bit e 1 \<noteq> 0 then
               let (a, b) = mc_edgeCorners ! e
               in (vertList[e := interpolateVertex_wgsl isov (cornerPos ! a) (cornerPos ! b)
                                   (cornerDensity ! a) (cornerDensity ! b)],
                   colorList[e := interpolateColor_wgsl isov (cornerColor ! a) (cornerColor ! b)
                                    (cornerDensity ! a) (cornerDensity ! b)])
             else (vertList, colorList))
       [0..<12] (replicate 12 (0, 0, 0), replicate 12 (0, 0, 0))"

text \<open>\<open>main\<close> of \<open>marchingCubesShader\<close> for the invocation \<open>(x, y, z)\<close>.\<close>

definition marchingCubes_main ::
  "32 word list \<Rightarrow> int list \<Rightarrow> nat \<times> nat \<times> nat \<Rightarrow> MeshReconstructor \<Rightarrow> MeshReconstructor" where
  "marchingCubes_main et tt gid st =
     (let (x, y, z) = gid; (gx, gy, gz) = mr_gridSize st
      in if (word_of_nat x :: 32 word) \<ge> word_of_nat gx - 1 \<or>
            (word_of_nat y :: 32 word) \<ge> word_of_nat gy - 1 \<or>
            (word_of_nat z :: 32 word) \<ge> word_of_nat gz - 1 then st
         else
           let corners = [(x, y, z), (x + 1, y, z), (x + 1, y + 1, z), (x, y + 1, z),
                          (x, y, z + 1), (x + 1, y, z + 1), (x + 1, y + 1, z + 1), (x, y + 1, z + 1)];
               cornerDensity = map (\<lambda>(a, b, c). densityBuffer st ! voxelIndex st a b c) corners;
               cubeIndex = cubeIndex_wgsl cornerDensity (p_isoValue (params st))
           in if et ! unat cubeIndex = 0 then st
              else
                let cornerPos = map (\<lambda>(a, b, c). worldPos st a b c) corners;
                    cornerColor = map (\<lambda>(a, b, c). normalizedColorsBuffer st ! voxelIndex st a b c) corners;
                    edges = et ! unat cubeIndex;
                    (vertList, colorList) =
                      mc_edges (p_isoValue (params st)) edges cornerPos cornerColor cornerDensity;
                    tableOffset = unat cubeIndex * 16
                in mc_triangles tt tableOffset vertList colorList [0, 3, 6, 9, 12, 15] st)"

text \<open>
  A pass \<open>dispatchWorkgroups(nx, ny, nz)\<close> of a shader with \<open>@workgroup_size(4, 4, 4)\<close> runs
  \<open>main\<close> once for each \<open>(x, y, z)\<close> with \<open>x < 4 * nx\<close>, \<open>y < 4 * ny\<close>, \<open>z < 4 * nz\<close>.
\<close>

definition dispatch3 :: "nat \<Rightarrow> nat \<Rightarrow> nat \<Rightarrow> (nat \<times> nat \<times> nat \<Rightarrow> 's \<Rightarrow> 's) \<Rightarrow> 's \<Rightarrow> 's" where
  "dispatch3 nx ny nz main st =
     fold main (concat (map (\<lambda>z. concat (map (\<lambda>y. map (\<lambda>x. (x, y, z)) [0..<4 * nx]) [0..<4 * ny]))
                         [0..<4 * nz])) st"

subsection \<open>The compute-shader engine: \<open>reconstruct\<close>\<close>

definition ceilDiv :: "nat \<Rightarrow> nat \<Rightarrow> nat" where
  "ceilDiv a b = nat \<lceil>real a / real b\<rceil>"

text \<open>
  The command buffer \<open>reconstruct\<close> encodes and submits: the four compute passes with their
  workgroup counts.
\<close>

datatype computePass =
    ClearPass nat
  | SplatPass nat
  | NormalizePass nat
  | MarchingCubesPass nat nat nat

definition encodePasses :: "MeshReconstructor \<Rightarrow> computePass list" where
  "encodePasses this =
     (let (gx, gy, gz) = mr_gridSize this;
          gridCount = gx * gy * gz;
          pointWorkgroups = ceilDiv (numPoints this) 64;
          gridWorkgroups = ceilDiv gridCount 64
      in [ClearPass gridWorkgroups, SplatPass pointWorkgroups, NormalizePass gridWorkgroups,
          MarchingCubesPass (ceilDiv gx 4) (ceilDiv gy 4) (ceilDiv gz 4)])"

fun runPass :: "32 word list \<Rightarrow> int list \<Rightarrow> computePass \<Rightarrow> MeshReconstructor \<Rightarrow> MeshReconstructor" where
  "runPass et tt (ClearPass n) st = dispatch1 n clearVoxel_main st"
| "runPass et tt (SplatPass n) st = dispatch1 n splatPoints_main st"
| "runPass et tt (NormalizePass n) st = dispatch1 n normalizeDensity_main st"
| "runPass et tt (MarchingCubesPass nx ny nz) st = dispatch3 nx ny nz (marchingCubes_main et tt) st"

text \<open>
  The read-back at the end of \<open>reconstruct\<close>: the clamp of the counter, the empty result,
  and the unpacking of \<open>vertexCount\<close> vertices into three flat arrays.
\<close>

definition readBack :: "MeshReconstructor \<Rightarrow> ReconstructResult \<times> MeshReconstructor" where
  "readBack st =
     (let countData0 = unat (triangleCountBuffer st);
          tc = min countData0 (if maxTriangleCount st \<noteq> 0 then maxTriangleCount st else countData0);
          st1 = st\<lparr>mr_triangleCount := tc\<rparr>
      in if tc = 0 then
           (\<lparr>r_positions = [], r_normals = [], r_colors = [], r_triangleCount = 0\<rparr>, st1)
         else
           let actualTriangles = min tc (if maxTriangleCount st \<noteq> 0 then maxTriangleCount st else tc);
               vertexCount = actualTriangles * 3;
               vertexData = vertexBuffer st
           in (\<lparr>r_positions = concat (map (\<lambda>i. spread (v_position (vertexData ! i))) [0..<vertexCount]),
                r_normals = concat (map (\<lambda>i. spread (v_normal (vertexData ! i))) [0..<vertexCount]),
                r_colors = concat (map (\<lambda>i. spread (v_color (vertexData ! i))) [0..<vertexCount]),
                r_triangleCount = tc\<rparr>, st1))"

text \<open>
  \<open>MeshReconstructor.reconstruct\<close>: \<open>None\<close> is the \<open>null\<close> it returns when the object is not
  initialised or has no point cloud.
\<close>

definition reconstruct_gpu ::
  "32 word list \<Rightarrow> int list \<Rightarrow> MeshReconstructor \<Rightarrow> ReconstructResult option \<times> MeshReconstructor" where
  "reconstruct_gpu et tt this =
     (if \<not> initialized this \<or> pointsBuffer this = None then (None, this)
      else
        let st0 = this\<lparr>triangleCountBuffer := 0\<rparr>;
            st1 = fold (runPass et tt) (encodePasses this) st0;
            (res, st2) = readBack st1
        in (Some res, st2))"

text \<open>
  The object after a successful \<open>init()\<close>: the field initialisers of the class, with
  \<open>initialized\<close> set and \<open>maxBufferSize\<close> taken from the device. No buffer exists yet.
\<close>

definition initialReconstructor :: "nat \<Rightarrow> MeshReconstructor" where
  "initialReconstructor deviceMaxBufferSize =
     \<lparr>initialized = True, numPoints = 0, mr_gridSize = (64, 64, 64), mr_triangleCount = 0,
      params = \<lparr>p_isoValue = 0.5, p_splatRadius = 1.5,
                p_gridMin = (Fin (- 60), Fin (- 60), Fin (- 60)),
                p_gridMax = (Fin 60, Fin 60, Fin 60)\<rparr>,
      maxBufferSize = deviceMaxBufferSize, maxTriangleCount = 0,
      pointsBuffer = None, colorsBuffer = [], voxelBuffer = [], voxelColorsRBuffer = [],
      voxelColorsGBuffer = [], voxelColorsBBuffer = [], normalizedColorsBuffer = [],
      densityBuffer = [], vertexBuffer = [], triangleCountBuffer = 0\<rparr>"

text \<open>
  Modelled from the spec: the module \<open>marchingCubesTables\<close> with \<open>EDGE_TABLE\<close> and
  \<open>TRI_TABLE\<close> is not among the sources. The spec describes one pair of classical Marching
  Cubes tables shared by both implementations, so a concrete instance of the shader's
  tables is taken from the sequential engine's: the same edge masks, and each triangle row
  cut at its sentinel and padded with \<open>-1\<close> to the shader's 16 entries.
\<close>

definition padRow :: "int list \<Rightarrow> int list" where
  "padRow row = (let used = takeWhile (\<lambda>e. e \<noteq> - 1) row in used @ replicate (16 - length used) (- 1))"

definition EDGE_TABLE :: "32 word list" where
  "EDGE_TABLE = map word_of_int edgeTable"

definition TRI_TABLE :: "int list" where
  "TRI_TABLE = concat (map padRow triTable)"

subsection \<open>Consistency of a lookup-table row\<close>

text \<open>
  The entries of a \<open>triTable\<close> row before the sentinel \<open>-1\<close> (or all of them, when the row
  has none) are edge numbers from 0 to 11 whose bit is set in the \<open>edgeTable\<close> entry, and
  they form at most five triples.
\<close>

definition rowConsistent :: "int \<Rightarrow> int list \<Rightarrow> bool" where
  "rowConsistent edges row =
     (let used = takeWhile (\<lambda>e. e \<noteq> - 1) row
      in list_all (\<lambda>e. 0 \<le> e \<and> e \<le> 11 \<and> bit edges (nat e)) used \<and>
         length used \<le> 15 \<and> length used mod 3 = 0)"

subsection \<open>Alignment of the three output arrays\<close>



subsection \<open>A run of the compute-shader engine on an empty cloud\<close>

text \<open>The state of the compute-shader engine between the passes of a run on an empty cloud.\<close>

definition emptyRun :: "nat \<Rightarrow> MeshReconstructor \<Rightarrow> bool" where
  "emptyRun n st \<longleftrightarrow>
     mr_gridSize st = (n, n, n) \<and> numPoints st = 0 \<and>
     voxelBuffer st = replicate (n * n * n) 0 \<and>
     densityBuffer st = replicate (n * n * n) 0 \<and>
     triangleCountBuffer st = 0"


subsection \<open>Invariant of the splatting loops of the sequential engine\<close>

text \<open>The arrays \<open>density\<close> and \<open>weights\<close> receive the same additions, none of them negative.\<close>

definition splatSound :: "SplatArrays \<Rightarrow> bool" where
  "splatSound s \<longleftrightarrow> s_weights s = s_density s \<and> (\<forall>x \<in> set (s_density s). 0 \<le> x)"


subsection \<open>Intermediate states of a compute-shader run\<close>

text \<open>
  The state after the first \<open>k\<close> passes of the command buffer of \<open>reconstruct\<close>, and the
  condition that the voxel buffers have one element per voxel, as \<open>setPointCloud\<close> creates them.
\<close>

definition stateAfter :: "32 word list \<Rightarrow> int list \<Rightarrow> nat \<Rightarrow> MeshReconstructor \<Rightarrow> MeshReconstructor" where
  "stateAfter et tt k this =
     fold (runPass et tt) (take k (encodePasses this)) (this\<lparr>triangleCountBuffer := 0\<rparr>)"

definition buffersAllocated :: "MeshReconstructor \<Rightarrow> bool" where
  "buffersAllocated st \<longleftrightarrow>
     length (voxelBuffer st) = totalVoxels st \<and>
     length (voxelColorsRBuffer st) = totalVoxels st \<and>
     length (voxelColorsGBuffer st) = totalVoxels st \<and>
     length (voxelColorsBBuffer st) = totalVoxels st \<and>
     length (densityBuffer st) = totalVoxels st \<and>
     length (normalizedColorsBuffer st) = totalVoxels st"

subsection \<open>The Gaussian kernel in the words of the specification\<close>

text \<open>
  The contribution the specification gives a point at distance \<open>d\<close> from a cell centre:
  zero beyond the splat radius, otherwise \<open>exp(-d\<^sup>2 / (2 \<sigma>\<^sup>2))\<close> with \<open>\<sigma> = splatRadius * 0.5\<close>.
  \<open>gridDistance\<close> is the Euclidean distance, in grid units, between a grid position and the
  centre of a cell.
\<close>

definition specWeight :: "real \<Rightarrow> real \<Rightarrow> real" where
  "specWeight radius d =
     (if d > radius then 0 else exp (- d\<^sup>2 / (2 * (radius * 0.5)\<^sup>2)))"

definition gridDistance :: "vec3 \<Rightarrow> int \<times> int \<times> int \<Rightarrow> real" where
  "gridDistance n c =
     (let (ix, iy, iz) = c
      in sqrt ((vx n - (real_of_int ix + 0.5))\<^sup>2 + (vy n - (real_of_int iy + 0.5))\<^sup>2 +
               (vz n - (real_of_int iz + 0.5))\<^sup>2))"

text \<open>A cell of the grid, and its index in the arrays of the sequential engine.\<close>

definition inGrid :: "nat \<times> nat \<times> nat \<Rightarrow> int \<times> int \<times> int \<Rightarrow> bool" where
  "inGrid g c =
     (let (gx, gy, gz) = g; (ix, iy, iz) = c
      in 0 \<le> ix \<and> ix < int gx \<and> 0 \<le> iy \<and> iy < int gy \<and> 0 \<le> iz \<and> iz < int gz)"

definition cellIndex :: "nat \<times> nat \<times> nat \<Rightarrow> int \<times> int \<times> int \<Rightarrow> nat" where
  "cellIndex g c =
     (let (gx, gy, gz) = g; (ix, iy, iz) = c
      in nat (ix * int gy * int gz + iy * int gz + iz))"

text \<open>The cubic neighbourhood of \<open>k\<close> cells around a cell.\<close>

definition withinCube :: "int \<Rightarrow> int \<times> int \<times> int \<Rightarrow> int \<times> int \<times> int \<Rightarrow> bool" where
  "withinCube k c0 c =
     (let (cx, cy, cz) = c0; (ix, iy, iz) = c
      in \<bar>ix - cx\<bar> \<le> k \<and> \<bar>iy - cy\<bar> \<le> k \<and> \<bar>iz - cz\<bar> \<le> k)"

subsection \<open>The splat of the compute-shader engine, seen from a cell\<close>

text \<open>
  The quantities \<open>splatPointsShader\<close> computes for a point at \<open>pos\<close> and a cell: the centre
  of the cell in world coordinates, the world-space distance \<open>dist\<close> to it, and the
  quantised weight \<open>u32(weight * 1000.0)\<close>, which is 0 for a cell skipped by
  \<open>if (dist > radius) { continue; }\<close>. \<open>splatVisits\<close> holds for the cells the three
  loops reach, \<open>voxelOf\<close> is the buffer index of a cell, and \<open>pointWeight\<close> is what the
  invocation for point \<open>i\<close> adds to the density of a cell.
\<close>

definition cellCenter :: "MeshReconstructor \<Rightarrow> int \<times> int \<times> int \<Rightarrow> vec3" where
  "cellCenter st c =
     (let (cx, cy, cz) = c
      in vadd (vmul (real_of_int cx + 0.5, real_of_int cy + 0.5, real_of_int cz + 0.5) (splat_cellSize st))
              (fin3 (p_gridMin (params st))))"

definition worldDistance :: "MeshReconstructor \<Rightarrow> vec3 \<Rightarrow> int \<times> int \<times> int \<Rightarrow> real" where
  "worldDistance st pos c = vlength (vsub pos (cellCenter st c))"

definition quantizedWeight :: "MeshReconstructor \<Rightarrow> vec3 \<Rightarrow> int \<times> int \<times> int \<Rightarrow> 32 word" where
  "quantizedWeight st pos c =
     (let radius = p_splatRadius (params st);
          dist = worldDistance st pos c
      in if dist > radius then 0
         else
           let weight = exp (- 0.5 * (dist / (radius * 0.5)) * (dist / (radius * 0.5)))
           in u32_of_real (weight * 1000.0))"

definition splatVisits :: "MeshReconstructor \<Rightarrow> vec3 \<Rightarrow> int \<times> int \<times> int \<Rightarrow> bool" where
  "splatVisits st pos c = withinCube (splat_radiusCells st) (containingCell (splat_gridPos st pos)) c"

definition voxelOf :: "MeshReconstructor \<Rightarrow> int \<times> int \<times> int \<Rightarrow> nat" where
  "voxelOf st c = (let (ix, iy, iz) = c in voxelIndex st (nat ix) (nat iy) (nat iz))"

definition pointWeight :: "MeshReconstructor \<Rightarrow> nat \<Rightarrow> int \<times> int \<times> int \<Rightarrow> 32 word" where
  "pointWeight st i c =
     (let pos = the (pointsBuffer st) ! i
      in if splatVisits st pos c then quantizedWeight st pos c else 0)"

text \<open>
  What the invocation for point \<open>i\<close> adds to a colour accumulator of a cell, for the
  component \<open>ch\<close> of the point's colour.
\<close>

definition pointColor :: "(vec3 \<Rightarrow> real) \<Rightarrow> MeshReconstructor \<Rightarrow> nat \<Rightarrow> int \<times> int \<times> int \<Rightarrow> 32 word" where
  "pointColor ch st i c = u32_of_real (ch (colorsBuffer st ! i) * real (unat (pointWeight st i c)))"

text \<open>
  The part of the state the splat pass reads and leaves alone, and the sizes of the four
  accumulators: the invariant of the pass started in \<open>st0\<close>.
\<close>

definition splatFrame :: "MeshReconstructor \<Rightarrow> MeshReconstructor \<Rightarrow> bool" where
  "splatFrame st0 s \<longleftrightarrow>
     mr_gridSize s = mr_gridSize st0 \<and> params s = params st0 \<and> numPoints s = numPoints st0 \<and>
     pointsBuffer s = pointsBuffer st0 \<and> colorsBuffer s = colorsBuffer st0 \<and>
     length (voxelBuffer s) = totalVoxels st0 \<and>
     length (voxelColorsRBuffer s) = totalVoxels st0 \<and>
     length (voxelColorsGBuffer s) = totalVoxels st0 \<and>
     length (voxelColorsBBuffer s) = totalVoxels st0"

section \<open>Properties\<close>

subsection \<open>Cube index\<close>

lemma cubeIndex_fold_bit:
  fixes c :: "32 word"
  shows "bit (fold (\<lambda>i cubeIndex. if P i then cubeIndex OR push_bit i 1 else cubeIndex) xs c) n
         \<longleftrightarrow> bit c n \<or> (n < 32 \<and> n \<in> set xs \<and> P n)"
proof (induction xs arbitrary: c)
  case Nil
  then show ?case by simp
next
  case (Cons a xs)
  show ?case
    by (simp add: Cons.IH bit_or_iff bit_exp_iff) blast
qed

lemma cubeIndex_wgsl_bit:
  "bit (cubeIndex_wgsl ds isov) n \<longleftrightarrow> n < 8 \<and> ds ! n < isov"
  unfolding cubeIndex_wgsl_def by (subst cubeIndex_fold_bit) auto

lemma bit_lit: "bit (1::int) n \<longleftrightarrow> n = 0" "bit (2::int) n \<longleftrightarrow> n = 1" "bit (4::int) n \<longleftrightarrow> n = 2"
  "bit (8::int) n \<longleftrightarrow> n = 3" "bit (16::int) n \<longleftrightarrow> n = 4" "bit (32::int) n \<longleftrightarrow> n = 5"
  "bit (64::int) n \<longleftrightarrow> n = 6" "bit (128::int) n \<longleftrightarrow> n = 7"
  using bit_exp_iff[where ?'a=int, of 0 n] bit_exp_iff[where ?'a=int, of 1 n] bit_exp_iff[where ?'a=int, of 2 n]
   bit_exp_iff[where ?'a=int, of 3 n] bit_exp_iff[where ?'a=int, of 4 n] bit_exp_iff[where ?'a=int, of 5 n]
   bit_exp_iff[where ?'a=int, of 6 n] bit_exp_iff[where ?'a=int, of 7 n]
  by simp_all

lemma bit_if_or: "bit (if b then c OR k else (c::int)) n \<longleftrightarrow> bit c n \<or> (b \<and> bit k n)"
  by (simp add: bit_or_iff)
lemma cubeIndex_cpu_bit_expand:
  "bit (cubeIndex_cpu vs isov) n \<longleftrightarrow>
     (vs ! 0 > isov \<and> n = 0) \<or> (vs ! 1 > isov \<and> n = 1) \<or> (vs ! 2 > isov \<and> n = 2) \<or>
     (vs ! 3 > isov \<and> n = 3) \<or> (vs ! 4 > isov \<and> n = 4) \<or> (vs ! 5 > isov \<and> n = 5) \<or>
     (vs ! 6 > isov \<and> n = 6) \<or> (vs ! 7 > isov \<and> n = 7)"
  unfolding cubeIndex_cpu_def Let_def
  by (simp only: bit_if_or bit_lit bit_0_eq, simp only: simp_thms bot_apply bot_bool_def disj_assoc)
lemma cubeIndex_cpu_bit:
  "bit (cubeIndex_cpu vs isov) n \<longleftrightarrow> n < 8 \<and> vs ! n > isov"
proof -
  have "n < 8 \<longleftrightarrow> n \<in> {0, 1, 2, 3, 4, 5, 6, 7}" by auto
  then show ?thesis
    unfolding cubeIndex_cpu_bit_expand by blast
qed

lemma cubeIndex_cpu_range: "0 \<le> cubeIndex_cpu vs isov \<and> cubeIndex_cpu vs isov < 256"
proof -
  have "take_bit 8 (cubeIndex_cpu vs isov) = cubeIndex_cpu vs isov"
    by (rule bit_eqI) (auto simp: bit_take_bit_iff cubeIndex_cpu_bit)
  moreover have "0 \<le> take_bit 8 (cubeIndex_cpu vs isov)" by simp
  moreover have "take_bit 8 (cubeIndex_cpu vs isov) < 2 ^ 8" by (rule take_bit_int_less_exp)
  ultimately show ?thesis by simp
qed

lemma cubeIndex_complement:
  assumes "\<forall>i<8. ds ! i \<noteq> isov"
  shows "uint (cubeIndex_wgsl ds isov) = 255 - cubeIndex_cpu ds isov"
proof -
  define c where "c = cubeIndex_cpu ds isov"
  have "uint (cubeIndex_wgsl ds isov) = take_bit 8 (NOT c)"
  proof (rule bit_eqI)
    fix n
    show "bit (uint (cubeIndex_wgsl ds isov)) n \<longleftrightarrow> bit (take_bit 8 (NOT c)) n"
    proof (cases "n < 8")
      case True
      with assms have "ds ! n \<noteq> isov" by simp
      then have "ds ! n < isov \<longleftrightarrow> \<not> isov < ds ! n" by linarith
      with True show ?thesis
        by (simp add: c_def bit_uint_iff bit_take_bit_iff bit_not_iff cubeIndex_cpu_bit cubeIndex_wgsl_bit)
    next
      case False
      then show ?thesis
        by (simp add: c_def bit_uint_iff bit_take_bit_iff bit_not_iff cubeIndex_cpu_bit cubeIndex_wgsl_bit)
    qed
  qed
  moreover have "take_bit 8 (NOT c) = (- c - 1) mod 256"
    by (simp add: take_bit_eq_mod not_int_def)
  moreover have "- c - 1 = 255 - c - 256"
    by simp
  moreover have "(255 - c - 256) mod 256 = (255 - c) mod 256"
    by (rule minus_mod_self2)
  moreover have "(255 - c) mod 256 = 255 - c"
    using cubeIndex_cpu_range[of ds isov] by (simp add: c_def)
  ultimately show ?thesis by (simp only: c_def)
qed

text \<open>
  Claim C2. In the compute shader bit \<open>i\<close> of the cube index is set exactly when corner
  \<open>i\<close>'s density is strictly below the iso value; in the sequential engine exactly when it
  is strictly above. Both indices fit in eight bits, and when no corner density equals the
  iso value they are complements of each other in those eight bits.
\<close>

theorem cubeIndex_conventions:
  "(\<forall>i<8. bit (cubeIndex_wgsl ds isov) i \<longleftrightarrow> ds ! i < isov) \<and>
   (\<forall>i<8. bit (cubeIndex_cpu ds isov) i \<longleftrightarrow> ds ! i > isov) \<and>
   (\<forall>i\<ge>8. \<not> bit (cubeIndex_wgsl ds isov) i \<and> \<not> bit (cubeIndex_cpu ds isov) i) \<and>
   ((\<forall>i<8. ds ! i \<noteq> isov) \<longrightarrow>
      (\<forall>i<8. bit (cubeIndex_wgsl ds isov) i \<longleftrightarrow> \<not> bit (cubeIndex_cpu ds isov) i) \<and>
      uint (cubeIndex_wgsl ds isov) = 255 - cubeIndex_cpu ds isov)"
  using cubeIndex_complement[of ds isov]
  by (auto simp: cubeIndex_cpu_bit cubeIndex_wgsl_bit)

theorem cubeIndex_conventions_witness:
  "1/2 \<notin> set [0, 1, 0, 1, 0, 0, 1, 1::real] \<and>
   cubeIndex_wgsl [0, 1, 0, 1, 0, 0, 1, 1] (1/2) = 53 \<and>
   cubeIndex_cpu [0, 1, 0, 1, 0, 0, 1, 1] (1/2) = 202 \<and>
   uint (cubeIndex_wgsl [0, 1, 0, 1, 0, 0, 1, 1] (1/2)) = 255 - cubeIndex_cpu [0, 1, 0, 1, 0, 0, 1, 1] (1/2)"
proof -
  have ne: "\<forall>i<8. [0, 1, 0, 1, 0, 0, 1, 1::real] ! i \<noteq> 1/2"
    by (simp add: nth_Cons split: nat.split)
  have g: "cubeIndex_wgsl [0, 1, 0, 1, 0, 0, 1, 1] (1/2) = 53"
    by (simp add: cubeIndex_wgsl_def upt_rec)
  have c: "cubeIndex_cpu [0, 1, 0, 1, 0, 0, 1, 1] (1/2) = 202"
    by (simp add: cubeIndex_cpu_def)
  have s: "1/2 \<notin> set [0, 1, 0, 1, 0, 0, 1, 1::real]"
    by simp
  show ?thesis
    using cubeIndex_conventions[of "[0, 1, 0, 1, 0, 0, 1, 1]" "1/2"] ne g c s by blast
qed

subsection \<open>Properties of the rounding to \<open>f32\<close>\<close>

lemma roundEven_bounds: "\<lfloor>x\<rfloor> \<le> roundEven x" "roundEven x \<le> \<lceil>x\<rceil>"
proof -
  show "\<lfloor>x\<rfloor> \<le> roundEven x" by (simp add: roundEven_def Let_def)
  have "\<lfloor>x\<rfloor> + 1 \<le> \<lceil>x\<rceil>" if "x - real_of_int \<lfloor>x\<rfloor> \<noteq> 0"
    using that by linarith
  moreover have "\<lfloor>x\<rfloor> \<le> \<lceil>x\<rceil>" by linarith
  ultimately show "roundEven x \<le> \<lceil>x\<rceil>"
    by (auto simp: roundEven_def Let_def)
qed

lemma roundEven_int [simp]: "roundEven (real_of_int n) = n"
  by (simp add: roundEven_def)

lemma roundEven_le: "x \<le> real_of_int n \<Longrightarrow> roundEven x \<le> n"
  using roundEven_bounds(2)[of x] by (simp add: ceiling_le_iff order_trans[OF _ iffD2[OF ceiling_le_iff]])

lemma roundEven_ge: "real_of_int n \<le> x \<Longrightarrow> n \<le> roundEven x"
  using roundEven_bounds(1)[of x] by (meson le_floor_iff order_trans)

lemma roundEven_near:
  assumes "real_of_int n - 1/2 < x" "x < real_of_int n + 1/2"
  shows "roundEven x = n"
proof (cases "real_of_int n \<le> x")
  case True
  with assms have "\<lfloor>x\<rfloor> = n" by linarith
  with assms show ?thesis by (simp add: roundEven_def)
next
  case False
  with assms have "\<lfloor>x\<rfloor> = n - 1" by linarith
  with assms False show ?thesis by (simp add: roundEven_def)
qed

lemma powi_powr: "(2::real) powi k = 2 powr real_of_int k"
  by (simp add: powr_real_of_int')

lemma floor_log2:
  assumes "2 powi k \<le> y" "y < 2 powi (k + 1)"
  shows "\<lfloor>log 2 y\<rfloor> = k"
proof -
  have p: "0 < y" using assms(1) zero_less_power_int[of "2::real" k] by linarith
  have "real_of_int k \<le> log 2 y" using assms(1) p by (simp add: le_log_iff powi_powr)
  moreover have "log 2 y < real_of_int k + 1"
    using assms(2) p by (simp add: log_less_iff powi_powr add.commute)
  ultimately show ?thesis by linarith
qed

lemma log2_floor_bounds:
  assumes "0 < y"
  shows "2 powi \<lfloor>log 2 y\<rfloor> \<le> y" "y < 2 powi (\<lfloor>log 2 y\<rfloor> + 1)"
proof -
  have a: "real_of_int \<lfloor>log 2 y\<rfloor> \<le> log 2 y" by (rule of_int_floor_le)
  have "2 powr real_of_int \<lfloor>log 2 y\<rfloor> \<le> y"
    by (rule iffD1[OF le_log_iff a]) (use assms in simp_all)
  then show "2 powi \<lfloor>log 2 y\<rfloor> \<le> y" by (simp only: powi_powr)
  have b: "log 2 y < real_of_int (\<lfloor>log 2 y\<rfloor> + 1)" by linarith
  have "y < 2 powr real_of_int (\<lfloor>log 2 y\<rfloor> + 1)"
    by (rule iffD1[OF log_less_iff b]) (use assms in simp_all)
  then show "y < 2 powi (\<lfloor>log 2 y\<rfloor> + 1)" by (simp only: powi_powr)
qed

lemma f32_0 [simp]: "f32 0 = 0"
  by (simp add: f32_def)

lemma f32_nonneg: "0 \<le> x \<Longrightarrow> 0 \<le> f32 x"
proof -
  assume x: "0 \<le> x"
  have "0 \<le> roundEven (x / 2 powi k)" for k
    by (rule roundEven_ge) (use x in simp)
  then show ?thesis by (simp add: f32_def Let_def)
qed

lemma f32_nonpos: "x \<le> 0 \<Longrightarrow> f32 x \<le> 0"
proof -
  assume x: "x \<le> 0"
  have "roundEven (x / 2 powi k) \<le> 0" for k
    by (rule roundEven_le) (use x in \<open>simp add: divide_nonpos_pos\<close>)
  then show ?thesis by (simp add: f32_def Let_def mult_nonpos_nonneg)
qed

lemma f32_le_pow2:
  assumes x: "0 \<le> x" "x \<le> 2 powi j" and j: "- 126 \<le> j"
  shows "f32 x \<le> 2 powi j"
proof (cases "x = 0")
  case True
  then show ?thesis by simp
next
  case False
  with x have p: "0 < x" by simp
  define e where "e = max \<lfloor>log 2 \<bar>x\<bar>\<rfloor> (- 126)"
  have "(2::real) powi \<lfloor>log 2 x\<rfloor> \<le> 2 powi j"
    using log2_floor_bounds(1)[OF p] x(2) by linarith
  moreover have "(2::real) powi j < 2 powi \<lfloor>log 2 x\<rfloor>" if "j < \<lfloor>log 2 x\<rfloor>"
    by (rule power_int_strict_increasing[OF that]) simp
  ultimately have "\<lfloor>log 2 x\<rfloor> \<le> j" by (meson not_le)
  with j p have ej: "e \<le> j" by (simp add: e_def)
  define n where "n = nat (j - e)"
  have jn: "j - e = int n" using ej by (simp add: n_def)
  from jn have "j = (int n + 23) + (e - 23)" by linarith
  then have "(2::real) powi j = 2 powi (int n + 23) * 2 powi (e - 23)"
    by (simp only: power_int_add[of "2::real", simplified])
  then have q: "(2::real) powi j / 2 powi (e - 23) = real_of_int (2 ^ n * 8388608)"
    by (simp add: power_int_add)
  have "x / 2 powi (e - 23) \<le> 2 powi j / 2 powi (e - 23)"
    using x(2) by (simp add: divide_right_mono)
  then have "roundEven (x / 2 powi (e - 23)) \<le> 2 ^ n * 8388608"
    unfolding q by (rule roundEven_le)
  then have "real_of_int (roundEven (x / 2 powi (e - 23))) \<le> real_of_int (2 ^ n * 8388608)"
    by (simp only: of_int_le_iff)
  then have "real_of_int (roundEven (x / 2 powi (e - 23))) * 2 powi (e - 23) \<le>
             real_of_int (2 ^ n * 8388608) * 2 powi (e - 23)"
    by (rule mult_right_mono) simp
  also have "\<dots> = 2 powi j" using q by (simp add: field_simps)
  finally show ?thesis using False by (simp add: f32_def Let_def e_def)
qed

lemma f32_exact:
  assumes r: "x = real_of_int m * 2 powi (k - 23)"
    and b: "2 powi k \<le> \<bar>x\<bar>" "\<bar>x\<bar> < 2 powi (k + 1)" and k: "- 126 \<le> k"
  shows "f32 x = x"
proof -
  have "0 < (2::real) powi k" by simp
  with b(1) have "0 < \<bar>x\<bar>" by linarith
  then have nz: "x \<noteq> 0" by auto
  have "\<lfloor>log 2 \<bar>x\<bar>\<rfloor> = k" by (rule floor_log2[OF b])
  with k have e: "max \<lfloor>log 2 \<bar>x\<bar>\<rfloor> (- 126) = k" by simp
  have d: "x / 2 powi (k - 23) = real_of_int m" using r by simp
  have "f32 x = real_of_int (roundEven (x / 2 powi (k - 23))) * 2 powi (k - 23)"
    using nz by (simp add: f32_def Let_def e)
  also have "\<dots> = real_of_int m * 2 powi (k - 23)" by (simp only: d roundEven_int)
  finally show ?thesis by (simp only: r[symmetric])
qed

lemma f32_one_minus:
  assumes "0 \<le> e" "e < 2 powi (- 25)"
  shows "f32 (1 - e) = 1"
proof -
  have v: "(2::real) powi (- 25) = 1 / 33554432" "(2::real) powi (- 24) = 1 / 16777216"
    by (simp_all add: power_int_minus field_simps)
  have b: "2 powi (- 1) \<le> \<bar>1 - e\<bar>" "\<bar>1 - e\<bar> < 2 powi (- 1 + 1)" if "e \<noteq> 0"
    using assms that by (simp_all add: v power_int_minus)
  show ?thesis
  proof (cases "e = 0")
    case True
    have "f32 1 = 1"
      by (rule f32_exact[where m="2 ^ 23" and k=0]) (simp_all add: power_int_minus)
    with True show ?thesis by simp
  next
    case False
    have fl: "\<lfloor>log 2 \<bar>1 - e\<bar>\<rfloor> = - 1" by (rule floor_log2[OF b[OF False]])
    have nz: "1 - e \<noteq> 0" using assms by (simp add: v)
    have "roundEven ((1 - e) / 2 powi (- 24)) = 16777216"
      by (rule roundEven_near) (use assms False in \<open>simp_all add: v\<close>)
    then show ?thesis using nz by (simp add: f32_def Let_def fl v)
  qed
qed

lemma powi_split: "(2::real) powi k = 8388608 * 2 powi (k - 23)"
proof -
  have "(2::real) powi (23 + (k - 23)) = 2 powi 23 * 2 powi (k - 23)"
    by (rule power_int_add) simp
  then show ?thesis by simp
qed

lemma f32_ge_pow2:
  assumes x: "2 powi j \<le> x" and j: "- 126 \<le> j"
  shows "2 powi j \<le> f32 x"
proof -
  have "0 < (2::real) powi j" by simp
  with x have p: "0 < x" by linarith
  define k where "k = \<lfloor>log 2 x\<rfloor>"
  have jk: "j \<le> k" unfolding k_def
  proof (rule ccontr)
    assume "\<not> j \<le> \<lfloor>log 2 x\<rfloor>"
    then have "\<lfloor>log 2 x\<rfloor> + 1 \<le> j" by linarith
    then have "(2::real) powi (\<lfloor>log 2 x\<rfloor> + 1) \<le> 2 powi j"
      by (rule power_int_increasing) simp
    with log2_floor_bounds(2)[OF p] x show False by linarith
  qed
  with j have e: "max \<lfloor>log 2 x\<rfloor> (- 126) = k" by (simp add: k_def)
  have fx: "f32 x = real_of_int (roundEven (x / 2 powi (k - 23))) * 2 powi (k - 23)"
    using p by (simp add: f32_def Let_def e)
  have q: "(2::real) powi k / 2 powi (k - 23) = real_of_int 8388608"
    using powi_split[of k] by simp
  have "2 powi k \<le> x" unfolding k_def by (rule log2_floor_bounds(1)[OF p])
  then have "2 powi k / 2 powi (k - 23) \<le> x / 2 powi (k - 23)"
    by (simp add: divide_right_mono)
  then have "8388608 \<le> roundEven (x / 2 powi (k - 23))"
    unfolding q by (rule roundEven_ge)
  then have "real_of_int 8388608 \<le> real_of_int (roundEven (x / 2 powi (k - 23)))"
    by (simp only: of_int_le_iff)
  then have "real_of_int 8388608 * 2 powi (k - 23) \<le>
             real_of_int (roundEven (x / 2 powi (k - 23))) * 2 powi (k - 23)"
    by (rule mult_right_mono) simp
  moreover have "real_of_int 8388608 * 2 powi (k - 23) = 2 powi k"
    using q by (simp add: field_simps)
  moreover have "(2::real) powi j \<le> 2 powi k"
    by (rule power_int_increasing[OF jk]) simp
  ultimately show ?thesis unfolding fx by linarith
qed

lemma roundEven_minus: "roundEven (- x) = - roundEven x"
proof (cases "x = real_of_int \<lfloor>x\<rfloor>")
  case True
  define n where "n = \<lfloor>x\<rfloor>"
  from True have x: "x = real_of_int n" by (simp add: n_def)
  have "roundEven (real_of_int (- n)) = - n" by (rule roundEven_int)
  then show ?thesis unfolding x by simp
next
  case False
  then have f: "\<lfloor>- x\<rfloor> = - \<lfloor>x\<rfloor> - 1" by linarith
  have b: "real_of_int \<lfloor>x\<rfloor> < x" "x < real_of_int \<lfloor>x\<rfloor> + 1" using False by linarith+
  consider "x - real_of_int \<lfloor>x\<rfloor> < 1/2" | "x - real_of_int \<lfloor>x\<rfloor> > 1/2" | "x - real_of_int \<lfloor>x\<rfloor> = 1/2"
    by linarith
  then show ?thesis
  proof cases
    case 1
    then have "roundEven x = \<lfloor>x\<rfloor>" by (simp add: roundEven_def)
    moreover have "roundEven (- x) = - \<lfloor>x\<rfloor>"
    proof (rule roundEven_near)
      have c: "real_of_int (- \<lfloor>x\<rfloor>) = - real_of_int \<lfloor>x\<rfloor>" by simp
      show "real_of_int (- \<lfloor>x\<rfloor>) - 1 / 2 < - x" unfolding c using 1 b by linarith
      show "- x < real_of_int (- \<lfloor>x\<rfloor>) + 1 / 2" unfolding c using 1 b by linarith
    qed
    ultimately show ?thesis by simp
  next
    case 2
    then have "roundEven x = \<lfloor>x\<rfloor> + 1" by (simp add: roundEven_def)
    moreover have "roundEven (- x) = - \<lfloor>x\<rfloor> - 1"
    proof (rule roundEven_near)
      have c: "real_of_int (- \<lfloor>x\<rfloor> - 1) = - real_of_int \<lfloor>x\<rfloor> - 1" by simp
      show "real_of_int (- \<lfloor>x\<rfloor> - 1) - 1 / 2 < - x" unfolding c using 2 b by linarith
      show "- x < real_of_int (- \<lfloor>x\<rfloor> - 1) + 1 / 2" unfolding c using 2 b by linarith
    qed
    ultimately show ?thesis by simp
  next
    case 3
    then have "roundEven x = (if even \<lfloor>x\<rfloor> then \<lfloor>x\<rfloor> else \<lfloor>x\<rfloor> + 1)" by (simp add: roundEven_def)
    moreover from 3 have "- x - real_of_int (- \<lfloor>x\<rfloor> - 1) = 1/2" by simp
    then have "roundEven (- x) = (if even (- \<lfloor>x\<rfloor> - 1) then - \<lfloor>x\<rfloor> - 1 else - \<lfloor>x\<rfloor> - 1 + 1)"
      by (simp add: roundEven_def f)
    ultimately show ?thesis by auto
  qed
qed

lemma f32_minus: "f32 (- x) = - f32 x"
  by (simp add: f32_def Let_def roundEven_minus)

lemma roundEven_error: "\<bar>real_of_int (roundEven y) - y\<bar> \<le> 1/2"
proof -
  have "real_of_int \<lfloor>y\<rfloor> \<le> y" "y < real_of_int \<lfloor>y\<rfloor> + 1" by linarith+
  then show ?thesis by (auto simp: roundEven_def Let_def)
qed

lemma f32_error:
  assumes "2 powi (- 126) \<le> \<bar>x\<bar>"
  shows "\<bar>f32 x - x\<bar> \<le> \<bar>x\<bar> / 16777216"
proof -
  have "0 < (2::real) powi (- 126)" by simp
  with assms have p: "0 < \<bar>x\<bar>" by linarith
  then have nz: "x \<noteq> 0" by auto
  define k where "k = \<lfloor>log 2 \<bar>x\<bar>\<rfloor>"
  have "- 126 \<le> k" unfolding k_def
  proof (rule ccontr)
    assume "\<not> - 126 \<le> \<lfloor>log 2 \<bar>x\<bar>\<rfloor>"
    then have "\<lfloor>log 2 \<bar>x\<bar>\<rfloor> + 1 \<le> - 126" by linarith
    then have "(2::real) powi (\<lfloor>log 2 \<bar>x\<bar>\<rfloor> + 1) \<le> 2 powi (- 126)"
      by (rule power_int_increasing) simp
    with log2_floor_bounds(2)[OF p] assms show False by linarith
  qed
  then have e: "max \<lfloor>log 2 \<bar>x\<bar>\<rfloor> (- 126) = k" by (simp add: k_def)
  define u where "u = (2::real) powi (k - 23)"
  have u: "0 < u" by (simp add: u_def)
  have fx: "f32 x = real_of_int (roundEven (x / u)) * u"
    using nz by (simp add: f32_def Let_def e u_def)
  have "f32 x - x = (real_of_int (roundEven (x / u)) - x / u) * u"
    using u by (simp add: fx field_simps)
  then have "\<bar>f32 x - x\<bar> = \<bar>real_of_int (roundEven (x / u)) - x / u\<bar> * u"
    using u by (simp add: abs_mult)
  also have "\<dots> \<le> 1/2 * u"
    by (rule mult_right_mono[OF roundEven_error]) (use u in simp)
  finally have a: "\<bar>f32 x - x\<bar> \<le> u / 2" by simp
  have "u = 2 powi k / 8388608" using powi_split[of k] by (simp add: u_def)
  moreover have "2 powi k \<le> \<bar>x\<bar>" unfolding k_def by (rule log2_floor_bounds(1)[OF p])
  ultimately have "u / 2 \<le> \<bar>x\<bar> / 16777216" by simp
  with a show ?thesis by linarith
qed

lemma f32_1 [simp]: "f32 1 = 1"
  using f32_one_minus[of 0] by simp

lemma f32_unit:
  assumes "0 \<le> x" "x \<le> 1"
  shows "0 \<le> f32 x" "f32 x \<le> 1"
proof -
  show "0 \<le> f32 x" by (rule f32_nonneg[OF assms(1)])
  from f32_le_pow2[OF assms(1), of 0] assms(2) show "f32 x \<le> 1" by simp
qed

lemma f32_half_ulp:
  assumes "x \<noteq> 0"
  shows "\<bar>f32 x - x\<bar> \<le> 2 powi (max \<lfloor>log 2 \<bar>x\<bar>\<rfloor> (- 126) - 24)"
proof -
  define u where "u = (2::real) powi (max \<lfloor>log 2 \<bar>x\<bar>\<rfloor> (- 126) - 23)"
  have u: "0 < u" by (simp add: u_def)
  have fx: "f32 x = real_of_int (roundEven (x / u)) * u"
    using assms by (simp add: f32_def Let_def u_def)
  have "f32 x - x = (real_of_int (roundEven (x / u)) - x / u) * u"
    using u by (simp add: fx field_simps)
  then have "\<bar>f32 x - x\<bar> = \<bar>real_of_int (roundEven (x / u)) - x / u\<bar> * u"
    using u by (simp add: abs_mult)
  also have "\<dots> \<le> 1/2 * u"
    by (rule mult_right_mono[OF roundEven_error]) (use u in simp)
  also have "\<dots> = 2 powi (max \<lfloor>log 2 \<bar>x\<bar>\<rfloor> (- 126) - 24)"
  proof -
    have "(2::real) powi ((max \<lfloor>log 2 \<bar>x\<bar>\<rfloor> (- 126) - 24) + 1) =
            2 powi (max \<lfloor>log 2 \<bar>x\<bar>\<rfloor> (- 126) - 24) * 2 powi 1"
      by (rule power_int_add) simp
    moreover have "max \<lfloor>log 2 \<bar>x\<bar>\<rfloor> (- 126) - 24 + 1 = max \<lfloor>log 2 \<bar>x\<bar>\<rfloor> (- 126) - 23" by simp
    ultimately show ?thesis by (simp add: u_def)
  qed
  finally show ?thesis .
qed

lemma f32_error_unit:
  assumes "\<bar>x\<bar> \<le> 1"
  shows "\<bar>f32 x - x\<bar> \<le> 1 / 16777216"
proof (cases "x = 0")
  case True
  then show ?thesis by simp
next
  case False
  then have p: "0 < \<bar>x\<bar>" by simp
  have "\<lfloor>log 2 \<bar>x\<bar>\<rfloor> \<le> 0"
  proof (rule ccontr)
    assume "\<not> \<lfloor>log 2 \<bar>x\<bar>\<rfloor> \<le> 0"
    then have "1 \<le> \<lfloor>log 2 \<bar>x\<bar>\<rfloor>" by linarith
    then have "(2::real) powi 1 \<le> 2 powi \<lfloor>log 2 \<bar>x\<bar>\<rfloor>" by (rule power_int_increasing) simp
    with log2_floor_bounds(1)[OF p] assms show False by simp
  qed
  then have "max \<lfloor>log 2 \<bar>x\<bar>\<rfloor> (- 126) - 24 \<le> - 24" by simp
  then have "(2::real) powi (max \<lfloor>log 2 \<bar>x\<bar>\<rfloor> (- 126) - 24) \<le> 2 powi (- 24)"
    by (rule power_int_increasing) simp
  with f32_half_ulp[OF False] have "\<bar>f32 x - x\<bar> \<le> 2 powi (- 24)" by linarith
  then show ?thesis by (simp add: power_int_minus)
qed

subsection \<open>Vertex interpolation\<close>

lemma mix_linear: "mix p1 p2 t = vadd p1 (vscale t (vsub p2 p1))"
  by (simp add: mix_def vadd_def vscale_def vsub_def vx_def vy_def vz_def algebra_simps)

text \<open>
  Claim C8. Vertex interpolation, in both engines, is a total function of its five arguments:
  when the iso value is within \<open>1e-5\<close> of the first density the result is the first
  endpoint; otherwise, within \<open>1e-5\<close> of the second density, the second endpoint; otherwise,
  when the two densities are within \<open>1e-5\<close> of each other, the first endpoint; otherwise the
  linear interpolation \<open>p1 + t * (p2 - p1)\<close> with \<open>t = (iso - v1) / (v2 - v1)\<close>, and on
  that branch the divisor has magnitude at least \<open>1e-5\<close>.
\<close>

theorem interpolateVertex_guards:
  "(\<bar>isov - v1\<bar> < 1/100000 \<longrightarrow>
      interpolateVertex p1 p2 v1 v2 isov = p1 \<and> interpolateVertex_wgsl isov p1 p2 v1 v2 = p1) \<and>
   (\<not> \<bar>isov - v1\<bar> < 1/100000 \<and> \<bar>isov - v2\<bar> < 1/100000 \<longrightarrow>
      interpolateVertex p1 p2 v1 v2 isov = p2 \<and> interpolateVertex_wgsl isov p1 p2 v1 v2 = p2) \<and>
   (\<not> \<bar>isov - v1\<bar> < 1/100000 \<and> \<not> \<bar>isov - v2\<bar> < 1/100000 \<and> \<bar>v1 - v2\<bar> < 1/100000 \<longrightarrow>
      interpolateVertex p1 p2 v1 v2 isov = p1 \<and> interpolateVertex_wgsl isov p1 p2 v1 v2 = p1) \<and>
   (\<not> \<bar>isov - v1\<bar> < 1/100000 \<and> \<not> \<bar>isov - v2\<bar> < 1/100000 \<and> \<not> \<bar>v1 - v2\<bar> < 1/100000 \<longrightarrow>
      1/100000 \<le> \<bar>v2 - v1\<bar> \<and>
      interpolateVertex p1 p2 v1 v2 isov = vadd p1 (vscale ((isov - v1) / (v2 - v1)) (vsub p2 p1)) \<and>
      interpolateVertex_wgsl isov p1 p2 v1 v2 = vadd p1 (vscale ((isov - v1) / (v2 - v1)) (vsub p2 p1)))"
proof (intro conjI impI)
  assume "\<not> \<bar>isov - v1\<bar> < 1/100000 \<and> \<not> \<bar>isov - v2\<bar> < 1/100000 \<and> \<not> \<bar>v1 - v2\<bar> < 1/100000"
  then show "1/100000 \<le> \<bar>v2 - v1\<bar>" by linarith
qed (simp_all add: interpolateVertex_def interpolateVertex_wgsl_def mix_linear Let_def,
     simp_all add: vadd_def vscale_def vsub_def vx_def vy_def vz_def)

theorem interpolateVertex_guards_witness:
  "interpolateVertex (0, 0, 0) (1, 2, 4) (1/2) 1 (1/2) = (0, 0, 0) \<and>
   interpolateVertex_wgsl (1/2) (0, 0, 0) (1, 2, 4) 0 (1/2) = (1, 2, 4) \<and>
   interpolateVertex (0, 0, 0) (1, 2, 4) 1 1 (1/2) = (0, 0, 0) \<and>
   (1::real)/100000 \<le> \<bar>1 - 0\<bar> \<and>
   interpolateVertex (0, 0, 0) (1, 2, 4) 0 1 (1/4) = (1/4, 1/2, 1) \<and>
   interpolateVertex_wgsl (1/4) (0, 0, 0) (1, 2, 4) 0 1 = (1/4, 1/2, 1)"
  using interpolateVertex_guards[of "1/2" "1/2" "(0, 0, 0)" "(1, 2, 4)" 1]
        interpolateVertex_guards[of "1/2" 0 "(0, 0, 0)" "(1, 2, 4)" "1/2"]
        interpolateVertex_guards[of "1/2" 1 "(0, 0, 0)" "(1, 2, 4)" 1]
        interpolateVertex_guards[of "1/4" 0 "(0, 0, 0)" "(1, 2, 4)" 1]
  by (simp add: vadd_def vscale_def vsub_def vx_def vy_def vz_def)

subsection \<open>Lookup tables\<close>

lemma nth_update_any: "e < length xs \<Longrightarrow> xs[a := v] ! e = (if a = e then v else xs ! e)"
  by (cases "a = e") simp_all

lemma fill_slots_fold:
  "fold (\<lambda>e (vl, cl). if P e then (vl[e := Some (f e)], cl[e := Some (g e)]) else (vl, cl)) xs (vl0, cl0)
   = (vl1, cl1) \<Longrightarrow>
   length vl1 = length vl0 \<and> length cl1 = length cl0 \<and>
   (\<forall>e < length vl0. vl1 ! e = (if e \<in> set xs \<and> P e then Some (f e) else vl0 ! e)) \<and>
   (\<forall>e < length cl0. cl1 ! e = (if e \<in> set xs \<and> P e then Some (g e) else cl0 ! e))"
proof (induction xs arbitrary: vl0 cl0)
  case Nil
  then show ?case by simp
next
  case (Cons a xs)
  show ?case
  proof (cases "P a")
    case True
    with Cons.prems have
      "fold (\<lambda>e (vl, cl). if P e then (vl[e := Some (f e)], cl[e := Some (g e)]) else (vl, cl)) xs
         (vl0[a := Some (f a)], cl0[a := Some (g a)]) = (vl1, cl1)"
      by simp
    from Cons.IH[OF this] True show ?thesis
      by (auto simp: nth_update_any)
  next
    case False
    with Cons.prems have
      "fold (\<lambda>e (vl, cl). if P e then (vl[e := Some (f e)], cl[e := Some (g e)]) else (vl, cl)) xs
         (vl0, cl0) = (vl1, cl1)"
      by simp
    from Cons.IH[OF this] False show ?thesis
      by auto
  qed
qed

lemma interpolateEdges_slots:
  assumes "interpolateEdges edges cubePos cubeColors cubeValues isov = (vl, cl)"
  shows "length vl = 12 \<and> length cl = 12 \<and>
         (\<forall>e<12. (vl ! e \<noteq> None \<longleftrightarrow> bit edges e) \<and> (cl ! e \<noteq> None \<longleftrightarrow> bit edges e))"
proof -
  have eq: "(\<lambda>e (vertList, colorList).
             if edges AND push_bit e 1 \<noteq> 0 then
               let (a, b) = edgeVertices ! e
               in (vertList[e := Some (interpolateVertex (cubePos ! a) (cubePos ! b) (cubeValues ! a) (cubeValues ! b) isov)],
                   colorList[e := Some (interpolateColor (cubeColors ! a) (cubeColors ! b) (cubeValues ! a) (cubeValues ! b) isov)])
             else (vertList, colorList))
     = (\<lambda>e (vl, cl). if bit edges e then
          (vl[e := Some (interpolateVertex (cubePos ! fst (edgeVertices ! e)) (cubePos ! snd (edgeVertices ! e))
                   (cubeValues ! fst (edgeVertices ! e)) (cubeValues ! snd (edgeVertices ! e)) isov)],
           cl[e := Some (interpolateColor (cubeColors ! fst (edgeVertices ! e)) (cubeColors ! snd (edgeVertices ! e))
                   (cubeValues ! fst (edgeVertices ! e)) (cubeValues ! snd (edgeVertices ! e)) isov)])
        else (vl, cl))"
    by (intro ext) (simp add: bit_iff_and_push_bit_not_eq_0 case_prod_beta)
  from assms have
    "fold (\<lambda>e (vl, cl). if bit edges e then
          (vl[e := Some (interpolateVertex (cubePos ! fst (edgeVertices ! e)) (cubePos ! snd (edgeVertices ! e))
                   (cubeValues ! fst (edgeVertices ! e)) (cubeValues ! snd (edgeVertices ! e)) isov)],
           cl[e := Some (interpolateColor (cubeColors ! fst (edgeVertices ! e)) (cubeColors ! snd (edgeVertices ! e))
                   (cubeValues ! fst (edgeVertices ! e)) (cubeValues ! snd (edgeVertices ! e)) isov)])
        else (vl, cl)) [0..<12] (replicate 12 None, replicate 12 None) = (vl, cl)"
    unfolding interpolateEdges_def eq .
  from fill_slots_fold[OF this]
  have len: "length vl = 12" "length cl = 12"
    and v: "\<And>e. e < 12 \<Longrightarrow> bit edges e \<Longrightarrow> \<exists>w. vl ! e = Some w"
    and c: "\<And>e. e < 12 \<Longrightarrow> bit edges e \<Longrightarrow> \<exists>w. cl ! e = Some w"
    and vn: "\<And>e. e < 12 \<Longrightarrow> \<not> bit edges e \<Longrightarrow> vl ! e = None"
    and cn: "\<And>e. e < 12 \<Longrightarrow> \<not> bit edges e \<Longrightarrow> cl ! e = None"
    by simp_all (metis prod_cases3)+
  show ?thesis
    using len v c vn cn by (metis option.distinct(1))
qed

lemma tables_rows: "list_all2 rowConsistent edgeTable triTable"
  by code_simp

lemma tables_length: "length edgeTable = 256" "length triTable = 256"
  by (simp_all add: edgeTable_def triTable_def)

lemma tables_row_nth: "i < 256 \<Longrightarrow> rowConsistent (edgeTable ! i) (triTable ! i)"
  using tables_rows tables_length by (simp add: list_all2_nthD)

lemma tables_slots:
  "i < 256 \<longrightarrow>
     (\<forall>e \<in> set (takeWhile (\<lambda>e. e \<noteq> - 1) (triTable ! i)).
         0 \<le> e \<and> e \<le> 11 \<and> bit (edgeTable ! i) (nat e)) \<and>
     length (takeWhile (\<lambda>e. e \<noteq> - 1) (triTable ! i)) \<le> 3 * 5 \<and>
     3 dvd length (takeWhile (\<lambda>e. e \<noteq> - 1) (triTable ! i)) \<and>
     (\<forall>cubePos cubeColors cubeValues isov vertList colorList.
         interpolateEdges (edgeTable ! i) cubePos cubeColors cubeValues isov = (vertList, colorList) \<longrightarrow>
         (\<forall>e \<in> set (takeWhile (\<lambda>e. e \<noteq> - 1) (triTable ! i)).
             slot vertList (Some e) \<noteq> None \<and> slot colorList (Some e) \<noteq> None))"
proof (intro impI)
  assume i: "i < 256"
  let ?used = "takeWhile (\<lambda>e. e \<noteq> - 1) (triTable ! i)"
  from tables_row_nth[OF i]
  have all: "\<forall>e \<in> set ?used. 0 \<le> e \<and> e \<le> 11 \<and> bit (edgeTable ! i) (nat e)"
    and len: "length ?used \<le> 15" "length ?used mod 3 = 0"
    by (simp_all add: rowConsistent_def Let_def list_all_iff)
  have slots: "slot vertList (Some e) \<noteq> None \<and> slot colorList (Some e) \<noteq> None"
    if ie: "interpolateEdges (edgeTable ! i) cubePos cubeColors cubeValues isov = (vertList, colorList)"
      and e: "e \<in> set ?used"
    for cubePos cubeColors cubeValues isov vertList colorList e
  proof -
    from all e have r: "0 \<le> e" "e \<le> 11" "bit (edgeTable ! i) (nat e)" by auto
    then have n: "nat e < 12" by linarith
    from interpolateEdges_slots[OF ie] n r(3)
    have "length vertList = 12" "length colorList = 12" "vertList ! nat e \<noteq> None" "colorList ! nat e \<noteq> None"
      by blast+
    with r show ?thesis by (simp add: slot_def)
  qed
  from all len slots show
    "(\<forall>e \<in> set ?used. 0 \<le> e \<and> e \<le> 11 \<and> bit (edgeTable ! i) (nat e)) \<and>
     length ?used \<le> 3 * 5 \<and> 3 dvd length ?used \<and>
     (\<forall>cubePos cubeColors cubeValues isov vertList colorList.
         interpolateEdges (edgeTable ! i) cubePos cubeColors cubeValues isov = (vertList, colorList) \<longrightarrow>
         (\<forall>e \<in> set ?used. slot vertList (Some e) \<noteq> None \<and> slot colorList (Some e) \<noteq> None))"
    by (simp add: dvd_eq_mod_eq_0)
qed

text \<open>
  Claim C10. For every cube index \<open>i\<close> from 0 to 255, every entry of \<open>triTable[i]\<close> before the
  sentinel is an edge number from 0 to 11 whose bit is set in \<open>edgeTable[i]\<close>, and the row
  holds at most five triples. Hence, whatever the corner data, every \<open>vertList\<close> and
  \<open>colorList\<close> slot that the triangle loop of \<open>march\<close> reads for such an entry was written by
  the edge loop. The cube index \<open>march\<close> computes is always such an \<open>i\<close>.
\<close>

theorem lookup_tables_consistent:
  "nat (cubeIndex_cpu vs v) < 256 \<and>
   (i < 256 \<longrightarrow>
     (\<forall>e \<in> set (takeWhile (\<lambda>e. e \<noteq> - 1) (triTable ! i)).
         0 \<le> e \<and> e \<le> 11 \<and> bit (edgeTable ! i) (nat e)) \<and>
     length (takeWhile (\<lambda>e. e \<noteq> - 1) (triTable ! i)) \<le> 3 * 5 \<and>
     3 dvd length (takeWhile (\<lambda>e. e \<noteq> - 1) (triTable ! i)) \<and>
     (\<forall>cubePos cubeColors cubeValues isov vertList colorList.
         interpolateEdges (edgeTable ! i) cubePos cubeColors cubeValues isov = (vertList, colorList) \<longrightarrow>
         (\<forall>e \<in> set (takeWhile (\<lambda>e. e \<noteq> - 1) (triTable ! i)).
             slot vertList (Some e) \<noteq> None \<and> slot colorList (Some e) \<noteq> None)))"
proof (rule conjI)
  show "nat (cubeIndex_cpu vs v) < 256"
    using cubeIndex_cpu_range[of vs v] by linarith
qed (rule tables_slots)

theorem lookup_tables_consistent_witness:
  "(1::nat) < 256 \<and> triTable ! 1 = [0, 8, 3] \<and> edgeTable ! 1 = 0x109 \<and>
   bit (edgeTable ! 1) 0 \<and> bit (edgeTable ! 1) 8 \<and> bit (edgeTable ! 1) 3 \<and>
   slot (fst (interpolateEdges (edgeTable ! 1) (replicate 8 (0, 0, 0)) (replicate 8 (0, 0, 0)) (replicate 8 0) 1)) (Some 8) \<noteq> None"
proof -
  have t: "triTable ! 1 = [0, 8, 3]" by (simp add: triTable_def)
  have e: "edgeTable ! 1 = 0x109" by (simp add: edgeTable_def)
  obtain vl cl where
    ie: "interpolateEdges (edgeTable ! 1) (replicate 8 (0, 0, 0)) (replicate 8 (0, 0, 0)) (replicate 8 0) 1 = (vl, cl)"
    by (cases "interpolateEdges (edgeTable ! 1) (replicate 8 (0, 0, 0)) (replicate 8 (0, 0, 0)) (replicate 8 0) 1")
  from lookup_tables_consistent[of _ _ 1] t ie show ?thesis
    using e by simp
qed

subsection \<open>Array lengths of the sequential result\<close>







subsection \<open>Array lengths and the clamp of the compute-shader result\<close>



lemma readBack_count:
  assumes "readBack st = (r, st')"
  shows "r_triangleCount r =
           min (unat (triangleCountBuffer st))
               (if maxTriangleCount st \<noteq> 0 then maxTriangleCount st else unat (triangleCountBuffer st))"
  using assms
  by (auto simp: readBack_def Let_def split: if_splits)

text \<open>A field that every step leaves alone is left alone by the loop.\<close>

lemma fold_keeps: "(\<And>x s. g (f x s) = g s) \<Longrightarrow> g (fold f xs s) = g s"
  by (induction xs arbitrary: s) simp_all

lemma dispatch1_keeps: "(\<And>x s. g (f x s) = g s) \<Longrightarrow> g (dispatch1 n f s) = g s"
  unfolding dispatch1_def by (rule fold_keeps)

lemma dispatch3_keeps: "(\<And>x s. g (f x s) = g s) \<Longrightarrow> g (dispatch3 nx ny nz f s) = g s"
  unfolding dispatch3_def by (rule fold_keeps)

lemma clearVoxel_main_keeps [simp]:
  "triangleCountBuffer (clearVoxel_main i st) = triangleCountBuffer st"
  "maxTriangleCount (clearVoxel_main i st) = maxTriangleCount st"
  "vertexBuffer (clearVoxel_main i st) = vertexBuffer st"
  "mr_gridSize (clearVoxel_main i st) = mr_gridSize st"
  "params (clearVoxel_main i st) = params st"
  "numPoints (clearVoxel_main i st) = numPoints st"
  "pointsBuffer (clearVoxel_main i st) = pointsBuffer st"
  "colorsBuffer (clearVoxel_main i st) = colorsBuffer st"
  "densityBuffer (clearVoxel_main i st) = densityBuffer st"
  "normalizedColorsBuffer (clearVoxel_main i st) = normalizedColorsBuffer st"
  by (simp_all add: clearVoxel_main_def)

lemma splat_cell_keeps [simp]:
  "triangleCountBuffer (splat_cell pos color cell st) = triangleCountBuffer st"
  "maxTriangleCount (splat_cell pos color cell st) = maxTriangleCount st"
  "vertexBuffer (splat_cell pos color cell st) = vertexBuffer st"
  "mr_gridSize (splat_cell pos color cell st) = mr_gridSize st"
  "params (splat_cell pos color cell st) = params st"
  "numPoints (splat_cell pos color cell st) = numPoints st"
  "pointsBuffer (splat_cell pos color cell st) = pointsBuffer st"
  "colorsBuffer (splat_cell pos color cell st) = colorsBuffer st"
  "densityBuffer (splat_cell pos color cell st) = densityBuffer st"
  "normalizedColorsBuffer (splat_cell pos color cell st) = normalizedColorsBuffer st"
  by (simp_all add: splat_cell_def Let_def split: prod.splits)

lemma splat_loops_keeps:
  assumes "\<And>c s. g (splat_cell pos color c s) = g s"
  shows "g (fold (\<lambda>dz. fold (\<lambda>dy. fold (\<lambda>dx. splat_cell pos color (cx + dx, cy + dy, cz + dz)) xs) ys) zs st) = g st"
  by (intro fold_keeps assms)

lemma splatPoints_main_keeps [simp]:
  "triangleCountBuffer (splatPoints_main i st) = triangleCountBuffer st"
  "maxTriangleCount (splatPoints_main i st) = maxTriangleCount st"
  "vertexBuffer (splatPoints_main i st) = vertexBuffer st"
  "mr_gridSize (splatPoints_main i st) = mr_gridSize st"
  "params (splatPoints_main i st) = params st"
  "numPoints (splatPoints_main i st) = numPoints st"
  "pointsBuffer (splatPoints_main i st) = pointsBuffer st"
  "colorsBuffer (splatPoints_main i st) = colorsBuffer st"
  "densityBuffer (splatPoints_main i st) = densityBuffer st"
  "normalizedColorsBuffer (splatPoints_main i st) = normalizedColorsBuffer st"
  by (simp_all add: splatPoints_main_def Let_def splat_loops_keeps split: prod.splits)

lemma normalizeDensity_main_keeps [simp]:
  "triangleCountBuffer (normalizeDensity_main i st) = triangleCountBuffer st"
  "maxTriangleCount (normalizeDensity_main i st) = maxTriangleCount st"
  "vertexBuffer (normalizeDensity_main i st) = vertexBuffer st"
  "mr_gridSize (normalizeDensity_main i st) = mr_gridSize st"
  "params (normalizeDensity_main i st) = params st"
  "numPoints (normalizeDensity_main i st) = numPoints st"
  "voxelBuffer (normalizeDensity_main i st) = voxelBuffer st"
  "voxelColorsRBuffer (normalizeDensity_main i st) = voxelColorsRBuffer st"
  "voxelColorsGBuffer (normalizeDensity_main i st) = voxelColorsGBuffer st"
  "voxelColorsBBuffer (normalizeDensity_main i st) = voxelColorsBBuffer st"
  by (simp_all add: normalizeDensity_main_def)

lemma writeTriangle_keeps [simp]:
  "maxTriangleCount (writeTriangle v0 v1 v2 n c0 c1 c2 st) = maxTriangleCount st"
  "mr_gridSize (writeTriangle v0 v1 v2 n c0 c1 c2 st) = mr_gridSize st"
  "params (writeTriangle v0 v1 v2 n c0 c1 c2 st) = params st"
  "densityBuffer (writeTriangle v0 v1 v2 n c0 c1 c2 st) = densityBuffer st"
  "normalizedColorsBuffer (writeTriangle v0 v1 v2 n c0 c1 c2 st) = normalizedColorsBuffer st"
  "length (vertexBuffer (writeTriangle v0 v1 v2 n c0 c1 c2 st)) = length (vertexBuffer st)"
  by (simp_all add: writeTriangle_def Let_def)

lemma mc_triangles_keeps:
  assumes "\<And>v0 v1 v2 n c0 c1 c2 s. g (writeTriangle v0 v1 v2 n c0 c1 c2 s) = g s"
  shows "g (mc_triangles tt off vl cl is st) = g st"
  by (induction tt off vl cl "is" st rule: mc_triangles.induct) (simp_all add: Let_def assms)

lemma marchingCubes_main_keeps:
  assumes "\<And>v0 v1 v2 n c0 c1 c2 s. g (writeTriangle v0 v1 v2 n c0 c1 c2 s) = g s"
  shows "g (marchingCubes_main et tt gid st) = g st"
  unfolding marchingCubes_main_def
  by (simp only: Let_def case_prod_beta if_distrib[where f=g] mc_triangles_keeps[where g=g, OF assms] if_cancel)

lemma marchingCubes_main_maxTriangleCount [simp]:
  "maxTriangleCount (marchingCubes_main et tt gid st) = maxTriangleCount st"
  by (rule marchingCubes_main_keeps) simp

lemma runPass_maxTriangleCount [simp]:
  "maxTriangleCount (runPass et tt p st) = maxTriangleCount st"
  by (cases p) (simp_all add: dispatch1_keeps dispatch3_keeps)

lemma passes_maxTriangleCount [simp]:
  "maxTriangleCount (fold (runPass et tt) ps st) = maxTriangleCount st"
  by (rule fold_keeps) simp


lemma floor_div_144: "nat \<lfloor>real n / 144\<rfloor> = n div 144"
proof -
  have "real n / 144 = real n / real 144" by simp
  then show ?thesis
    by (simp only: floor_divide_of_nat_eq nat_int)
qed

lemma setPointCloud_fields:
  assumes "initialized this"
  shows "maxTriangleCount (setPointCloud this ps cols count gridRes) = actualBufferSize (maxBufferSize this) gridRes div 144"
    and "length (vertexBuffer (setPointCloud this ps cols count gridRes)) = actualBufferSize (maxBufferSize this) gridRes div 48"
    and "mr_gridSize (setPointCloud this ps cols count gridRes) = (gridRes, gridRes, gridRes)"
    and "initialized (setPointCloud this ps cols count gridRes)"
    and "pointsBuffer (setPointCloud this ps cols count gridRes) \<noteq> None"
    and "numPoints (setPointCloud this ps cols count gridRes) = count"
    and "maxBufferSize (setPointCloud this ps cols count gridRes) = maxBufferSize this"
  using assms
  by (simp_all add: setPointCloud_def Let_def floor_div_144 split: prod.splits)





lemma reconstruct_gpu_some:
  assumes "initialized st" "pointsBuffer st \<noteq> None"
  shows "\<exists>r st'. reconstruct_gpu et tt st = (Some r, st')"
  using assms by (simp add: reconstruct_gpu_def Let_def split: prod.splits)



subsection \<open>Reconstruction of an empty cloud\<close>

lemma fold_invariant: "(\<And>x s. P s \<Longrightarrow> P (f x s)) \<Longrightarrow> P s \<Longrightarrow> P (fold f xs s)"
  by (induction xs arbitrary: s) simp_all

lemma grid_index_bound:
  fixes x y z :: nat
  assumes "x < gx" "y < gy" "z < gz"
  shows "x * gy * gz + y * gz + z < gx * gy * gz"
proof -
  have "y * gz + z < y * gz + gz" using assms(3) by simp
  also have "\<dots> = Suc y * gz" by simp
  also have "\<dots> \<le> gy * gz" using assms(2) by (intro mult_le_mono1) simp
  finally have a: "y * gz + z < gy * gz" .
  have "x * gy * gz + y * gz + z = x * (gy * gz) + (y * gz + z)" by (simp add: algebra_simps)
  also have "\<dots> < x * (gy * gz) + gy * gz" using a by simp
  also have "\<dots> = Suc x * (gy * gz)" by simp
  also have "\<dots> \<le> gx * (gy * gz)" using assms(1) by (intro mult_le_mono1) simp
  finally show ?thesis by (simp add: algebra_simps)
qed

lemma splatAll_empty:
  "splatAll this ps cols 0 =
     (let (gx, gy, gz) = gridSize this; zeros = replicate (gx * gy * gz) 0
      in \<lparr>s_density = zeros, s_colorR = zeros, s_colorG = zeros, s_colorB = zeros, s_weights = zeros\<rparr>)"
  by (simp add: splatAll_def Let_def split: prod.splits)

lemma buildDensityField_empty_density:
  "density (buildDensityField this ps cols 0) =
     (let (gx, gy, gz) = gridSize this in replicate (gx * gy * gz) 0)"
  by (simp add: buildDensityField_def splatAll_empty Let_def split: prod.splits)

lemma getDensity_zero_field:
  assumes "density f = (let (gx, gy, gz) = gridSize this in replicate (gx * gy * gz) 0)"
  shows "getDensity this f x y z = 0"
proof (cases "outOfGrid this x y z")
  case True
  then show ?thesis by (simp add: getDensity_def)
next
  case False
  obtain gx gy gz where g: "gridSize this = (gx, gy, gz)" by (cases "gridSize this") auto
  from False g have b: "0 \<le> x" "x < int gx" "0 \<le> y" "y < int gy" "0 \<le> z" "z < int gz"
    by (simp_all add: outOfGrid_def)
  then have "nat x < gx" "nat y < gy" "nat z < gz" by simp_all
  from grid_index_bound[OF this] have "nat x * gy * gz + nat y * gz + nat z < gx * gy * gz" .
  moreover have "nat (getIndex this x y z) = nat x * gy * gz + nat y * gz + nat z"
    using b g by (simp add: getIndex_def nat_add_distrib nat_mult_distrib)
  ultimately show ?thesis
    using False assms g by (simp add: getDensity_def)
qed

lemma cubeIndex_cpu_zeros: "cubeIndex_cpu [0, 0, 0, 0, 0, 0, 0, 0] v = (if v < 0 then 255 else 0)"
  by (simp add: cubeIndex_cpu_def)

lemma edgeTable_ends: "edgeTable ! 0 = 0" "edgeTable ! 255 = 0"
  by (simp_all add: edgeTable_def)

lemma marchCell_zero_field:
  assumes "density f = (let (gx, gy, gz) = gridSize this in replicate (gx * gy * gz) 0)"
  shows "marchCell this f c out = out"
proof -
  obtain ix iy iz where c: "c = (ix, iy, iz)" by (cases c) auto
  have e: "edgeTable ! nat (cubeIndex_cpu [0, 0, 0, 0, 0, 0, 0, 0] (isoValue this)) = 0"
    by (simp add: cubeIndex_cpu_zeros edgeTable_ends)
  show ?thesis
    unfolding marchCell_def c
    by (simp only: Let_def prod.case getDensity_zero_field[OF assms] e simp_thms if_True)
qed

lemma march_zero_field:
  assumes "density f = (let (gx, gy, gz) = gridSize this in replicate (gx * gy * gz) 0)"
  shows "march this f = \<lparr>positions = [], normals = [], colors = [], triangleCount = 0\<rparr>"
proof -
  have "fold (marchCell this f) cs out = out" for cs out
    by (induction cs) (simp_all add: marchCell_zero_field[OF assms])
  then show ?thesis by (simp add: march_def)
qed

lemma reconstruct_empty_cloud:
  "fst (reconstruct this ps cols 0) = \<lparr>positions = [], normals = [], colors = [], triangleCount = 0\<rparr>"
proof -
  have "march that (buildDensityField that ps cols 0) =
          \<lparr>positions = [], normals = [], colors = [], triangleCount = 0\<rparr>" for that
    by (rule march_zero_field) (rule buildDensityField_empty_density)
  then show ?thesis
    by (simp add: reconstruct_def Let_def split: prod.splits)
qed

lemma reconstruct_empty_cloud_bounds:
  "gridMin (snd (reconstruct this ps cols 0)) = (PInf, PInf, PInf) \<and>
   gridMax (snd (reconstruct this ps cols 0)) = (NInf, NInf, NInf)"
  by (simp add: reconstruct_def boundingBox_def Let_def)

lemma fold_invariant_set:
  "(\<And>x s. x \<in> set xs \<Longrightarrow> P s \<Longrightarrow> P (f x s)) \<Longrightarrow> P s \<Longrightarrow> P (fold f xs s)"
  by (induction xs arbitrary: s) simp_all

lemma ceilDiv_le: "4 * ceilDiv a 4 \<le> a + 3"
  unfolding ceilDiv_def by linarith

lemma ceilDiv_ge: "a \<le> 64 * ceilDiv a 64"
  unfolding ceilDiv_def by linarith

lemma voxel_index_bound:
  fixes x y z :: nat
  assumes "x < gx" "y < gy" "z < gz"
  shows "x + y * gx + z * gx * gy < gx * gy * gz"
proof -
  have "x + y * gx < gx + y * gx" using assms(1) by simp
  also have "\<dots> = Suc y * gx" by simp
  also have "\<dots> \<le> gy * gx" using assms(2) by (intro mult_le_mono1) simp
  finally have a: "x + y * gx < gx * gy" by (simp add: mult.commute)
  have "x + y * gx + z * gx * gy = (x + y * gx) + z * (gx * gy)" by (simp add: algebra_simps)
  also have "\<dots> < gx * gy + z * (gx * gy)" using a by simp
  also have "\<dots> = Suc z * (gx * gy)" by simp
  also have "\<dots> \<le> gz * (gx * gy)" using assms(3) by (intro mult_le_mono1) simp
  finally show ?thesis by (simp add: algebra_simps)
qed

lemma cube_small:
  fixes n :: nat
  assumes "n * n * n < 2 ^ 32"
  shows "n < 2048"
proof (rule ccontr)
  assume "\<not> n < 2048"
  then have n: "2048 \<le> n" by simp
  then have "2048 * 2048 \<le> n * n" by (intro mult_mono) simp_all
  then have "2048 * 2048 * 2048 \<le> n * n * n" using n by (intro mult_mono) simp_all
  with assms show False by simp
qed

lemma replicate_update_same: "(replicate n v)[i := v] = replicate n v"
  by (induction n arbitrary: i) (simp_all split: nat.split)

lemma clearVoxel_main_emptyRun: "emptyRun n st \<Longrightarrow> emptyRun n (clearVoxel_main i st)"
  by (simp add: emptyRun_def clearVoxel_main_def replicate_update_same)

lemma splatPoints_main_emptyRun: "emptyRun n st \<Longrightarrow> emptyRun n (splatPoints_main i st)"
  by (simp add: emptyRun_def splatPoints_main_def)

lemma normalizedDensity_zero: "normalizedDensity 0 = 0"
  by (simp add: normalizedDensity_def)

lemma normalizeDensity_main_emptyRun: "emptyRun n st \<Longrightarrow> emptyRun n (normalizeDensity_main i st)"
  by (simp add: emptyRun_def normalizeDensity_main_def totalVoxels_def normalizedDensity_zero
      replicate_update_same)

lemma cubeIndex_wgsl_zeros: "cubeIndex_wgsl [0, 0, 0, 0, 0, 0, 0, 0] v = (if 0 < v then 255 else 0)"
  by (simp add: cubeIndex_wgsl_def upt_rec)

lemma marchingCubes_main_emptyRun:
  assumes e: "emptyRun n st" and n: "n * n * n < 2 ^ 32"
    and et: "et ! 0 = 0" "et ! 255 = 0"
    and x0: "x < 4 * ceilDiv n 4" "y < 4 * ceilDiv n 4" "z < 4 * ceilDiv n 4"
  shows "marchingCubes_main et tt (x, y, z) st = st"
proof (cases "(word_of_nat x :: 32 word) \<ge> word_of_nat n - 1 \<or>
              (word_of_nat y :: 32 word) \<ge> word_of_nat n - 1 \<or>
              (word_of_nat z :: 32 word) \<ge> word_of_nat n - 1")
  case True
  with e show ?thesis
    by (simp add: marchingCubes_main_def emptyRun_def)
next
  case False
  from n have n2: "n < 2048" by (rule cube_small)
  have n0: "n \<noteq> 0"
  proof
    assume "n = 0"
    then have "ceilDiv n 4 = 0" by (simp add: ceilDiv_def)
    with x0(1) show False by simp
  qed
  from x0 ceilDiv_le[of n] have x: "x < n + 3" "y < n + 3" "z < n + 3"
    by simp_all
  have un: "unat (word_of_nat n - 1 :: 32 word) = n - 1"
    using n2 n0 by (simp add: unat_sub word_le_nat_alt unat_of_nat Suc_le_eq)
  have ux: "unat (word_of_nat x :: 32 word) = x" "unat (word_of_nat y :: 32 word) = y"
    "unat (word_of_nat z :: 32 word) = z"
    using x n2 by (simp_all add: unat_of_nat)
  from False have "x < n - 1" "y < n - 1" "z < n - 1"
    using un ux by (simp_all add: word_le_nat_alt not_le)
  then have b: "x < n" "Suc x < n" "y < n" "Suc y < n" "z < n" "Suc z < n" by simp_all
  have d: "densityBuffer st ! voxelIndex st a b c = 0" if "a < n" "b < n" "c < n" for a b c
  proof -
    from voxel_index_bound[OF that] have "a + b * n + c * n * n < n * n * n" .
    with e show ?thesis by (simp add: emptyRun_def voxelIndex_def)
  qed
  have cd: "map (\<lambda>(a, b, c). densityBuffer st ! voxelIndex st a b c)
             [(x, y, z), (x + 1, y, z), (x + 1, y + 1, z), (x, y + 1, z),
              (x, y, z + 1), (x + 1, y, z + 1), (x + 1, y + 1, z + 1), (x, y + 1, z + 1)]
            = [0, 0, 0, 0, 0, 0, 0, 0]"
    using b by (simp add: d)
  have z: "et ! unat (cubeIndex_wgsl [0, 0, 0, 0, 0, 0, 0, 0] (p_isoValue (params st))) = 0"
    using et by (simp add: cubeIndex_wgsl_zeros)
  from e have g: "mr_gridSize st = (n, n, n)" by (simp add: emptyRun_def)
  show ?thesis
    unfolding marchingCubes_main_def
    using False by (simp only: Let_def prod.case g cd z simp_thms if_True if_False)
qed

lemma dispatch3_invariant:
  assumes "\<And>x y z s. x < 4 * nx \<Longrightarrow> y < 4 * ny \<Longrightarrow> z < 4 * nz \<Longrightarrow> P s \<Longrightarrow> P (f (x, y, z) s)"
    and "P st"
  shows "P (dispatch3 nx ny nz f st)"
  unfolding dispatch3_def
proof (rule fold_invariant_set[where P=P, OF _ assms(2)])
  fix g s
  assume "g \<in> set (concat (map (\<lambda>z. concat (map (\<lambda>y. map (\<lambda>x. (x, y, z)) [0..<4 * nx]) [0..<4 * ny])) [0..<4 * nz]))"
    and "P s"
  then show "P (f g s)"
    using assms(1) by auto
qed

lemma runPass_emptyRun:
  assumes "emptyRun n st" "n * n * n < 2 ^ 32" "et ! 0 = 0" "et ! 255 = 0"
    and "p \<in> set (encodePasses st)"
    and that: "emptyRun n st'"
  shows "emptyRun n (runPass et tt p st')"
proof -
  from assms(1) have g: "mr_gridSize st = (n, n, n)" by (simp add: emptyRun_def)
  from assms(5) g consider
      k where "p = ClearPass k" | k where "p = SplatPass k" | k where "p = NormalizePass k"
    | "p = MarchingCubesPass (ceilDiv n 4) (ceilDiv n 4) (ceilDiv n 4)"
    by (auto simp: encodePasses_def Let_def)
  then show ?thesis
  proof cases
    case 1
    with that show ?thesis
      by (simp add: dispatch1_def fold_invariant clearVoxel_main_emptyRun)
  next
    case 2
    with that show ?thesis
      by (simp add: dispatch1_def fold_invariant splatPoints_main_emptyRun)
  next
    case 3
    with that show ?thesis
      by (simp add: dispatch1_def fold_invariant normalizeDensity_main_emptyRun)
  next
    case 4
    have "emptyRun n (dispatch3 (ceilDiv n 4) (ceilDiv n 4) (ceilDiv n 4) (marchingCubes_main et tt) st')"
      by (rule dispatch3_invariant[where P="emptyRun n", OF _ that])
         (simp add: marchingCubes_main_emptyRun[OF _ assms(2,3,4)])
    with 4 show ?thesis by simp
  qed
qed

lemma setPointCloud_emptyRun:
  assumes "initialized mr"
  shows "emptyRun gridRes (setPointCloud mr ps cols 0 gridRes)"
  using assms by (simp add: emptyRun_def setPointCloud_def Let_def split: prod.splits)

lemma readBack_zero:
  assumes "triangleCountBuffer st = 0"
  shows "fst (readBack st) = \<lparr>r_positions = [], r_normals = [], r_colors = [], r_triangleCount = 0\<rparr>"
  using assms by (simp add: readBack_def)

lemma reconstruct_gpu_empty_cloud:
  assumes init: "initialized mr" and n: "gridRes * gridRes * gridRes < 2 ^ 32"
    and et: "et ! 0 = 0" "et ! 255 = 0"
  shows "fst (reconstruct_gpu et tt (setPointCloud mr ps cols 0 gridRes)) =
           Some \<lparr>r_positions = [], r_normals = [], r_colors = [], r_triangleCount = 0\<rparr>"
proof -
  let ?st = "setPointCloud mr ps cols 0 gridRes"
  have e: "emptyRun gridRes ?st" by (rule setPointCloud_emptyRun[OF init])
  then have e0: "emptyRun gridRes (?st\<lparr>triangleCountBuffer := 0\<rparr>)" by (simp add: emptyRun_def)
  have "emptyRun gridRes (fold (runPass et tt) (encodePasses ?st) (?st\<lparr>triangleCountBuffer := 0\<rparr>))"
    by (rule fold_invariant_set[where P="emptyRun gridRes", OF _ e0])
       (rule runPass_emptyRun[OF e n et])
  then have "triangleCountBuffer (fold (runPass et tt) (encodePasses ?st) (?st\<lparr>triangleCountBuffer := 0\<rparr>)) = 0"
    by (simp add: emptyRun_def)
  from readBack_zero[OF this] have
    "fst (readBack (fold (runPass et tt) (encodePasses ?st) (?st\<lparr>triangleCountBuffer := 0\<rparr>))) =
       \<lparr>r_positions = [], r_normals = [], r_colors = [], r_triangleCount = 0\<rparr>" .
  moreover have "initialized ?st" "pointsBuffer ?st \<noteq> None"
    using init by (simp_all add: setPointCloud_def Let_def split: prod.splits)
  ultimately show ?thesis
    by (simp add: reconstruct_gpu_def Let_def case_prod_beta)
qed

lemma length_marchCells:
  "length (marchCells this) = (let (gx, gy, gz) = gridSize this in (gx - 1) * (gy - 1) * (gz - 1))"
proof -
  have c: "length (concat (map (\<lambda>a. g a) xs)) = length xs * k" if "\<And>a. length (g a) = k"
    for g :: "int \<Rightarrow> (int \<times> int \<times> int) list" and xs k
    using that by (induction xs) simp_all
  have u: "length [0..int n - 2] = n - 1" for n by simp
  obtain gx gy gz where g: "gridSize this = (gx, gy, gz)" by (cases "gridSize this") auto
  have "length (concat (map (\<lambda>iy. map (\<lambda>iz. (ix, iy, iz)) [0..int gz - 2]) [0..int gy - 2]))
        = (gy - 1) * (gz - 1)" for ix :: int
    by (subst c[where k="gz - 1"]) (simp_all only: length_map u)
  then have "length (concat (map (\<lambda>ix. concat (map (\<lambda>iy. map (\<lambda>iz. (ix, iy, iz)) [0..int gz - 2]) [0..int gy - 2]))
                  [0..int gx - 2])) = (gx - 1) * ((gy - 1) * (gz - 1))"
    by (subst c[where k="(gy - 1) * (gz - 1)"]) (simp_all only: u)
  then show ?thesis
    by (simp add: marchCells_def g mult.assoc)
qed

lemma encodePasses_setPointCloud:
  assumes "initialized mr"
  shows "encodePasses (setPointCloud mr ps cols count gridRes) =
           [ClearPass (ceilDiv (gridRes * gridRes * gridRes) 64), SplatPass (ceilDiv count 64),
            NormalizePass (ceilDiv (gridRes * gridRes * gridRes) 64),
            MarchingCubesPass (ceilDiv gridRes 4) (ceilDiv gridRes 4) (ceilDiv gridRes 4)]"
  using assms by (simp add: encodePasses_def setPointCloud_def Let_def split: prod.splits)

text \<open>
  Neither engine tests \<open>count\<close> before it starts. For an empty cloud and resolution 32 the
  compute-shader \<open>reconstruct\<close> still encodes its four passes, three of them with work to
  do; the sequential \<open>reconstruct\<close> on a new object still overwrites the object's bounding
  box and lets \<open>march\<close> visit all \<open>63 * 63 * 63\<close> cells.
\<close>

theorem reconstruct_empty_counterexample:
  "encodePasses (setPointCloud (initialReconstructor (2 ^ 28)) [] None 0 32) =
     [ClearPass 512, SplatPass 0, NormalizePass 512, MarchingCubesPass 8 8 8] \<and>
   snd (reconstruct initialCPU [] None 0) \<noteq> initialCPU \<and>
   length (marchCells (snd (reconstruct initialCPU [] None 0))) = 63 * 63 * 63"
proof -
  have i: "initialized (initialReconstructor (2 ^ 28))" by (simp add: initialReconstructor_def)
  have a: "encodePasses (setPointCloud (initialReconstructor (2 ^ 28)) [] None 0 32) =
     [ClearPass 512, SplatPass 0, NormalizePass 512, MarchingCubesPass 8 8 8]"
    using encodePasses_setPointCloud[OF i, of "[]" None 0 32] by (simp add: ceilDiv_def)
  have "gridMin (snd (reconstruct initialCPU [] None 0)) \<noteq> gridMin initialCPU"
    using reconstruct_empty_cloud_bounds[of initialCPU "[]" None] by (simp add: initialCPU_def)
  then have b: "snd (reconstruct initialCPU [] None 0) \<noteq> initialCPU" by auto
  have "gridSize (snd (reconstruct initialCPU [] None 0)) = (64, 64, 64)"
    by (simp add: reconstruct_def Let_def initialCPU_def case_prod_beta)
  then have c: "length (marchCells (snd (reconstruct initialCPU [] None 0))) = 63 * 63 * 63"
    by (simp add: length_marchCells)
  from a b c show ?thesis by blast
qed

lemma EDGE_TABLE_ends: "EDGE_TABLE ! 0 = 0" "EDGE_TABLE ! 255 = 0"
  by (simp_all add: EDGE_TABLE_def tables_length edgeTable_ends)

text \<open>
  Claim C7, amended. For any parameters a reconstruction with \<open>count = 0\<close> yields the empty
  result with \<open>triangleCount = 0\<close>: in the sequential engine for every object, point array
  and colour array; in the compute-shader engine for every state that \<open>setPointCloud\<close> leaves
  for an empty cloud, when the voxel count fits the shader's \<open>u32\<close> arithmetic and the edge
  table is 0 at the cube indices 0 and 255. Neither engine returns early: the sequential
  one stores the infinite bounding box of the empty cloud in the object and runs both
  stages, the other one encodes all four passes.
\<close>

theorem reconstruct_empty_cloud_result:
  "fst (reconstruct this ps cols 0) = \<lparr>positions = [], normals = [], colors = [], triangleCount = 0\<rparr> \<and>
   gridMin (snd (reconstruct this ps cols 0)) = (PInf, PInf, PInf) \<and>
   gridMax (snd (reconstruct this ps cols 0)) = (NInf, NInf, NInf) \<and>
   (initialized mr \<and> gridRes * gridRes * gridRes < 2 ^ 32 \<and> et ! 0 = 0 \<and> et ! 255 = 0 \<longrightarrow>
      fst (reconstruct_gpu et tt (setPointCloud mr ps cols 0 gridRes)) =
        Some \<lparr>r_positions = [], r_normals = [], r_colors = [], r_triangleCount = 0\<rparr> \<and>
      encodePasses (setPointCloud mr ps cols 0 gridRes) =
        [ClearPass (ceilDiv (gridRes * gridRes * gridRes) 64), SplatPass 0,
         NormalizePass (ceilDiv (gridRes * gridRes * gridRes) 64),
         MarchingCubesPass (ceilDiv gridRes 4) (ceilDiv gridRes 4) (ceilDiv gridRes 4)])"
  using reconstruct_empty_cloud[of this ps cols] reconstruct_empty_cloud_bounds[of this ps cols]
    reconstruct_gpu_empty_cloud[of mr gridRes et tt ps cols] encodePasses_setPointCloud[of mr ps cols 0 gridRes]
  by (simp add: ceilDiv_def)

theorem reconstruct_empty_cloud_result_witness:
  "initialized (initialReconstructor (2 ^ 28)) \<and> (32::nat) * 32 * 32 < 2 ^ 32 \<and>
   EDGE_TABLE ! 0 = 0 \<and> EDGE_TABLE ! 255 = 0 \<and>
   fst (reconstruct_gpu EDGE_TABLE TRI_TABLE (setPointCloud (initialReconstructor (2 ^ 28)) [] None 0 32)) =
     Some \<lparr>r_positions = [], r_normals = [], r_colors = [], r_triangleCount = 0\<rparr> \<and>
   fst (reconstruct initialCPU [] None 0) = \<lparr>positions = [], normals = [], colors = [], triangleCount = 0\<rparr>"
proof -
  have i: "initialized (initialReconstructor (2 ^ 28))" by (simp add: initialReconstructor_def)
  have n: "(32::nat) * 32 * 32 < 2 ^ 32" by simp
  from reconstruct_empty_cloud_result[where mr="initialReconstructor (2 ^ 28)" and gridRes=32
      and et=EDGE_TABLE and tt=TRI_TABLE and ps="[]" and cols=None and this=initialCPU]
    i n EDGE_TABLE_ends
  show ?thesis by simp
qed

subsection \<open>Determinism of the sequential engine\<close>

lemma reconstruct_reads_parameters_only:
  assumes "gridSize a = gridSize b" "isoValue a = isoValue b" "splatRadius a = splatRadius b"
  shows "reconstruct a ps cols count = reconstruct b ps cols count"
proof -
  have "a\<lparr>gridMin := lo, gridMax := hi\<rparr> = b\<lparr>gridMin := lo, gridMax := hi\<rparr>" for lo hi
    using assms by (cases a, cases b) simp
  then show ?thesis
    using assms(3) by (simp add: reconstruct_def Let_def case_prod_beta)
qed

lemma reconstruct_keeps_parameters:
  "gridSize (snd (reconstruct this ps cols count)) = gridSize this \<and>
   isoValue (snd (reconstruct this ps cols count)) = isoValue this \<and>
   splatRadius (snd (reconstruct this ps cols count)) = splatRadius this"
  by (simp add: reconstruct_def Let_def case_prod_beta)

text \<open>
  Claim C9. The sequential \<open>reconstruct\<close> is a function of its arguments and of the three
  parameters \<open>gridSize\<close>, \<open>isoValue\<close>, \<open>splatRadius\<close> of the object: the fields \<open>gridMin\<close>
  and \<open>gridMax\<close>, the only state a call leaves behind, are overwritten before they are read.
  So two objects that agree on the parameters return the same result for the same points,
  colours and count, and a second call on the object the first call left returns the
  result of the first.
\<close>

theorem reconstruct_deterministic:
  "(gridSize a = gridSize b \<and> isoValue a = isoValue b \<and> splatRadius a = splatRadius b \<longrightarrow>
      fst (reconstruct a ps cols count) = fst (reconstruct b ps cols count)) \<and>
   fst (reconstruct (snd (reconstruct this ps cols count)) ps cols count) = fst (reconstruct this ps cols count)"
proof (intro conjI impI)
  assume "gridSize a = gridSize b \<and> isoValue a = isoValue b \<and> splatRadius a = splatRadius b"
  then show "fst (reconstruct a ps cols count) = fst (reconstruct b ps cols count)"
    using reconstruct_reads_parameters_only[of a b ps cols count] by simp
next
  show "fst (reconstruct (snd (reconstruct this ps cols count)) ps cols count) = fst (reconstruct this ps cols count)"
    using reconstruct_reads_parameters_only[of "snd (reconstruct this ps cols count)" this ps cols count]
      reconstruct_keeps_parameters[of this ps cols count]
    by simp
qed

theorem reconstruct_deterministic_witness:
  "gridSize (initialCPU\<lparr>gridMin := (Fin 1, Fin 2, Fin 3)\<rparr>) = gridSize initialCPU \<and>
   isoValue (initialCPU\<lparr>gridMin := (Fin 1, Fin 2, Fin 3)\<rparr>) = isoValue initialCPU \<and>
   splatRadius (initialCPU\<lparr>gridMin := (Fin 1, Fin 2, Fin 3)\<rparr>) = splatRadius initialCPU \<and>
   fst (reconstruct (initialCPU\<lparr>gridMin := (Fin 1, Fin 2, Fin 3)\<rparr>) [0, 0, 0, 1, 1, 1] None 2) =
   fst (reconstruct initialCPU [0, 0, 0, 1, 1, 1] None 2)"
  using reconstruct_deterministic[of "initialCPU\<lparr>gridMin := (Fin 1, Fin 2, Fin 3)\<rparr>" initialCPU
      "[0, 0, 0, 1, 1, 1]" None 2]
  by simp

subsection \<open>The Gaussian splat of the sequential engine\<close>

text \<open>
  A loop whose steps each add \<open>h x\<close> to an observed quantity \<open>q\<close>, under an invariant \<open>I\<close>,
  adds the sum of the \<open>h x\<close>.
\<close>

lemma fold_accumulate:
  fixes q :: "'s \<Rightarrow> 'a::comm_monoid_add"
  assumes "\<And>x s. I s \<Longrightarrow> I (F x s) \<and> q (F x s) = q s + h x" and "I s"
  shows "I (fold F xs s) \<and> q (fold F xs s) = q s + sum_list (map h xs)"
  using assms(2)
proof (induction xs arbitrary: s)
  case Nil
  then show ?case by simp
next
  case (Cons x xs)
  from assms(1)[OF Cons.prems] have 1: "I (F x s)" and 2: "q (F x s) = q s + h x" by simp_all
  from Cons.IH[OF 1] 2 show ?case by (simp add: add.assoc)
qed

lemma sum_list_hit:
  fixes v :: "'a::comm_monoid_add"
  shows "sum_list (map (\<lambda>d. if c + d = t then v else 0) [a..b]) = (if a \<le> t - c \<and> t - c \<le> b then v else 0)"
proof -
  have "sum_list (map (\<lambda>d. if c + d = t then v else 0) [a..b]) = (\<Sum>d\<in>{a..b}. if d = t - c then v else 0)"
  proof -
    have "(\<lambda>d. if c + d = t then v else 0) = (\<lambda>d. if d = t - c then v else 0)"
      by (intro ext) auto
    then show ?thesis
      by (simp add: sum_list_distinct_conv_sum_set)
  qed
  also have "\<dots> = (if t - c \<in> {a..b} then v else 0)"
    by (simp add: sum.delta')
  finally show ?thesis by simp
qed

lemma sum_list_zero: "sum_list (map (\<lambda>d. 0) xs) = (0::'a::comm_monoid_add)"
  by (induction xs) simp_all

lemma cellIndex_inj:
  assumes "inGrid g c" "inGrid g c'" "cellIndex g c = cellIndex g c'"
  shows "c = c'"
proof -
  obtain gx gy gz where g: "g = (gx, gy, gz)" by (cases g) auto
  obtain ix iy iz where c: "c = (ix, iy, iz)" by (cases c) auto
  obtain jx jy jz where c': "c' = (jx, jy, jz)" by (cases c') auto
  from assms(1) g c have b: "0 \<le> ix" "ix < int gx" "0 \<le> iy" "iy < int gy" "0 \<le> iz" "iz < int gz"
    by (simp_all add: inGrid_def)
  from assms(2) g c' have b': "0 \<le> jx" "jx < int gx" "0 \<le> jy" "jy < int gy" "0 \<le> jz" "jz < int gz"
    by (simp_all add: inGrid_def)
  have nn: "0 \<le> ix * int gy * int gz + iy * int gz + iz" "0 \<le> jx * int gy * int gz + jy * int gz + jz"
    using b b' by simp_all
  from assms(3) g c c' nn have e: "ix * int gy * int gz + iy * int gz + iz = jx * int gy * int gz + jy * int gz + jz"
    by (simp add: cellIndex_def)
  have e1: "(ix * int gy + iy) * int gz + iz = (jx * int gy + jy) * int gz + jz"
    using e by (simp add: algebra_simps)
  have z: "iz = jz"
  proof -
    have "((ix * int gy + iy) * int gz + iz) mod int gz = iz" using b by simp
    moreover have "((jx * int gy + jy) * int gz + jz) mod int gz = jz" using b' by simp
    ultimately show ?thesis using e1 by simp
  qed
  have gz0: "int gz \<noteq> 0" using b by auto
  from e1 z gz0 have e2: "ix * int gy + iy = jx * int gy + jy" by simp
  have y: "iy = jy"
  proof -
    have "(ix * int gy + iy) mod int gy = iy" using b by simp
    moreover have "(jx * int gy + jy) mod int gy = jy" using b' by simp
    ultimately show ?thesis using e2 by simp
  qed
  have gy0: "int gy \<noteq> 0" using b by auto
  from e2 y gy0 have "ix = jx" by simp
  with y z c c' show ?thesis by simp
qed

lemma cellIndex_less:
  assumes "inGrid (gx, gy, gz) c"
  shows "cellIndex (gx, gy, gz) c < gx * gy * gz"
proof -
  obtain ix iy iz where c: "c = (ix, iy, iz)" by (cases c) auto
  from assms c have b: "0 \<le> ix" "ix < int gx" "0 \<le> iy" "iy < int gy" "0 \<le> iz" "iz < int gz"
    by (simp_all add: inGrid_def)
  then have "nat ix < gx" "nat iy < gy" "nat iz < gz" by simp_all
  from grid_index_bound[OF this] have "nat ix * gy * gz + nat iy * gz + nat iz < gx * gy * gz" .
  moreover have "cellIndex (gx, gy, gz) c = nat ix * gy * gz + nat iy * gz + nat iz"
    using b c by (simp add: cellIndex_def nat_add_distrib nat_mult_distrib)
  ultimately show ?thesis by simp
qed

lemma splatVoxel_density:
  assumes g: "gridSize this = (gx, gy, gz)"
    and c': "inGrid (gx, gy, gz) c'"
    and len: "length (s_density a) = gx * gy * gz"
  shows "length (s_density (splatVoxel this cols i n c a)) = gx * gy * gz \<and>
         s_density (splatVoxel this cols i n c a) ! cellIndex (gx, gy, gz) c' =
           s_density a ! cellIndex (gx, gy, gz) c' +
           (if c = c' then specWeight (splatRadius this) (gridDistance n c') else 0)"
proof -
  obtain ix iy iz where c: "c = (ix, iy, iz)" by (cases c) auto
  obtain nx ny nz where n: "n = (nx, ny, nz)" by (cases n) auto
  let ?d = "sqrt ((nx - (real_of_int ix + 0.5))\<^sup>2 + (ny - (real_of_int iy + 0.5))\<^sup>2 + (nz - (real_of_int iz + 0.5))\<^sup>2)"
  have gd: "gridDistance n c = ?d" by (simp add: gridDistance_def c n vx_def vy_def vz_def)
  have k: "cellIndex (gx, gy, gz) c' < length (s_density a)"
    using cellIndex_less[OF c'] len by simp
  show ?thesis
  proof (cases "inGrid (gx, gy, gz) c")
    case False
    then have "splatVoxel this cols i n c a = a"
      by (auto simp: splatVoxel_def g c n inGrid_def Let_def)
    moreover from False c' have "c \<noteq> c'" by auto
    ultimately show ?thesis using len by simp
  next
    case True
    then have ing: "\<not> (ix < 0 \<or> ix \<ge> int gx \<or> iy < 0 \<or> iy \<ge> int gy \<or> iz < 0 \<or> iz \<ge> int gz)"
      by (auto simp: inGrid_def c)
    show ?thesis
    proof (cases "?d > splatRadius this")
      case far: True
      then have "splatVoxel this cols i n c a = a"
        using ing by (simp add: splatVoxel_def g c n Let_def)
      moreover have "specWeight (splatRadius this) (gridDistance n c) = 0"
        using far by (simp add: specWeight_def gd)
      ultimately show ?thesis using len by auto
    next
      case near: False
      let ?w = "exp ((- ?d * ?d) / (2 * (splatRadius this * 0.5) * (splatRadius this * 0.5)))"
      have w: "?w = specWeight (splatRadius this) (gridDistance n c)"
        using near by (simp add: specWeight_def gd power2_eq_square)
      have ci: "cellIndex (gx, gy, gz) c = nat (ix * int gy * int gz + iy * int gz + iz)"
        by (simp add: cellIndex_def c)
      have sd: "s_density (splatVoxel this cols i n c a) =
                  (s_density a)[cellIndex (gx, gy, gz) c := s_density a ! cellIndex (gx, gy, gz) c + ?w]"
        using ing near by (cases cols) (simp_all add: splatVoxel_def g c n Let_def cellIndex_def)
      show ?thesis
      proof (cases "c = c'")
        case True
        with sd k w len show ?thesis by (simp add: nth_update_any)
      next
        case False
        with cellIndex_inj[OF \<open>inGrid (gx, gy, gz) c\<close> c'] have "cellIndex (gx, gy, gz) c \<noteq> cellIndex (gx, gy, gz) c'"
          by auto
        with sd k len False show ?thesis by (simp add: nth_update_any)
      qed
    qed
  qed
qed

lemma far_cell_axis:
  fixes nx r :: real and ix :: int
  assumes "\<not> \<bar>ix - \<lfloor>nx\<rfloor>\<bar> \<le> \<lceil>r\<rceil>"
  shows "r < \<bar>nx - (real_of_int ix + 0.5)\<bar>"
proof -
  have f: "real_of_int \<lfloor>nx\<rfloor> \<le> nx" "nx < real_of_int \<lfloor>nx\<rfloor> + 1" by linarith+
  have r: "r \<le> real_of_int \<lceil>r\<rceil>" by linarith
  from assms consider "ix - \<lfloor>nx\<rfloor> \<ge> \<lceil>r\<rceil> + 1" | "ix - \<lfloor>nx\<rfloor> \<le> - \<lceil>r\<rceil> - 1" by linarith
  then show ?thesis
  proof cases
    case 1
    then have "real_of_int ix - real_of_int \<lfloor>nx\<rfloor> \<ge> real_of_int \<lceil>r\<rceil> + 1"
      by (metis of_int_1 of_int_add of_int_diff of_int_le_iff)
    with f r show ?thesis by linarith
  next
    case 2
    then have "real_of_int ix - real_of_int \<lfloor>nx\<rfloor> \<le> - real_of_int \<lceil>r\<rceil> - 1"
      by (metis of_int_1 of_int_diff of_int_le_iff of_int_minus)
    with f r show ?thesis by linarith
  qed
qed

lemma abs_le_norm3:
  fixes a b c :: real
  shows "\<bar>a\<bar> \<le> sqrt (a\<^sup>2 + b\<^sup>2 + c\<^sup>2)" "\<bar>b\<bar> \<le> sqrt (a\<^sup>2 + b\<^sup>2 + c\<^sup>2)" "\<bar>c\<bar> \<le> sqrt (a\<^sup>2 + b\<^sup>2 + c\<^sup>2)"
  by (rule real_le_rsqrt, simp)+

lemma far_cell_weight:
  assumes "\<not> withinCube \<lceil>r\<rceil> (containingCell n) c"
  shows "specWeight r (gridDistance n c) = 0"
proof -
  obtain ix iy iz where c: "c = (ix, iy, iz)" by (cases c) auto
  from assms c consider "\<not> \<bar>ix - \<lfloor>vx n\<rfloor>\<bar> \<le> \<lceil>r\<rceil>" | "\<not> \<bar>iy - \<lfloor>vy n\<rfloor>\<bar> \<le> \<lceil>r\<rceil>" | "\<not> \<bar>iz - \<lfloor>vz n\<rfloor>\<bar> \<le> \<lceil>r\<rceil>"
    by (auto simp: withinCube_def containingCell_def)
  then have "r < gridDistance n c"
  proof cases
    case 1
    from far_cell_axis[OF this] abs_le_norm3(1)[of "vx n - (real_of_int ix + 0.5)"
        "vy n - (real_of_int iy + 0.5)" "vz n - (real_of_int iz + 0.5)"]
    show ?thesis by (simp add: gridDistance_def c)
  next
    case 2
    from far_cell_axis[OF this] abs_le_norm3(2)[of "vy n - (real_of_int iy + 0.5)"
        "vx n - (real_of_int ix + 0.5)" "vz n - (real_of_int iz + 0.5)"]
    show ?thesis by (simp add: gridDistance_def c)
  next
    case 3
    from far_cell_axis[OF this] abs_le_norm3(3)[of "vz n - (real_of_int iz + 0.5)"
        "vx n - (real_of_int ix + 0.5)" "vy n - (real_of_int iy + 0.5)"]
    show ?thesis by (simp add: gridDistance_def c)
  qed
  then show ?thesis by (simp add: specWeight_def)
qed

lemma sum_list_hit_eq:
  fixes v :: "'a::comm_monoid_add"
  shows "sum_list (map (\<lambda>d. if d = t then v else 0) [a..b]) = (if a \<le> t \<and> t \<le> b then v else 0)"
  using sum_list_hit[of 0 t v a b] by simp

text \<open>
  Three nested loops over the same range of offsets, whose body adds \<open>v\<close> to the observed
  quantity at exactly one triple of offsets, add \<open>v\<close> when that triple is in range.
\<close>

lemma triple_loop_accumulate:
  fixes q :: "'s \<Rightarrow> 'a::comm_monoid_add"
  assumes step: "\<And>u v w s. I s \<Longrightarrow>
                   I (F u v w s) \<and> q (F u v w s) = q s + (if u = tu \<and> v = tv \<and> w = tw then val else 0)"
    and "I s"
  shows "I (fold (\<lambda>u. fold (\<lambda>v. fold (\<lambda>w. F u v w) [a..b]) [a..b]) [a..b] s) \<and>
         q (fold (\<lambda>u. fold (\<lambda>v. fold (\<lambda>w. F u v w) [a..b]) [a..b]) [a..b] s) =
           q s + (if a \<le> tu \<and> tu \<le> b \<and> a \<le> tv \<and> tv \<le> b \<and> a \<le> tw \<and> tw \<le> b then val else 0)"
proof -
  have inner: "I (fold (\<lambda>w. F u v w) [a..b] s') \<and>
               q (fold (\<lambda>w. F u v w) [a..b] s') =
                 q s' + (if v = tv then (if u = tu \<and> a \<le> tw \<and> tw \<le> b then val else 0) else 0)"
    if "I s'" for u v s'
  proof -
    have "I (fold (\<lambda>w. F u v w) [a..b] s') \<and>
          q (fold (\<lambda>w. F u v w) [a..b] s') =
            q s' + sum_list (map (\<lambda>w. if w = tw then (if u = tu \<and> v = tv then val else 0) else 0) [a..b])"
      by (rule fold_accumulate[where I=I, OF _ that]) (use step in auto)
    then show ?thesis by (auto simp: sum_list_hit_eq)
  qed
  have middle: "I (fold (\<lambda>v. fold (\<lambda>w. F u v w) [a..b]) [a..b] s') \<and>
                q (fold (\<lambda>v. fold (\<lambda>w. F u v w) [a..b]) [a..b] s') =
                  q s' + (if u = tu then (if a \<le> tv \<and> tv \<le> b \<and> a \<le> tw \<and> tw \<le> b then val else 0) else 0)"
    if "I s'" for u s'
  proof -
    have "I (fold (\<lambda>v. fold (\<lambda>w. F u v w) [a..b]) [a..b] s') \<and>
          q (fold (\<lambda>v. fold (\<lambda>w. F u v w) [a..b]) [a..b] s') =
            q s' + sum_list (map (\<lambda>v. if v = tv then (if u = tu \<and> a \<le> tw \<and> tw \<le> b then val else 0) else 0) [a..b])"
      by (rule fold_accumulate[where I=I, OF _ that]) (use inner in auto)
    then show ?thesis by (auto simp: sum_list_hit_eq)
  qed
  have "I (fold (\<lambda>u. fold (\<lambda>v. fold (\<lambda>w. F u v w) [a..b]) [a..b]) [a..b] s) \<and>
        q (fold (\<lambda>u. fold (\<lambda>v. fold (\<lambda>w. F u v w) [a..b]) [a..b]) [a..b] s) =
          q s + sum_list (map (\<lambda>u. if u = tu then (if a \<le> tv \<and> tv \<le> b \<and> a \<le> tw \<and> tw \<le> b then val else 0) else 0) [a..b])"
    by (rule fold_accumulate[where I=I, OF _ assms(2)]) (use middle in auto)
  then show ?thesis by (auto simp: sum_list_hit_eq)
qed

lemma splatPoint_density:
  assumes g: "gridSize this = (gx, gy, gz)"
    and c': "inGrid (gx, gy, gz) c'"
    and len: "length (s_density a) = gx * gy * gz"
  shows "length (s_density (splatPoint this ps cols i a)) = gx * gy * gz \<and>
         s_density (splatPoint this ps cols i a) ! cellIndex (gx, gy, gz) c' =
           s_density a ! cellIndex (gx, gy, gz) c' +
           specWeight (splatRadius this) (gridDistance (gridPosition this ps i) c')"
proof -
  let ?n = "gridPosition this ps i"
  let ?R = "\<lceil>splatRadius this\<rceil>"
  let ?W = "specWeight (splatRadius this) (gridDistance ?n c')"
  obtain cx cy cz where cc: "containingCell ?n = (cx, cy, cz)" by (cases "containingCell ?n") auto
  obtain jx jy jz where j: "c' = (jx, jy, jz)" by (cases c') auto
  let ?F = "\<lambda>dx dy dz. splatVoxel this cols i ?n (cx + dx, cy + dy, cz + dz)"
  have step: "length (s_density (?F u v w s)) = gx * gy * gz \<and>
              s_density (?F u v w s) ! cellIndex (gx, gy, gz) c' =
                s_density s ! cellIndex (gx, gy, gz) c' +
                (if u = jx - cx \<and> v = jy - cy \<and> w = jz - cz then ?W else 0)"
    if "length (s_density s) = gx * gy * gz" for u v w s
  proof -
    have "(cx + u, cy + v, cz + w) = c' \<longleftrightarrow> u = jx - cx \<and> v = jy - cy \<and> w = jz - cz"
      using j by auto
    with splatVoxel_density[OF g c' that, of cols i ?n "(cx + u, cy + v, cz + w)"]
    show ?thesis by simp
  qed
  from triple_loop_accumulate[where I="\<lambda>s. length (s_density s) = gx * gy * gz"
      and q="\<lambda>s. s_density s ! cellIndex (gx, gy, gz) c'" and F="?F"
      and tu="jx - cx" and tv="jy - cy" and tw="jz - cz" and val="?W" and a="- ?R" and b="?R" and s=a,
      OF step len]
  have L: "length (s_density (splatPoint this ps cols i a)) = gx * gy * gz"
    and Q: "s_density (splatPoint this ps cols i a) ! cellIndex (gx, gy, gz) c' =
           s_density a ! cellIndex (gx, gy, gz) c' +
           (if - ?R \<le> jx - cx \<and> jx - cx \<le> ?R \<and> - ?R \<le> jy - cy \<and> jy - cy \<le> ?R \<and>
               - ?R \<le> jz - cz \<and> jz - cz \<le> ?R then ?W else 0)"
    by (simp_all add: splatPoint_def Let_def cc)
  have "?W = 0" if "\<not> (- ?R \<le> jx - cx \<and> jx - cx \<le> ?R \<and> - ?R \<le> jy - cy \<and> jy - cy \<le> ?R \<and>
               - ?R \<le> jz - cz \<and> jz - cz \<le> ?R)"
  proof (rule far_cell_weight)
    from that show "\<not> withinCube ?R (containingCell ?n) c'"
      by (auto simp: withinCube_def cc j)
  qed
  with L Q show ?thesis by auto
qed

lemma splatAll_density:
  assumes g: "gridSize this = (gx, gy, gz)" and c': "inGrid (gx, gy, gz) c'"
  shows "s_density (splatAll this ps cols count) ! cellIndex (gx, gy, gz) c' =
           (\<Sum>i\<leftarrow>[0..<count]. specWeight (splatRadius this) (gridDistance (gridPosition this ps i) c'))"
proof -
  let ?z = "\<lparr>s_density = replicate (gx * gy * gz) 0, s_colorR = replicate (gx * gy * gz) 0,
             s_colorG = replicate (gx * gy * gz) 0, s_colorB = replicate (gx * gy * gz) 0,
             s_weights = replicate (gx * gy * gz) 0\<rparr>"
  have "length (s_density (fold (splatPoint this ps cols) [0..<count] ?z)) = gx * gy * gz \<and>
        s_density (fold (splatPoint this ps cols) [0..<count] ?z) ! cellIndex (gx, gy, gz) c' =
          s_density ?z ! cellIndex (gx, gy, gz) c' +
          (\<Sum>i\<leftarrow>[0..<count]. specWeight (splatRadius this) (gridDistance (gridPosition this ps i) c'))"
    by (rule fold_accumulate[where I="\<lambda>s. length (s_density s) = gx * gy * gz"])
       (simp_all add: splatPoint_density[OF g c'])
  moreover have "s_density ?z ! cellIndex (gx, gy, gz) c' = 0"
    using cellIndex_less[OF c'] by simp
  ultimately show ?thesis
    by (simp add: splatAll_def g Let_def)
qed

lemma splatVoxel_cases:
  "splatVoxel this cols i n c a = a \<or>
   (\<exists>k e. s_density (splatVoxel this cols i n c a) = (s_density a)[k := s_density a ! k + exp e] \<and>
          s_weights (splatVoxel this cols i n c a) = (s_weights a)[k := s_weights a ! k + exp e])"
proof -
  obtain gx gy gz where g: "gridSize this = (gx, gy, gz)" by (cases "gridSize this") auto
  obtain ix iy iz where c: "c = (ix, iy, iz)" by (cases c) auto
  obtain nx ny nz where n: "n = (nx, ny, nz)" by (cases n) auto
  show ?thesis
    by (cases cols) (auto simp: splatVoxel_def g c n Let_def)
qed

lemma update_nonneg:
  fixes xs :: "real list"
  assumes "\<forall>x \<in> set xs. 0 \<le> x"
  shows "\<forall>x \<in> set (xs[k := xs ! k + exp e]). 0 \<le> x"
proof (cases "k < length xs")
  case True
  then have "0 \<le> xs ! k" using assms by simp
  then have "0 \<le> xs ! k + exp e" by (simp add: add_nonneg_nonneg)
  with assms show ?thesis
    using set_update_subset_insert[of xs k "xs ! k + exp e"] by auto
next
  case False
  then have "length xs \<le> k" by simp
  then have "xs[k := xs ! k + exp e] = xs" by (rule list_update_beyond)
  with assms show ?thesis by simp
qed

lemma splatVoxel_sound: "splatSound a \<Longrightarrow> splatSound (splatVoxel this cols i n c a)"
  using splatVoxel_cases[of this cols i n c a] update_nonneg[of "s_density a"]
  by (auto simp: splatSound_def)

lemma splatPoint_sound: "splatSound a \<Longrightarrow> splatSound (splatPoint this ps cols i a)"
  unfolding splatPoint_def Let_def case_prod_beta
  by (intro fold_invariant[where P=splatSound] splatVoxel_sound)

lemma splatAll_sound: "splatSound (splatAll this ps cols count)"
  unfolding splatAll_def Let_def case_prod_beta
proof (rule fold_invariant[where P=splatSound])
  show "splatSound s \<Longrightarrow> splatSound (splatPoint this ps cols x s)" for x s
    by (rule splatPoint_sound)
  show "splatSound
     \<lparr>s_density = replicate (fst (gridSize this) * fst (snd (gridSize this)) * snd (snd (gridSize this))) 0,
        s_colorR = replicate (fst (gridSize this) * fst (snd (gridSize this)) * snd (snd (gridSize this))) 0,
        s_colorG = replicate (fst (gridSize this) * fst (snd (gridSize this)) * snd (snd (gridSize this))) 0,
        s_colorB = replicate (fst (gridSize this) * fst (snd (gridSize this)) * snd (snd (gridSize this))) 0,
        s_weights = replicate (fst (gridSize this) * fst (snd (gridSize this)) * snd (snd (gridSize this))) 0\<rparr>"
    by (simp add: splatSound_def)
qed

lemma buildDensityField_raw:
  "density (buildDensityField this ps cols count) = s_weights (splatAll this ps cols count) \<and>
   (\<forall>d \<in> set (density (buildDensityField this ps cols count)). 0 \<le> d)"
  using splatAll_sound[of this ps cols count]
  by (simp add: buildDensityField_def splatSound_def Let_def case_prod_beta)

subsection \<open>The density after normalisation\<close>

lemma stateAfter_0: "stateAfter et tt 0 this = this\<lparr>triangleCountBuffer := 0\<rparr>"
  by (simp add: stateAfter_def)

lemma encodePasses_list:
  "encodePasses this =
     [ClearPass (ceilDiv (totalVoxels this) 64), SplatPass (ceilDiv (numPoints this) 64),
      NormalizePass (ceilDiv (totalVoxels this) 64),
      MarchingCubesPass (ceilDiv (fst (mr_gridSize this)) 4) (ceilDiv (fst (snd (mr_gridSize this))) 4)
        (ceilDiv (snd (snd (mr_gridSize this))) 4)]"
  by (simp add: encodePasses_def totalVoxels_def Let_def case_prod_beta)

lemma stateAfter_1:
  "stateAfter et tt (Suc 0) this =
     dispatch1 (ceilDiv (totalVoxels this) 64) clearVoxel_main (this\<lparr>triangleCountBuffer := 0\<rparr>)"
  by (simp add: stateAfter_def encodePasses_list)

lemma take_two: "take 2 (a # b # xs) = [a, b]"
  by (simp add: numeral_2_eq_2)

lemma take_three: "take 3 (a # b # c # xs) = [a, b, c]"
  by (simp add: numeral_3_eq_3)

lemma stateAfter_2:
  "stateAfter et tt 2 this =
     dispatch1 (ceilDiv (numPoints this) 64) splatPoints_main (stateAfter et tt (Suc 0) this)"
  by (simp add: stateAfter_def encodePasses_list take_two)

lemma stateAfter_3:
  "stateAfter et tt 3 this =
     dispatch1 (ceilDiv (totalVoxels this) 64) normalizeDensity_main (stateAfter et tt 2 this)"
  by (simp add: stateAfter_def encodePasses_list take_two take_three)

lemma stateAfter_4:
  "stateAfter et tt 4 this =
     dispatch3 (ceilDiv (fst (mr_gridSize this)) 4) (ceilDiv (fst (snd (mr_gridSize this))) 4)
        (ceilDiv (snd (snd (mr_gridSize this))) 4) (marchingCubes_main et tt) (stateAfter et tt 3 this)"
  by (simp add: stateAfter_def encodePasses_list take_three)

lemma reconstruct_gpu_stateAfter:
  assumes "reconstruct_gpu et tt this = (Some r, st')"
  shows "readBack (stateAfter et tt 4 this) = (r, st')"
  using assms
  by (auto simp: reconstruct_gpu_def stateAfter_def encodePasses_list Let_def split: if_splits prod.splits)

lemma readBack_keeps:
  "densityBuffer (snd (readBack st)) = densityBuffer st"
  "voxelBuffer (snd (readBack st)) = voxelBuffer st"
  "normalizedColorsBuffer (snd (readBack st)) = normalizedColorsBuffer st"
  "voxelColorsRBuffer (snd (readBack st)) = voxelColorsRBuffer st"
  "voxelColorsGBuffer (snd (readBack st)) = voxelColorsGBuffer st"
  "voxelColorsBBuffer (snd (readBack st)) = voxelColorsBBuffer st"
  by (simp_all add: readBack_def Let_def)

lemma writeTriangle_keeps_voxels [simp]:
  "voxelBuffer (writeTriangle v0 v1 v2 n c0 c1 c2 st) = voxelBuffer st"
  "voxelColorsRBuffer (writeTriangle v0 v1 v2 n c0 c1 c2 st) = voxelColorsRBuffer st"
  "voxelColorsGBuffer (writeTriangle v0 v1 v2 n c0 c1 c2 st) = voxelColorsGBuffer st"
  "voxelColorsBBuffer (writeTriangle v0 v1 v2 n c0 c1 c2 st) = voxelColorsBBuffer st"
  by (simp_all add: writeTriangle_def Let_def)

lemma totalVoxels_cong: "mr_gridSize a = mr_gridSize b \<Longrightarrow> totalVoxels a = totalVoxels b"
  by (simp add: totalVoxels_def)

lemma normalize_step:
  "densityBuffer (normalizeDensity_main n s) =
     (if n \<ge> totalVoxels s then densityBuffer s
      else (densityBuffer s)[n := normalizedDensity (voxelBuffer s ! n)])"
  by (simp add: normalizeDensity_main_def)

lemma normalize_pass:
  assumes "length (densityBuffer st) = totalVoxels st"
  shows "length (densityBuffer (fold normalizeDensity_main [0..<n] st)) = totalVoxels st \<and>
         (\<forall>i < totalVoxels st.
            densityBuffer (fold normalizeDensity_main [0..<n] st) ! i =
              (if i < n then normalizedDensity (voxelBuffer st ! i) else densityBuffer st ! i))"
proof (induction n)
  case 0
  with assms show ?case by simp
next
  case (Suc n)
  let ?s = "fold normalizeDensity_main [0..<n] st"
  have v: "voxelBuffer ?s = voxelBuffer st" by (rule fold_keeps) simp
  have "mr_gridSize ?s = mr_gridSize st" by (rule fold_keeps) simp
  then have t: "totalVoxels ?s = totalVoxels st" by (rule totalVoxels_cong)
  have f: "fold normalizeDensity_main [0..<Suc n] st = normalizeDensity_main n ?s" by simp
  show ?case
  proof (cases "n \<ge> totalVoxels st")
    case True
    with Suc t show ?thesis
      unfolding f by (simp add: normalize_step)
  next
    case False
    with Suc t v show ?thesis
      unfolding f by (auto simp: normalize_step nth_update_any)
  qed
qed

lemma unsigned_real_nonneg: "0 \<le> (unsigned w :: real)"
  by (metis of_nat_0_le_iff of_nat_unat)

lemma normalizedDensity_range: "0 \<le> normalizedDensity raw \<and> normalizedDensity raw \<le> 1"
proof -
  define rd where "rd = f32 (f32 (real (unat raw)) / 1000)"
  define a where "a = f32 (- rd * 0.5)"
  define e where "e = f32 (exp a)"
  have "0 \<le> f32 (real (unat raw))" by (rule f32_nonneg) (simp add: unsigned_real_nonneg)
  then have "0 \<le> rd" unfolding rd_def by (intro f32_nonneg) simp
  then have "a \<le> 0" unfolding a_def by (intro f32_nonpos) simp
  then have "exp a \<le> 1" by simp
  with f32_unit[of "exp a"] have e: "0 \<le> e" "e \<le> 1" by (simp_all add: e_def)
  then have "0 \<le> f32 (1 - e)" "f32 (1 - e) \<le> 1" by (simp_all add: f32_unit)
  moreover have "normalizedDensity raw = f32 (1 - e)"
    by (simp add: normalizedDensity_def rd_def a_def e_def)
  ultimately show ?thesis by simp
qed

lemma exp_minus_32: "exp (- 32) \<le> (2::real) powi (- 32)"
proof -
  have "(2::real) \<le> exp 1" using exp_ge_add_one_self[of "1::real"] by simp
  then have "(2::real) ^ 32 \<le> exp 1 ^ 32" by (rule power_mono) simp
  also have "\<dots> = exp (real 32 * 1)" by (rule exp_of_nat_mult[symmetric])
  finally have "(2::real) ^ 32 \<le> exp 32" by simp
  then have "inverse (exp 32) \<le> inverse ((2::real) ^ 32)"
    by (intro le_imp_inverse_le) simp_all
  then show ?thesis by (simp add: exp_minus power_int_minus)
qed

lemma normalizedDensity_saturated:
  assumes "65536 \<le> unat raw"
  shows "normalizedDensity raw = 1"
proof -
  define n where "n = unat raw"
  define rd where "rd = f32 (f32 (real n) / 1000)"
  define e where "e = f32 (exp (f32 (- (rd * 0.5))))"
  have nd: "normalizedDensity raw = f32 (1 - e)"
    by (simp add: normalizedDensity_def rd_def e_def n_def)
  from assms have "65536 \<le> n" by (simp add: n_def)
  then have "(2::real) powi 16 \<le> real n" by simp
  then have "2 powi 16 \<le> f32 (real n)" by (rule f32_ge_pow2) simp
  then have "2 powi 6 \<le> f32 (real n) / 1000" by simp
  then have "2 powi 6 \<le> rd" unfolding rd_def by (rule f32_ge_pow2) simp
  then have "2 powi 5 \<le> rd * 0.5" by simp
  then have "2 powi 5 \<le> f32 (rd * 0.5)" by (rule f32_ge_pow2) simp
  then have "f32 (- (rd * 0.5)) \<le> - 32" by (simp add: f32_minus)
  then have "exp (f32 (- (rd * 0.5))) \<le> exp (- 32)" by simp
  with exp_minus_32 have b: "exp (f32 (- (rd * 0.5))) \<le> 2 powi (- 32)" by linarith
  have "e \<le> 2 powi (- 32)" unfolding e_def by (rule f32_le_pow2[OF _ b]) simp_all
  moreover have "(2::real) powi (- 32) < 2 powi (- 25)"
    by (rule power_int_strict_increasing) simp_all
  moreover have "0 \<le> e" unfolding e_def by (rule f32_nonneg) simp
  ultimately have "f32 (1 - e) = 1" by (intro f32_one_minus) simp_all
  with nd show ?thesis by simp
qed

lemma exp_minus_20: "exp (- 20) \<le> (2::real) powi (- 26)"
proof -
  have "(13/8::real) \<le> exp (1/2)"
    using exp_lower_Taylor_quadratic[of "1/2::real"] by (simp add: power2_eq_square)
  then have "(13/8::real) ^ 40 \<le> exp (1/2) ^ 40" by (rule power_mono) simp
  also have "\<dots> = exp (real 40 * (1/2))" by (rule exp_of_nat_mult[symmetric])
  finally have "(13/8::real) ^ 40 \<le> exp 20" by simp
  moreover have "(2::real) ^ 26 \<le> (13/8) ^ 40" by (simp add: power_divide)
  ultimately have "(2::real) ^ 26 \<le> exp 20" by linarith
  then have "inverse (exp 20) \<le> inverse ((2::real) ^ 26)"
    by (intro le_imp_inverse_le) simp_all
  then show ?thesis by (simp add: exp_minus power_int_minus)
qed

lemma normalizedDensity_40000: "normalizedDensity 40000 = 1"
proof -
  have a: "f32 40000 = 40000"
    by (rule f32_exact[where m=10240000 and k=15]) (simp_all add: power_int_minus)
  have b: "f32 40 = 40"
    by (rule f32_exact[where m=10485760 and k=5]) (simp_all add: power_int_minus)
  have c: "f32 20 = 20"
    by (rule f32_exact[where m=10485760 and k=4]) (simp_all add: power_int_minus)
  define e where "e = f32 (exp (- 20))"
  have "e \<le> 2 powi (- 26)" unfolding e_def by (rule f32_le_pow2[OF _ exp_minus_20]) simp_all
  moreover have "(2::real) powi (- 26) < 2 powi (- 25)"
    by (rule power_int_strict_increasing) simp_all
  moreover have "0 \<le> e" unfolding e_def by (rule f32_nonneg) simp
  ultimately have "f32 (1 - e) = 1" by (intro f32_one_minus) simp_all
  moreover have "f32 (- 20) = - 20" using f32_minus[of 20] c by simp
  ultimately show ?thesis
    by (simp add: normalizedDensity_def a b e_def)
qed

lemma exp_diff_le:
  fixes a b :: real
  assumes "a \<le> b"
  shows "exp b - exp a \<le> (b - a) * exp b"
proof -
  have "1 + (a - b) \<le> exp (a - b)" by (rule exp_ge_add_one_self)
  then have "(1 + (a - b)) * exp b \<le> exp (a - b) * exp b" by (rule mult_right_mono) simp
  also have "\<dots> = exp a" by (simp flip: exp_add)
  finally show ?thesis by (simp add: algebra_simps)
qed

lemma exp_diff_abs:
  fixes a b :: real
  shows "\<bar>exp a - exp b\<bar> \<le> \<bar>a - b\<bar> * exp (max a b)"
proof (cases "a \<le> b")
  case True
  then have "exp a \<le> exp b" by simp
  with exp_diff_le[OF True] True show ?thesis by (simp add: max_def abs_if)
next
  case False
  then have l: "b \<le> a" by simp
  then have "exp b \<le> exp a" by simp
  with exp_diff_le[OF l] False show ?thesis by (simp add: max_def abs_if)
qed

lemma t_exp_le_one:
  fixes t :: real
  shows "t * exp (- t) \<le> 1"
proof -
  have "t \<le> exp t" using exp_ge_add_one_self[of t] by linarith
  then have "t * exp (- t) \<le> exp t * exp (- t)" by (rule mult_right_mono) simp
  then show ?thesis by (simp flip: exp_add)
qed

lemma normalizedDensity_near:
  "\<bar>normalizedDensity raw - (1 - exp (- (real (unat raw) / 1000) * 0.5))\<bar> \<le> 1 / 2097152"
proof -
  define m where "m = unat raw"
  define n where "n = real m"
  define x1 where "x1 = f32 n"
  define rd where "rd = f32 (x1 / 1000)"
  define x3 where "x3 = f32 (- rd * 0.5)"
  define x4 where "x4 = f32 (exp x3)"
  define u where "u = n / 2000"
  have nd: "normalizedDensity raw = f32 (1 - x4)"
    by (simp add: normalizedDensity_def m_def n_def x1_def rd_def x3_def x4_def)
  have tgt: "1 - exp (- (real (unat raw) / 1000) * 0.5) = 1 - exp (- u)"
    by (simp add: u_def n_def m_def)
  have n0: "0 \<le> n" by (simp add: n_def)
  have x10: "0 \<le> x1" unfolding x1_def by (rule f32_nonneg[OF n0])
  have rd0: "0 \<le> rd" unfolding rd_def by (rule f32_nonneg) (use x10 in simp)
  have x30: "x3 \<le> 0" unfolding x3_def by (rule f32_nonpos) (use rd0 in simp)
  have e4: "\<bar>x4 - exp x3\<bar> \<le> 1 / 16777216"
    unfolding x4_def by (rule f32_error_unit) (use x30 in simp)
  have "0 \<le> x4" "x4 \<le> 1"
    unfolding x4_def using f32_unit[of "exp x3"] x30 by simp_all
  then have "\<bar>1 - x4\<bar> \<le> 1" by simp
  from f32_error_unit[OF this] have e5: "\<bar>f32 (1 - x4) - (1 - x4)\<bar> \<le> 1 / 16777216" .
  have e3: "\<bar>exp x3 - exp (- u)\<bar> \<le> 5 / 16777216"
  proof (cases "n = 0")
    case True
    then show ?thesis by (simp add: u_def x3_def rd_def x1_def)
  next
    case False
    have "m \<noteq> 0" using False by (simp add: n_def)
    then have "1 \<le> m" by simp
    then have n1: "1 \<le> n" unfolding n_def by simp
    have s: "(2::real) powi (- 126) \<le> 1 / 2097152" by (simp add: power_int_minus)
    have a1: "\<bar>x1 - n\<bar> \<le> \<bar>n\<bar> / 16777216"
      unfolding x1_def by (rule f32_error) (use n1 s in linarith)
    have a2: "\<bar>rd - x1 / 1000\<bar> \<le> \<bar>x1 / 1000\<bar> / 16777216"
      unfolding rd_def by (rule f32_error) (use n1 a1 s in \<open>simp; linarith\<close>)
    have a3: "\<bar>x3 - (- rd * 0.5)\<bar> \<le> \<bar>- rd * 0.5\<bar> / 16777216"
      unfolding x3_def by (rule f32_error) (use n1 a1 a2 s in \<open>simp; linarith\<close>)
    have d: "\<bar>x3 - (- u)\<bar> \<le> 4 * u / 16777216"
      using a1 a2 a3 n1 x10 rd0 unfolding u_def by (simp add: abs_if split: if_splits; linarith)
    define t where "t = u * (1 - 4 / 16777216)"
    have "max x3 (- u) \<le> - t" using d n1 unfolding t_def u_def by (simp add: abs_if split: if_splits; linarith)
    then have "exp (max x3 (- u)) \<le> exp (- t)" by simp
    then have "\<bar>x3 - (- u)\<bar> * exp (max x3 (- u)) \<le> \<bar>x3 - (- u)\<bar> * exp (- t)"
      by (rule mult_left_mono) simp
    also have "\<dots> \<le> (4 * u / 16777216) * exp (- t)"
      by (rule mult_right_mono[OF d]) simp
    also have "\<dots> = (4 / 16777212) * (t * exp (- t))" by (simp add: t_def)
    also have "\<dots> \<le> (4 / 16777212) * 1"
      by (rule mult_left_mono[OF t_exp_le_one]) simp
    finally have "\<bar>x3 - (- u)\<bar> * exp (max x3 (- u)) \<le> 5 / 16777216" by simp
    with exp_diff_abs[of x3 "- u"] show ?thesis by linarith
  qed
  have "\<bar>f32 (1 - x4) - (1 - exp (- u))\<bar> \<le> 7 / 16777216"
    using e3 e4 e5 by linarith
  then show ?thesis unfolding nd tgt by simp
qed

lemma stateAfter_gridSize: "k \<le> 4 \<Longrightarrow> mr_gridSize (stateAfter et tt k this) = mr_gridSize this"
  unfolding stateAfter_def
proof (rule trans[OF fold_keeps])
  show "mr_gridSize (runPass et tt p s) = mr_gridSize s" for p s
    by (cases p) (simp_all add: dispatch1_keeps dispatch3_keeps marchingCubes_main_keeps)
qed simp

lemma stateAfter_density_2: "densityBuffer (stateAfter et tt 2 this) = densityBuffer this"
  by (simp add: stateAfter_2 stateAfter_1 dispatch1_keeps)

lemma stateAfter_4_buffers:
  "densityBuffer (stateAfter et tt 4 this) = densityBuffer (stateAfter et tt 3 this)"
  "voxelBuffer (stateAfter et tt 4 this) = voxelBuffer (stateAfter et tt 2 this)"
  by (simp_all add: stateAfter_4 stateAfter_3 dispatch1_keeps dispatch3_keeps marchingCubes_main_keeps)

lemma final_density:
  assumes len: "length (densityBuffer this) = totalVoxels this"
    and rec: "reconstruct_gpu et tt this = (Some r, st')"
    and i: "i < totalVoxels this"
  shows "densityBuffer st' ! i = normalizedDensity (voxelBuffer st' ! i)"
proof -
  let ?s2 = "stateAfter et tt 2 this"
  have t2: "totalVoxels ?s2 = totalVoxels this"
    by (rule totalVoxels_cong) (simp add: stateAfter_gridSize)
  have l2: "length (densityBuffer ?s2) = totalVoxels ?s2"
    using len by (simp add: stateAfter_density_2 t2)
  have "i < 64 * ceilDiv (totalVoxels this) 64"
    using i ceilDiv_ge[of "totalVoxels this"] by linarith
  with normalize_pass[OF l2, of "64 * ceilDiv (totalVoxels this) 64"] i t2
  have "densityBuffer (stateAfter et tt 3 this) ! i = normalizedDensity (voxelBuffer ?s2 ! i)"
    by (simp add: stateAfter_3 dispatch1_def)
  moreover from reconstruct_gpu_stateAfter[OF rec] have "st' = snd (readBack (stateAfter et tt 4 this))"
    by simp
  ultimately show ?thesis
    by (simp add: readBack_keeps stateAfter_4_buffers)
qed

lemma setPointCloud_allocated:
  assumes "initialized mr"
  shows "buffersAllocated (setPointCloud mr ps cols count gridRes)"
    and "totalVoxels (setPointCloud mr ps cols count gridRes) = gridRes * gridRes * gridRes"
  using assms
  by (simp_all add: buffersAllocated_def totalVoxels_def setPointCloud_def Let_def case_prod_beta)

subsection \<open>The bounded vertex buffer\<close>

lemma min_div_distrib: "min a b div c = min (a div c) (b div (c::nat))"
  by (simp add: min_def div_le_mono) (metis div_le_mono nat_le_linear order_antisym)

lemma setPointCloud_capacity:
  assumes "initialized mr"
  shows "maxTriangleCount (setPointCloud mr ps cols count n) =
           min (min (6 * n * n * 2 * 5) (n * n * n)) (min (maxBufferSize mr) (512 * 1024 * 1024) div 144)"
    and "maxTriangleCount (setPointCloud mr ps cols count n) =
           length (vertexBuffer (setPointCloud mr ps cols count n)) div 3"
proof -
  have "actualBufferSize (maxBufferSize mr) n =
          min (min (6 * n * n * 2 * 5) (n * n * n) * 144) (min (maxBufferSize mr) (512 * 1024 * 1024))"
    by (simp add: actualBufferSize_def Let_def)
  then have "actualBufferSize (maxBufferSize mr) n div 144 =
          min (min (6 * n * n * 2 * 5) (n * n * n)) (min (maxBufferSize mr) (512 * 1024 * 1024) div 144)"
    by (simp only: min_div_distrib) simp
  with setPointCloud_fields(1)[OF assms, of ps cols count n]
  show "maxTriangleCount (setPointCloud mr ps cols count n) =
           min (min (6 * n * n * 2 * 5) (n * n * n)) (min (maxBufferSize mr) (512 * 1024 * 1024) div 144)"
    by simp
  have "actualBufferSize (maxBufferSize mr) n div 144 = actualBufferSize (maxBufferSize mr) n div 48 div 3"
    by (simp add: div_mult2_eq)
  with setPointCloud_fields(1,2)[OF assms, of ps cols count n]
  show "maxTriangleCount (setPointCloud mr ps cols count n) =
           length (vertexBuffer (setPointCloud mr ps cols count n)) div 3"
    by simp
qed

lemma writeTriangle_effect:
  assumes k: "unat (triangleCountBuffer st) < 1431655765"
    and len: "length (vertexBuffer st) < 2 ^ 32"
  shows "triangleCountBuffer (writeTriangle v0 v1 v2 nrm c0 c1 c2 st) = triangleCountBuffer st + 1"
    and "unat (triangleCountBuffer st) < length (vertexBuffer st) div 3 \<Longrightarrow>
           3 * unat (triangleCountBuffer st) + 2 < length (vertexBuffer st) \<and>
           vertexBuffer (writeTriangle v0 v1 v2 nrm c0 c1 c2 st) =
             (vertexBuffer st)
               [3 * unat (triangleCountBuffer st) := \<lparr>v_position = v0, v_normal = nrm, v_color = c0\<rparr>,
                3 * unat (triangleCountBuffer st) + 1 := \<lparr>v_position = v1, v_normal = nrm, v_color = c1\<rparr>,
                3 * unat (triangleCountBuffer st) + 2 := \<lparr>v_position = v2, v_normal = nrm, v_color = c2\<rparr>]"
    and "\<not> unat (triangleCountBuffer st) < length (vertexBuffer st) div 3 \<Longrightarrow>
           vertexBuffer (writeTriangle v0 v1 v2 nrm c0 c1 c2 st) = vertexBuffer st"
proof -
  let ?t = "triangleCountBuffer st"
  let ?k = "unat ?t"
  let ?L = "length (vertexBuffer st)"
  have b0: "unat (?t * 3) = 3 * ?k"
    using k by (simp add: unat_word_ariths)
  have b1: "unat (?t * 3 + 1) = 3 * ?k + 1"
    using k b0 by (simp add: unat_word_ariths)
  have b2: "unat (?t * 3 + 2) = 3 * ?k + 2"
    using k b0 by (simp add: unat_word_ariths)
  have al: "unat (word_of_nat ?L :: 32 word) = ?L"
    using len by (simp add: unat_of_nat)
  have guard: "?t * 3 + 2 < (word_of_nat ?L :: 32 word) \<longleftrightarrow> ?k < ?L div 3"
    unfolding word_less_nat_alt b2 al by linarith
  show "triangleCountBuffer (writeTriangle v0 v1 v2 nrm c0 c1 c2 st) = ?t + 1"
    by (simp add: writeTriangle_def Let_def)
  show "3 * ?k + 2 < ?L \<and>
           vertexBuffer (writeTriangle v0 v1 v2 nrm c0 c1 c2 st) =
             (vertexBuffer st)
               [3 * ?k := \<lparr>v_position = v0, v_normal = nrm, v_color = c0\<rparr>,
                3 * ?k + 1 := \<lparr>v_position = v1, v_normal = nrm, v_color = c1\<rparr>,
                3 * ?k + 2 := \<lparr>v_position = v2, v_normal = nrm, v_color = c2\<rparr>]"
    if "?k < ?L div 3"
  proof
    from that show "3 * ?k + 2 < ?L" by linarith
    from that guard show "vertexBuffer (writeTriangle v0 v1 v2 nrm c0 c1 c2 st) =
             (vertexBuffer st)
               [3 * ?k := \<lparr>v_position = v0, v_normal = nrm, v_color = c0\<rparr>,
                3 * ?k + 1 := \<lparr>v_position = v1, v_normal = nrm, v_color = c1\<rparr>,
                3 * ?k + 2 := \<lparr>v_position = v2, v_normal = nrm, v_color = c2\<rparr>]"
      by (simp add: writeTriangle_def Let_def b0 b1 b2)
  qed
  show "vertexBuffer (writeTriangle v0 v1 v2 nrm c0 c1 c2 st) = vertexBuffer st"
    if "\<not> ?k < ?L div 3"
    using that guard by (simp add: writeTriangle_def Let_def)
qed

text \<open>
  The capacity is not always \<open>min(6 N N 2 5, N\<^sup>3)\<close>: \<open>setPointCloud\<close> also limits the vertex
  buffer to the device's \<open>maxBufferSize\<close> and to 512 MiB. At resolution 256 on a device with
  a 1 GiB limit the buffer holds 3728270 triangles, fewer than \<open>min(6 N N 2 5, N\<^sup>3) = 3932160\<close>.
\<close>

theorem capacity_counterexample:
  "maxTriangleCount (setPointCloud (initialReconstructor (2 ^ 30)) [] None 0 256) = 3728270 \<and>
   min (6 * 256 * 256 * 2 * 5) (256 * 256 * 256) = (3932160::nat)"
proof -
  have i: "initialized (initialReconstructor (2 ^ 30))" by (simp add: initialReconstructor_def)
  have m: "maxBufferSize (initialReconstructor (2 ^ 30)) = 2 ^ 30" by (simp add: initialReconstructor_def)
  show ?thesis
    using setPointCloud_capacity(1)[OF i, of "[]" None 0 256] by (simp add: initialReconstructor_def)
qed

text \<open>
  Claim C6, amended. The capacity of the vertex buffer is \<open>min(6 N N 2 5, N\<^sup>3)\<close> triangles,
  further limited to the triangles that fit \<open>min(maxBufferSize, 512 MiB)\<close> at 144 bytes each;
  it is a third of the buffer's length in vertices. Every triangle the shader emits
  increments the counter. While the counter is below the capacity the triangle is written
  to its three slots, all inside the buffer; from then on nothing is written and the
  buffer stays as it is. The count returned to the caller is the minimum of counter and
  capacity, in an ordinary result. (Counter values below \<open>2\<^sup>3\<^sup>2 / 3\<close>, where the index
  arithmetic of the shader does not wrap.)
\<close>

theorem triangle_overflow_dropped:
  "(initialized mr \<longrightarrow>
      maxTriangleCount (setPointCloud mr ps cols count n) =
        min (min (6 * n * n * 2 * 5) (n * n * n)) (min (maxBufferSize mr) (512 * 1024 * 1024) div 144) \<and>
      maxTriangleCount (setPointCloud mr ps cols count n) =
        length (vertexBuffer (setPointCloud mr ps cols count n)) div 3) \<and>
   (unat (triangleCountBuffer st) < 1431655765 \<and> length (vertexBuffer st) < 2 ^ 32 \<longrightarrow>
      triangleCountBuffer (writeTriangle v0 v1 v2 nrm c0 c1 c2 st) = triangleCountBuffer st + 1 \<and>
      (unat (triangleCountBuffer st) < length (vertexBuffer st) div 3 \<longrightarrow>
         3 * unat (triangleCountBuffer st) + 2 < length (vertexBuffer st) \<and>
         vertexBuffer (writeTriangle v0 v1 v2 nrm c0 c1 c2 st) =
           (vertexBuffer st)
             [3 * unat (triangleCountBuffer st) := \<lparr>v_position = v0, v_normal = nrm, v_color = c0\<rparr>,
              3 * unat (triangleCountBuffer st) + 1 := \<lparr>v_position = v1, v_normal = nrm, v_color = c1\<rparr>,
              3 * unat (triangleCountBuffer st) + 2 := \<lparr>v_position = v2, v_normal = nrm, v_color = c2\<rparr>]) \<and>
      (\<not> unat (triangleCountBuffer st) < length (vertexBuffer st) div 3 \<longrightarrow>
         vertexBuffer (writeTriangle v0 v1 v2 nrm c0 c1 c2 st) = vertexBuffer st)) \<and>
   (readBack sf = (r, sf') \<and> maxTriangleCount sf \<noteq> 0 \<longrightarrow>
      r_triangleCount r = min (unat (triangleCountBuffer sf)) (maxTriangleCount sf))"
proof (intro conjI)
  show "initialized mr \<longrightarrow>
      maxTriangleCount (setPointCloud mr ps cols count n) =
        min (min (6 * n * n * 2 * 5) (n * n * n)) (min (maxBufferSize mr) (512 * 1024 * 1024) div 144) \<and>
      maxTriangleCount (setPointCloud mr ps cols count n) =
        length (vertexBuffer (setPointCloud mr ps cols count n)) div 3"
    using setPointCloud_capacity[of mr ps cols count n] by blast
  show "unat (triangleCountBuffer st) < 1431655765 \<and> length (vertexBuffer st) < 2 ^ 32 \<longrightarrow>
      triangleCountBuffer (writeTriangle v0 v1 v2 nrm c0 c1 c2 st) = triangleCountBuffer st + 1 \<and>
      (unat (triangleCountBuffer st) < length (vertexBuffer st) div 3 \<longrightarrow>
         3 * unat (triangleCountBuffer st) + 2 < length (vertexBuffer st) \<and>
         vertexBuffer (writeTriangle v0 v1 v2 nrm c0 c1 c2 st) =
           (vertexBuffer st)
             [3 * unat (triangleCountBuffer st) := \<lparr>v_position = v0, v_normal = nrm, v_color = c0\<rparr>,
              3 * unat (triangleCountBuffer st) + 1 := \<lparr>v_position = v1, v_normal = nrm, v_color = c1\<rparr>,
              3 * unat (triangleCountBuffer st) + 2 := \<lparr>v_position = v2, v_normal = nrm, v_color = c2\<rparr>]) \<and>
      (\<not> unat (triangleCountBuffer st) < length (vertexBuffer st) div 3 \<longrightarrow>
         vertexBuffer (writeTriangle v0 v1 v2 nrm c0 c1 c2 st) = vertexBuffer st)"
    using writeTriangle_effect[of st v0 v1 v2 nrm c0 c1 c2] by blast
  show "readBack sf = (r, sf') \<and> maxTriangleCount sf \<noteq> 0 \<longrightarrow>
      r_triangleCount r = min (unat (triangleCountBuffer sf)) (maxTriangleCount sf)"
    using readBack_count[of sf r sf'] by auto
qed

text \<open>A state with room for one triangle (resolution 1) whose counter already stands at 1.\<close>

theorem triangle_overflow_dropped_witness:
  "initialized (initialReconstructor (2 ^ 28)) \<and>
   maxTriangleCount (setPointCloud (initialReconstructor (2 ^ 28)) [] None 0 1) = 1 \<and>
   length (vertexBuffer (setPointCloud (initialReconstructor (2 ^ 28)) [] None 0 1)) = 3 \<and>
   vertexBuffer (writeTriangle (1, 0, 0) (0, 1, 0) (0, 0, 1) (0, 0, 1) (1, 1, 1) (1, 1, 1) (1, 1, 1)
      ((setPointCloud (initialReconstructor (2 ^ 28)) [] None 0 1)\<lparr>triangleCountBuffer := 1\<rparr>)) =
     replicate 3 zeroVertex \<and>
   triangleCountBuffer (writeTriangle (1, 0, 0) (0, 1, 0) (0, 0, 1) (0, 0, 1) (1, 1, 1) (1, 1, 1) (1, 1, 1)
      ((setPointCloud (initialReconstructor (2 ^ 28)) [] None 0 1)\<lparr>triangleCountBuffer := 1\<rparr>)) = 2 \<and>
   vertexBuffer (writeTriangle (1, 0, 0) (0, 1, 0) (0, 0, 1) (0, 0, 1) (1, 1, 1) (1, 1, 1) (1, 1, 1)
      (setPointCloud (initialReconstructor (2 ^ 28)) [] None 0 1)) =
     [\<lparr>v_position = (1, 0, 0), v_normal = (0, 0, 1), v_color = (1, 1, 1)\<rparr>,
      \<lparr>v_position = (0, 1, 0), v_normal = (0, 0, 1), v_color = (1, 1, 1)\<rparr>,
      \<lparr>v_position = (0, 0, 1), v_normal = (0, 0, 1), v_color = (1, 1, 1)\<rparr>] \<and>
   r_triangleCount (fst (readBack
      ((setPointCloud (initialReconstructor (2 ^ 28)) [] None 0 1)\<lparr>triangleCountBuffer := 2\<rparr>))) = 1"
proof -
  define mr0 where "mr0 = initialReconstructor (2 ^ 28)"
  define st where "st = setPointCloud mr0 [] None 0 1"
  have i: "initialized mr0" by (simp add: mr0_def initialReconstructor_def)
  have cap: "maxTriangleCount st = 1"
    using triangle_overflow_dropped[where mr=mr0 and ps="[]" and cols=None and count=0 and n=1] i
    by (simp add: st_def) (simp add: mr0_def initialReconstructor_def)
  have vb: "vertexBuffer st = replicate 3 zeroVertex"
    by (simp add: st_def mr0_def setPointCloud_def Let_def actualBufferSize_def initialReconstructor_def boundingBox_def)
  have c0: "triangleCountBuffer st = 0"
    by (simp add: st_def mr0_def setPointCloud_def Let_def initialReconstructor_def boundingBox_def)
  obtain r sf' where rb: "readBack (st\<lparr>triangleCountBuffer := 2\<rparr>) = (r, sf')"
    by (cases "readBack (st\<lparr>triangleCountBuffer := 2\<rparr>)")
  define st1 where "st1 = st\<lparr>triangleCountBuffer := 1\<rparr>"
  have pre1: "unat (triangleCountBuffer st1) < 1431655765 \<and> length (vertexBuffer st1) < 2 ^ 32"
    by (simp add: st1_def vb)
  have no_room: "\<not> unat (triangleCountBuffer st1) < length (vertexBuffer st1) div 3"
    by (simp add: st1_def vb)
  note w1 = triangle_overflow_dropped[where st=st1
        and ?v0.0="(1, 0, 0)" and ?v1.0="(0, 1, 0)" and ?v2.0="(0, 0, 1)" and nrm="(0, 0, 1)"
        and ?c0.0="(1, 1, 1)" and ?c1.0="(1, 1, 1)" and ?c2.0="(1, 1, 1)",
        THEN conjunct2, THEN conjunct1, THEN mp, OF pre1]
  note w1c = w1[THEN conjunct1]
  note w1v = w1[THEN conjunct2, THEN conjunct2, THEN mp, OF no_room]
  have "vertexBuffer st1 = replicate 3 zeroVertex" "triangleCountBuffer st1 + 1 = 2"
    by (simp_all add: st1_def vb)
  with w1c w1v have full: "vertexBuffer (writeTriangle (1, 0, 0) (0, 1, 0) (0, 0, 1) (0, 0, 1) (1, 1, 1) (1, 1, 1) (1, 1, 1)
      (st\<lparr>triangleCountBuffer := 1\<rparr>)) = replicate 3 zeroVertex \<and>
     triangleCountBuffer (writeTriangle (1, 0, 0) (0, 1, 0) (0, 0, 1) (0, 0, 1) (1, 1, 1) (1, 1, 1) (1, 1, 1)
      (st\<lparr>triangleCountBuffer := 1\<rparr>)) = 2"
    unfolding st1_def by (simp only:) 
  have pre0: "unat (triangleCountBuffer st) < 1431655765 \<and> length (vertexBuffer st) < 2 ^ 32"
    by (simp add: vb c0)
  have has_room: "unat (triangleCountBuffer st) < length (vertexBuffer st) div 3"
    by (simp add: vb c0)
  note w0 = triangle_overflow_dropped[where st=st
        and ?v0.0="(1, 0, 0)" and ?v1.0="(0, 1, 0)" and ?v2.0="(0, 0, 1)" and nrm="(0, 0, 1)"
        and ?c0.0="(1, 1, 1)" and ?c1.0="(1, 1, 1)" and ?c2.0="(1, 1, 1)",
        THEN conjunct2, THEN conjunct1, THEN mp, OF pre0]
  note w0v = w0[THEN conjunct2, THEN conjunct1, THEN mp, OF has_room, THEN conjunct2]
  have "(replicate 3 zeroVertex)
             [3 * unat (0 :: 32 word) := \<lparr>v_position = (1, 0, 0), v_normal = (0, 0, 1), v_color = (1, 1, 1)\<rparr>,
              3 * unat (0 :: 32 word) + 1 := \<lparr>v_position = (0, 1, 0), v_normal = (0, 0, 1), v_color = (1, 1, 1)\<rparr>,
              3 * unat (0 :: 32 word) + 2 := \<lparr>v_position = (0, 0, 1), v_normal = (0, 0, 1), v_color = (1, 1, 1)\<rparr>] =
     [\<lparr>v_position = (1, 0, 0), v_normal = (0, 0, 1), v_color = (1, 1, 1)\<rparr>,
      \<lparr>v_position = (0, 1, 0), v_normal = (0, 0, 1), v_color = (1, 1, 1)\<rparr>,
      \<lparr>v_position = (0, 0, 1), v_normal = (0, 0, 1), v_color = (1, 1, 1)\<rparr>]"
    by (simp add: numeral_3_eq_3)
  with w0v have room: "vertexBuffer (writeTriangle (1, 0, 0) (0, 1, 0) (0, 0, 1) (0, 0, 1) (1, 1, 1) (1, 1, 1) (1, 1, 1) st) =
     [\<lparr>v_position = (1, 0, 0), v_normal = (0, 0, 1), v_color = (1, 1, 1)\<rparr>,
      \<lparr>v_position = (0, 1, 0), v_normal = (0, 0, 1), v_color = (1, 1, 1)\<rparr>,
      \<lparr>v_position = (0, 0, 1), v_normal = (0, 0, 1), v_color = (1, 1, 1)\<rparr>]"
    unfolding vb c0 by (simp only:)
  define st2 where "st2 = st\<lparr>triangleCountBuffer := 2\<rparr>"
  have pre2: "readBack st2 = (r, sf') \<and> maxTriangleCount st2 \<noteq> 0"
    using rb cap by (simp add: st2_def)
  note w2 = triangle_overflow_dropped[where sf=st2 and r=r and sf'=sf',
        THEN conjunct2, THEN conjunct2, THEN mp, OF pre2]
  have "min (unat (triangleCountBuffer st2)) (maxTriangleCount st2) = 1"
    using cap by (simp add: st2_def)
  with w2 have "r_triangleCount r = 1" by (simp only:)
  with pre2 have clamp: "r_triangleCount (fst (readBack (st\<lparr>triangleCountBuffer := 2\<rparr>))) = 1"
    by (simp add: st2_def)
  from i cap vb full room clamp show ?thesis
    unfolding st_def mr0_def by simp
qed

subsection \<open>The splat of the compute-shader engine\<close>

lemma voxelOf_eq:
  "mr_gridSize st = (gx, gy, gz) \<Longrightarrow> voxelOf st (ix, iy, iz) = nat ix + nat iy * gx + nat iz * gx * gy"
  by (simp add: voxelOf_def voxelIndex_def)

lemma voxelOf_less:
  assumes g: "mr_gridSize st = (gx, gy, gz)" and c: "inGrid (gx, gy, gz) c"
  shows "voxelOf st c < gx * gy * gz"
proof -
  obtain ix iy iz where e: "c = (ix, iy, iz)" by (cases c) auto
  from c e have "0 \<le> ix" "ix < int gx" "0 \<le> iy" "iy < int gy" "0 \<le> iz" "iz < int gz"
    by (simp_all add: inGrid_def)
  then have "nat ix < gx" "nat iy < gy" "nat iz < gz" by simp_all
  from voxel_index_bound[OF this] show ?thesis by (simp add: e voxelOf_eq[OF g])
qed

lemma voxel_index_inj:
  fixes x y z :: nat
  assumes "x < gx" "y < gy" "x' < gx" "y' < gy"
    and e: "x + y * gx + z * gx * gy = x' + y' * gx + z' * gx * gy"
  shows "x = x' \<and> y = y' \<and> z = z'"
proof -
  have a: "x + y * gx + z * gx * gy = x + (y + z * gy) * gx" by (simp add: algebra_simps)
  have a': "x' + y' * gx + z' * gx * gy = x' + (y' + z' * gy) * gx" by (simp add: algebra_simps)
  from e a a' have e1: "x + (y + z * gy) * gx = x' + (y' + z' * gy) * gx" by simp
  have "(x + (y + z * gy) * gx) mod gx = x" using assms(1) by simp
  moreover have "(x' + (y' + z' * gy) * gx) mod gx = x'" using assms(3) by simp
  ultimately have x: "x = x'" using e1 by simp
  have "(x + (y + z * gy) * gx) div gx = y + z * gy" using assms(1) by simp
  moreover have "(x' + (y' + z' * gy) * gx) div gx = y' + z' * gy" using assms(3) by simp
  ultimately have e2: "y + z * gy = y' + z' * gy" using e1 by simp
  have "(y + z * gy) mod gy = y" using assms(2) by simp
  moreover have "(y' + z' * gy) mod gy = y'" using assms(4) by simp
  ultimately have y: "y = y'" using e2 by simp
  have "(y + z * gy) div gy = z" using assms(2) by simp
  moreover have "(y' + z' * gy) div gy = z'" using assms(4) by simp
  ultimately have "z = z'" using e2 by simp
  with x y show ?thesis by simp
qed

lemma voxelOf_inj:
  assumes g: "mr_gridSize st = (gx, gy, gz)"
    and c: "inGrid (gx, gy, gz) c" and c': "inGrid (gx, gy, gz) c'"
    and e: "voxelOf st c = voxelOf st c'"
  shows "c = c'"
proof -
  obtain ix iy iz where 1: "c = (ix, iy, iz)" by (cases c) auto
  obtain jx jy jz where 2: "c' = (jx, jy, jz)" by (cases c') auto
  from c 1 have a: "0 \<le> ix" "0 \<le> iy" "0 \<le> iz" "ix < int gx" "iy < int gy" by (simp_all add: inGrid_def)
  then have b: "0 \<le> ix" "0 \<le> iy" "0 \<le> iz" "nat ix < gx" "nat iy < gy" by simp_all
  from c' 2 have a': "0 \<le> jx" "0 \<le> jy" "0 \<le> jz" "jx < int gx" "jy < int gy" by (simp_all add: inGrid_def)
  then have b': "0 \<le> jx" "0 \<le> jy" "0 \<le> jz" "nat jx < gx" "nat jy < gy" by simp_all
  from e have "nat ix + nat iy * gx + nat iz * gx * gy = nat jx + nat jy * gx + nat jz * gx * gy"
    by (simp add: 1 2 voxelOf_eq[OF g])
  from voxel_index_inj[OF b(4,5) b'(4,5) this]
  have "nat ix = nat jx" "nat iy = nat jy" "nat iz = nat jz" by simp_all
  with a(1-3) a'(1-3) have "ix = jx" "iy = jy" "iz = jz" by linarith+
  then show ?thesis by (simp add: 1 2)
qed

lemma voxelOf_cong: "mr_gridSize s = mr_gridSize st \<Longrightarrow> voxelOf s = voxelOf st"
  by (intro ext) (simp add: voxelOf_def voxelIndex_def)

lemma quantizedWeight_spec:
  "quantizedWeight st pos c =
     u32_of_real (specWeight (p_splatRadius (params st)) (worldDistance st pos c) * 1000)"
proof -
  have "- 0.5 * (d / (r * 0.5)) * (d / (r * 0.5)) = - d\<^sup>2 / (2 * (r * 0.5)\<^sup>2)" for d r :: real
    by (simp add: power2_eq_square field_simps)
  then show ?thesis
    by (simp add: quantizedWeight_def specWeight_def Let_def u32_of_real_def)
qed

lemma splat_cell_alt:
  assumes g: "mr_gridSize st = (gx, gy, gz)"
  shows "splat_cell pos color c st =
     (if inGrid (gx, gy, gz) c \<and> quantizedWeight st pos c \<noteq> 0 then
        st\<lparr>voxelBuffer := (voxelBuffer st)[voxelOf st c := voxelBuffer st ! voxelOf st c + quantizedWeight st pos c],
           voxelColorsRBuffer := (voxelColorsRBuffer st)[voxelOf st c :=
              voxelColorsRBuffer st ! voxelOf st c + u32_of_real (vx color * real (unat (quantizedWeight st pos c)))],
           voxelColorsGBuffer := (voxelColorsGBuffer st)[voxelOf st c :=
              voxelColorsGBuffer st ! voxelOf st c + u32_of_real (vy color * real (unat (quantizedWeight st pos c)))],
           voxelColorsBBuffer := (voxelColorsBBuffer st)[voxelOf st c :=
              voxelColorsBBuffer st ! voxelOf st c + u32_of_real (vz color * real (unat (quantizedWeight st pos c)))]\<rparr>
      else st)"
proof -
  obtain ix iy iz where c: "c = (ix, iy, iz)" by (cases c) auto
  show ?thesis
    unfolding c
    by (simp add: splat_cell_def quantizedWeight_def worldDistance_def cellCenter_def voxelOf_def
        inGrid_def g Let_def not_less not_le)
qed

lemma u32_of_real_0 [simp]: "u32_of_real 0 = 0"
  by (simp add: u32_of_real_def)

lemma splat_cell_effect:
  assumes g: "mr_gridSize st = (gx, gy, gz)"
    and c': "inGrid (gx, gy, gz) c'"
    and len: "length (voxelBuffer st) = gx * gy * gz" "length (voxelColorsRBuffer st) = gx * gy * gz"
      "length (voxelColorsGBuffer st) = gx * gy * gz" "length (voxelColorsBBuffer st) = gx * gy * gz"
  shows "length (voxelBuffer (splat_cell pos color c st)) = gx * gy * gz"
    and "length (voxelColorsRBuffer (splat_cell pos color c st)) = gx * gy * gz"
    and "length (voxelColorsGBuffer (splat_cell pos color c st)) = gx * gy * gz"
    and "length (voxelColorsBBuffer (splat_cell pos color c st)) = gx * gy * gz"
    and "voxelBuffer (splat_cell pos color c st) ! voxelOf st c' =
           voxelBuffer st ! voxelOf st c' + (if c = c' then quantizedWeight st pos c' else 0)"
    and "voxelColorsRBuffer (splat_cell pos color c st) ! voxelOf st c' =
           voxelColorsRBuffer st ! voxelOf st c' +
           (if c = c' then u32_of_real (vx color * real (unat (quantizedWeight st pos c'))) else 0)"
    and "voxelColorsGBuffer (splat_cell pos color c st) ! voxelOf st c' =
           voxelColorsGBuffer st ! voxelOf st c' +
           (if c = c' then u32_of_real (vy color * real (unat (quantizedWeight st pos c'))) else 0)"
    and "voxelColorsBBuffer (splat_cell pos color c st) ! voxelOf st c' =
           voxelColorsBBuffer st ! voxelOf st c' +
           (if c = c' then u32_of_real (vz color * real (unat (quantizedWeight st pos c'))) else 0)"
proof -
  have k: "voxelOf st c' < gx * gy * gz" by (rule voxelOf_less[OF g c'])
  have ne: "voxelOf st c \<noteq> voxelOf st c'" if "inGrid (gx, gy, gz) c" "c \<noteq> c'"
    using voxelOf_inj[OF g that(1) c'] that(2) by auto
  show "length (voxelBuffer (splat_cell pos color c st)) = gx * gy * gz"
    and "length (voxelColorsRBuffer (splat_cell pos color c st)) = gx * gy * gz"
    and "length (voxelColorsGBuffer (splat_cell pos color c st)) = gx * gy * gz"
    and "length (voxelColorsBBuffer (splat_cell pos color c st)) = gx * gy * gz"
    using len by (simp_all add: splat_cell_alt[OF g])
  show "voxelBuffer (splat_cell pos color c st) ! voxelOf st c' =
           voxelBuffer st ! voxelOf st c' + (if c = c' then quantizedWeight st pos c' else 0)"
    using k len(1) c' ne by (cases "c = c'") (simp_all add: splat_cell_alt[OF g] nth_update_any)
  show "voxelColorsRBuffer (splat_cell pos color c st) ! voxelOf st c' =
           voxelColorsRBuffer st ! voxelOf st c' +
           (if c = c' then u32_of_real (vx color * real (unat (quantizedWeight st pos c'))) else 0)"
    using k len(2) c' ne by (cases "c = c'") (simp_all add: splat_cell_alt[OF g] nth_update_any)
  show "voxelColorsGBuffer (splat_cell pos color c st) ! voxelOf st c' =
           voxelColorsGBuffer st ! voxelOf st c' +
           (if c = c' then u32_of_real (vy color * real (unat (quantizedWeight st pos c'))) else 0)"
    using k len(3) c' ne by (cases "c = c'") (simp_all add: splat_cell_alt[OF g] nth_update_any)
  show "voxelColorsBBuffer (splat_cell pos color c st) ! voxelOf st c' =
           voxelColorsBBuffer st ! voxelOf st c' +
           (if c = c' then u32_of_real (vz color * real (unat (quantizedWeight st pos c'))) else 0)"
    using k len(4) c' ne by (cases "c = c'") (simp_all add: splat_cell_alt[OF g] nth_update_any)
qed

lemma splatFrame_refl: "buffersAllocated st \<Longrightarrow> splatFrame st st"
  by (simp add: splatFrame_def buffersAllocated_def)

lemma splatFrame_cong:
  assumes "splatFrame st0 s"
  shows "splat_cellSize s = splat_cellSize st0" "splat_gridPos s = splat_gridPos st0"
    "splat_radiusCells s = splat_radiusCells st0" "voxelOf s = voxelOf st0"
    "quantizedWeight s = quantizedWeight st0" "splatVisits s = splatVisits st0"
    "pointWeight s = pointWeight st0" "pointColor ch s = pointColor ch st0"
    "totalVoxels s = totalVoxels st0"
proof -
  from assms have e: "mr_gridSize s = mr_gridSize st0" "params s = params st0"
    "pointsBuffer s = pointsBuffer st0" "colorsBuffer s = colorsBuffer st0"
    by (simp_all add: splatFrame_def)
  show 1: "splat_cellSize s = splat_cellSize st0"
    by (simp add: splat_cellSize_def gridSizeF_def e)
  show 2: "splat_gridPos s = splat_gridPos st0"
    by (intro ext) (simp add: splat_gridPos_def gridSizeF_def e)
  show 3: "splat_radiusCells s = splat_radiusCells st0"
    by (simp add: splat_radiusCells_def 1 e)
  show 4: "voxelOf s = voxelOf st0" by (rule voxelOf_cong[OF e(1)])
  have "cellCenter s = cellCenter st0" by (intro ext) (simp add: cellCenter_def 1 e)
  then have "worldDistance s = worldDistance st0" by (intro ext) (simp add: worldDistance_def)
  then show 5: "quantizedWeight s = quantizedWeight st0"
    by (intro ext) (simp add: quantizedWeight_def e)
  show 6: "splatVisits s = splatVisits st0" by (intro ext) (simp add: splatVisits_def 2 3)
  show 7: "pointWeight s = pointWeight st0" by (intro ext) (simp add: pointWeight_def Let_def 5 6 e)
  show "pointColor ch s = pointColor ch st0" by (intro ext) (simp add: pointColor_def 7 e)
  show "totalVoxels s = totalVoxels st0" by (simp add: totalVoxels_def e)
qed

lemma splat_cell_frame:
  assumes "splatFrame st0 s"
  shows "splatFrame st0 (splat_cell pos color c s)"
proof -
  obtain gx gy gz where g: "mr_gridSize s = (gx, gy, gz)" by (cases "mr_gridSize s") auto
  from assms show ?thesis
    by (simp add: splatFrame_def splat_cell_alt[OF g])
qed

lemma splat_loops_effect:
  fixes q :: "MeshReconstructor \<Rightarrow> 'a::comm_monoid_add"
  assumes fr: "splatFrame st0 s"
    and step: "\<And>c s. splatFrame st0 s \<Longrightarrow>
                 q (splat_cell pos color c s) = q s + (if c = (jx, jy, jz) then val else 0)"
  shows "splatFrame st0 (fold (\<lambda>dz. fold (\<lambda>dy. fold (\<lambda>dx. splat_cell pos color (cx + dx, cy + dy, cz + dz))
                                     [- k..k]) [- k..k]) [- k..k] s) \<and>
         q (fold (\<lambda>dz. fold (\<lambda>dy. fold (\<lambda>dx. splat_cell pos color (cx + dx, cy + dy, cz + dz))
                                     [- k..k]) [- k..k]) [- k..k] s) =
           q s + (if withinCube k (cx, cy, cz) (jx, jy, jz) then val else 0)"
proof -
  let ?F = "\<lambda>dz dy dx. splat_cell pos color (cx + dx, cy + dy, cz + dz)"
  have st: "splatFrame st0 (?F u v w s') \<and>
            q (?F u v w s') = q s' + (if u = jz - cz \<and> v = jy - cy \<and> w = jx - cx then val else 0)"
    if "splatFrame st0 s'" for u v w s'
  proof -
    have "(cx + w, cy + v, cz + u) = (jx, jy, jz) \<longleftrightarrow> u = jz - cz \<and> v = jy - cy \<and> w = jx - cx"
      by auto
    with step[OF that, of "(cx + w, cy + v, cz + u)"] splat_cell_frame[OF that]
    show ?thesis by simp
  qed
  have w: "withinCube k (cx, cy, cz) (jx, jy, jz) \<longleftrightarrow>
           - k \<le> jz - cz \<and> jz - cz \<le> k \<and> - k \<le> jy - cy \<and> jy - cy \<le> k \<and> - k \<le> jx - cx \<and> jx - cx \<le> k"
    by (auto simp: withinCube_def)
  from triple_loop_accumulate[where I="splatFrame st0" and q=q and F="?F"
      and tu="jz - cz" and tv="jy - cy" and tw="jx - cx" and val=val and a="- k" and b=k and s=s,
      OF st fr]
  show ?thesis unfolding w by simp
qed

lemma splatPoints_main_frame:
  assumes "splatFrame st0 s"
  shows "splatFrame st0 (splatPoints_main i s)"
proof (cases "i \<ge> numPoints s")
  case True
  with assms show ?thesis by (simp add: splatPoints_main_def)
next
  case False
  obtain cx cy cz where cc: "containingCell (splat_gridPos s (the (pointsBuffer s) ! i)) = (cx, cy, cz)"
    by (cases "containingCell (splat_gridPos s (the (pointsBuffer s) ! i))") auto
  have "splatFrame st0 (fold (\<lambda>dz. fold (\<lambda>dy. fold (\<lambda>dx. splat_cell (the (pointsBuffer s) ! i) (colorsBuffer s ! i)
          (cx + dx, cy + dy, cz + dz)) [- splat_radiusCells s..splat_radiusCells s])
          [- splat_radiusCells s..splat_radiusCells s]) [- splat_radiusCells s..splat_radiusCells s] s)"
    by (intro fold_invariant[where P="splatFrame st0"] splat_cell_frame assms)
  with False show ?thesis by (simp add: splatPoints_main_def Let_def cc)
qed

lemma splatPoints_main_effect:
  assumes fr: "splatFrame st0 s"
    and g: "mr_gridSize st0 = (gx, gy, gz)"
    and c': "inGrid (gx, gy, gz) c'"
  shows "voxelBuffer (splatPoints_main i s) ! voxelOf st0 c' =
           voxelBuffer s ! voxelOf st0 c' + (if i < numPoints st0 then pointWeight st0 i c' else 0)"
    and "voxelColorsRBuffer (splatPoints_main i s) ! voxelOf st0 c' =
           voxelColorsRBuffer s ! voxelOf st0 c' + (if i < numPoints st0 then pointColor vx st0 i c' else 0)"
    and "voxelColorsGBuffer (splatPoints_main i s) ! voxelOf st0 c' =
           voxelColorsGBuffer s ! voxelOf st0 c' + (if i < numPoints st0 then pointColor vy st0 i c' else 0)"
    and "voxelColorsBBuffer (splatPoints_main i s) ! voxelOf st0 c' =
           voxelColorsBBuffer s ! voxelOf st0 c' + (if i < numPoints st0 then pointColor vz st0 i c' else 0)"
proof -
  obtain jx jy jz where j: "c' = (jx, jy, jz)" by (cases c') auto
  define pos where "pos = the (pointsBuffer st0) ! i"
  define color where "color = colorsBuffer st0 ! i"
  define k where "k = splat_radiusCells st0"
  obtain cx cy cz where cc: "containingCell (splat_gridPos st0 pos) = (cx, cy, cz)"
    by (cases "containingCell (splat_gridPos st0 pos)") auto
  from fr have e: "numPoints s = numPoints st0" "pointsBuffer s = pointsBuffer st0"
    "colorsBuffer s = colorsBuffer st0"
    by (simp_all add: splatFrame_def)
  note cg = splatFrame_cong[OF fr]
  let ?L = "fold (\<lambda>dz. fold (\<lambda>dy. fold (\<lambda>dx. splat_cell pos color (cx + dx, cy + dy, cz + dz))
                                     [- k..k]) [- k..k]) [- k..k]"
  have main: "splatPoints_main i s = (if i < numPoints st0 then ?L s else s)"
    by (simp add: splatPoints_main_def Let_def e cg pos_def[symmetric] color_def[symmetric]
        k_def[symmetric] cc not_le)
  have vis: "splatVisits st0 pos c' = withinCube k (cx, cy, cz) (jx, jy, jz)"
    by (simp add: splatVisits_def k_def cc j)
  have frame: "mr_gridSize s' = (gx, gy, gz)" "length (voxelBuffer s') = gx * gy * gz"
    "length (voxelColorsRBuffer s') = gx * gy * gz" "length (voxelColorsGBuffer s') = gx * gy * gz"
    "length (voxelColorsBBuffer s') = gx * gy * gz" if "splatFrame st0 s'" for s'
    using that g by (simp_all add: splatFrame_def totalVoxels_def)
  have pw: "pointWeight st0 i c' = (if withinCube k (cx, cy, cz) (jx, jy, jz) then quantizedWeight st0 pos c' else 0)"
    by (simp add: pointWeight_def Let_def pos_def[symmetric] vis)
  have pc: "pointColor ch st0 i c' =
     (if withinCube k (cx, cy, cz) (jx, jy, jz) then u32_of_real (ch color * real (unat (quantizedWeight st0 pos c'))) else 0)"
    for ch
    by (simp add: pointColor_def pw color_def[symmetric])
  have L0: "voxelBuffer (?L s) ! voxelOf st0 c' =
          voxelBuffer s ! voxelOf st0 c' + (if withinCube k (cx, cy, cz) (jx, jy, jz) then quantizedWeight st0 pos c' else 0)"
  proof (rule splat_loops_effect[where q="\<lambda>s. voxelBuffer s ! voxelOf st0 c'", OF fr, THEN conjunct2])
    fix c s' assume f: "splatFrame st0 s'"
    from splat_cell_effect(5)[OF frame(1)[OF f] c' frame(2-5)[OF f], of pos color c]
    show "voxelBuffer (splat_cell pos color c s') ! voxelOf st0 c' =
          voxelBuffer s' ! voxelOf st0 c' + (if c = (jx, jy, jz) then quantizedWeight st0 pos c' else 0)"
      by (simp add: splatFrame_cong[OF f] j)
  qed
  have L1: "voxelColorsRBuffer (?L s) ! voxelOf st0 c' =
          voxelColorsRBuffer s ! voxelOf st0 c' +
          (if withinCube k (cx, cy, cz) (jx, jy, jz) then u32_of_real (vx color * real (unat (quantizedWeight st0 pos c'))) else 0)"
  proof (rule splat_loops_effect[where q="\<lambda>s. voxelColorsRBuffer s ! voxelOf st0 c'", OF fr, THEN conjunct2])
    fix c s' assume f: "splatFrame st0 s'"
    from splat_cell_effect(6)[OF frame(1)[OF f] c' frame(2-5)[OF f], of pos color c]
    show "voxelColorsRBuffer (splat_cell pos color c s') ! voxelOf st0 c' =
          voxelColorsRBuffer s' ! voxelOf st0 c' +
          (if c = (jx, jy, jz) then u32_of_real (vx color * real (unat (quantizedWeight st0 pos c'))) else 0)"
      by (simp add: splatFrame_cong[OF f] j)
  qed
  have L2: "voxelColorsGBuffer (?L s) ! voxelOf st0 c' =
          voxelColorsGBuffer s ! voxelOf st0 c' +
          (if withinCube k (cx, cy, cz) (jx, jy, jz) then u32_of_real (vy color * real (unat (quantizedWeight st0 pos c'))) else 0)"
  proof (rule splat_loops_effect[where q="\<lambda>s. voxelColorsGBuffer s ! voxelOf st0 c'", OF fr, THEN conjunct2])
    fix c s' assume f: "splatFrame st0 s'"
    from splat_cell_effect(7)[OF frame(1)[OF f] c' frame(2-5)[OF f], of pos color c]
    show "voxelColorsGBuffer (splat_cell pos color c s') ! voxelOf st0 c' =
          voxelColorsGBuffer s' ! voxelOf st0 c' +
          (if c = (jx, jy, jz) then u32_of_real (vy color * real (unat (quantizedWeight st0 pos c'))) else 0)"
      by (simp add: splatFrame_cong[OF f] j)
  qed
  have L3: "voxelColorsBBuffer (?L s) ! voxelOf st0 c' =
          voxelColorsBBuffer s ! voxelOf st0 c' +
          (if withinCube k (cx, cy, cz) (jx, jy, jz) then u32_of_real (vz color * real (unat (quantizedWeight st0 pos c'))) else 0)"
  proof (rule splat_loops_effect[where q="\<lambda>s. voxelColorsBBuffer s ! voxelOf st0 c'", OF fr, THEN conjunct2])
    fix c s' assume f: "splatFrame st0 s'"
    from splat_cell_effect(8)[OF frame(1)[OF f] c' frame(2-5)[OF f], of pos color c]
    show "voxelColorsBBuffer (splat_cell pos color c s') ! voxelOf st0 c' =
          voxelColorsBBuffer s' ! voxelOf st0 c' +
          (if c = (jx, jy, jz) then u32_of_real (vz color * real (unat (quantizedWeight st0 pos c'))) else 0)"
      by (simp add: splatFrame_cong[OF f] j)
  qed
  show "voxelBuffer (splatPoints_main i s) ! voxelOf st0 c' =
           voxelBuffer s ! voxelOf st0 c' + (if i < numPoints st0 then pointWeight st0 i c' else 0)"
    unfolding main pw using L0 by simp
  show "voxelColorsRBuffer (splatPoints_main i s) ! voxelOf st0 c' =
           voxelColorsRBuffer s ! voxelOf st0 c' + (if i < numPoints st0 then pointColor vx st0 i c' else 0)"
    unfolding main pc using L1 by simp
  show "voxelColorsGBuffer (splatPoints_main i s) ! voxelOf st0 c' =
           voxelColorsGBuffer s ! voxelOf st0 c' + (if i < numPoints st0 then pointColor vy st0 i c' else 0)"
    unfolding main pc using L2 by simp
  show "voxelColorsBBuffer (splatPoints_main i s) ! voxelOf st0 c' =
           voxelColorsBBuffer s ! voxelOf st0 c' + (if i < numPoints st0 then pointColor vz st0 i c' else 0)"
    unfolding main pc using L3 by simp
qed

lemma sum_list_below:
  fixes h :: "nat \<Rightarrow> 'a::comm_monoid_add"
  assumes "m \<le> n"
  shows "(\<Sum>i\<leftarrow>[0..<n]. if i < m then h i else 0) = (\<Sum>i\<leftarrow>[0..<m]. h i)"
proof -
  from assms have "[0..<n] = [0..<m] @ [m..<n]"
    by (metis le_add_diff_inverse upt_add_eq_append zero_le)
  moreover have "(\<Sum>i\<leftarrow>[0..<m]. if i < m then h i else 0) = (\<Sum>i\<leftarrow>[0..<m]. h i)"
    by (rule arg_cong[where f=sum_list], rule map_cong) auto
  moreover have "(\<Sum>i\<leftarrow>[m..<n]. if i < m then h i else 0) = (\<Sum>i\<leftarrow>[m..<n]. 0)"
    by (rule arg_cong[where f=sum_list], rule map_cong) auto
  ultimately show ?thesis by (simp add: sum_list_zero)
qed

lemma splat_pass_effect:
  assumes fr: "splatFrame st0 s"
    and g: "mr_gridSize st0 = (gx, gy, gz)"
    and c': "inGrid (gx, gy, gz) c'"
    and n: "numPoints st0 \<le> n"
  shows "voxelBuffer (fold splatPoints_main [0..<n] s) ! voxelOf st0 c' =
           voxelBuffer s ! voxelOf st0 c' + (\<Sum>i\<leftarrow>[0..<numPoints st0]. pointWeight st0 i c')"
    and "voxelColorsRBuffer (fold splatPoints_main [0..<n] s) ! voxelOf st0 c' =
           voxelColorsRBuffer s ! voxelOf st0 c' + (\<Sum>i\<leftarrow>[0..<numPoints st0]. pointColor vx st0 i c')"
    and "voxelColorsGBuffer (fold splatPoints_main [0..<n] s) ! voxelOf st0 c' =
           voxelColorsGBuffer s ! voxelOf st0 c' + (\<Sum>i\<leftarrow>[0..<numPoints st0]. pointColor vy st0 i c')"
    and "voxelColorsBBuffer (fold splatPoints_main [0..<n] s) ! voxelOf st0 c' =
           voxelColorsBBuffer s ! voxelOf st0 c' + (\<Sum>i\<leftarrow>[0..<numPoints st0]. pointColor vz st0 i c')"
proof -
  note eff = splatPoints_main_effect[OF _ g c']
  have "voxelBuffer (fold splatPoints_main [0..<n] s) ! voxelOf st0 c' =
           voxelBuffer s ! voxelOf st0 c' + (\<Sum>i\<leftarrow>[0..<n]. if i < numPoints st0 then pointWeight st0 i c' else 0)"
    by (rule fold_accumulate[where I="splatFrame st0" and q="\<lambda>s. voxelBuffer s ! voxelOf st0 c'", OF _ fr, THEN conjunct2])
       (simp add: splatPoints_main_frame eff(1))
  then show "voxelBuffer (fold splatPoints_main [0..<n] s) ! voxelOf st0 c' =
           voxelBuffer s ! voxelOf st0 c' + (\<Sum>i\<leftarrow>[0..<numPoints st0]. pointWeight st0 i c')"
    by (simp only: sum_list_below[OF n])
  have "voxelColorsRBuffer (fold splatPoints_main [0..<n] s) ! voxelOf st0 c' =
           voxelColorsRBuffer s ! voxelOf st0 c' + (\<Sum>i\<leftarrow>[0..<n]. if i < numPoints st0 then pointColor vx st0 i c' else 0)"
    by (rule fold_accumulate[where I="splatFrame st0" and q="\<lambda>s. voxelColorsRBuffer s ! voxelOf st0 c'", OF _ fr, THEN conjunct2])
       (simp add: splatPoints_main_frame eff(2))
  then show "voxelColorsRBuffer (fold splatPoints_main [0..<n] s) ! voxelOf st0 c' =
           voxelColorsRBuffer s ! voxelOf st0 c' + (\<Sum>i\<leftarrow>[0..<numPoints st0]. pointColor vx st0 i c')"
    by (simp only: sum_list_below[OF n])
  have "voxelColorsGBuffer (fold splatPoints_main [0..<n] s) ! voxelOf st0 c' =
           voxelColorsGBuffer s ! voxelOf st0 c' + (\<Sum>i\<leftarrow>[0..<n]. if i < numPoints st0 then pointColor vy st0 i c' else 0)"
    by (rule fold_accumulate[where I="splatFrame st0" and q="\<lambda>s. voxelColorsGBuffer s ! voxelOf st0 c'", OF _ fr, THEN conjunct2])
       (simp add: splatPoints_main_frame eff(3))
  then show "voxelColorsGBuffer (fold splatPoints_main [0..<n] s) ! voxelOf st0 c' =
           voxelColorsGBuffer s ! voxelOf st0 c' + (\<Sum>i\<leftarrow>[0..<numPoints st0]. pointColor vy st0 i c')"
    by (simp only: sum_list_below[OF n])
  have "voxelColorsBBuffer (fold splatPoints_main [0..<n] s) ! voxelOf st0 c' =
           voxelColorsBBuffer s ! voxelOf st0 c' + (\<Sum>i\<leftarrow>[0..<n]. if i < numPoints st0 then pointColor vz st0 i c' else 0)"
    by (rule fold_accumulate[where I="splatFrame st0" and q="\<lambda>s. voxelColorsBBuffer s ! voxelOf st0 c'", OF _ fr, THEN conjunct2])
       (simp add: splatPoints_main_frame eff(4))
  then show "voxelColorsBBuffer (fold splatPoints_main [0..<n] s) ! voxelOf st0 c' =
           voxelColorsBBuffer s ! voxelOf st0 c' + (\<Sum>i\<leftarrow>[0..<numPoints st0]. pointColor vz st0 i c')"
    by (simp only: sum_list_below[OF n])
qed

lemma clearVoxel_step:
  "voxelBuffer (clearVoxel_main n s) = (if n \<ge> totalVoxels s then voxelBuffer s else (voxelBuffer s)[n := 0])"
  "voxelColorsRBuffer (clearVoxel_main n s) =
     (if n \<ge> totalVoxels s then voxelColorsRBuffer s else (voxelColorsRBuffer s)[n := 0])"
  "voxelColorsGBuffer (clearVoxel_main n s) =
     (if n \<ge> totalVoxels s then voxelColorsGBuffer s else (voxelColorsGBuffer s)[n := 0])"
  "voxelColorsBBuffer (clearVoxel_main n s) =
     (if n \<ge> totalVoxels s then voxelColorsBBuffer s else (voxelColorsBBuffer s)[n := 0])"
  by (simp_all add: clearVoxel_main_def)

lemma clear_pass_buffer:
  fixes buf :: "MeshReconstructor \<Rightarrow> 32 word list"
  assumes step: "\<And>n s. buf (clearVoxel_main n s) = (if n \<ge> totalVoxels s then buf s else (buf s)[n := 0])"
    and len: "length (buf st) = totalVoxels st"
  shows "length (buf (fold clearVoxel_main [0..<n] st)) = totalVoxels st \<and>
         (\<forall>i < totalVoxels st. buf (fold clearVoxel_main [0..<n] st) ! i = (if i < n then 0 else buf st ! i))"
proof (induction n)
  case 0
  with len show ?case by simp
next
  case (Suc n)
  let ?s = "fold clearVoxel_main [0..<n] st"
  have "mr_gridSize ?s = mr_gridSize st" by (rule fold_keeps) simp
  then have t: "totalVoxels ?s = totalVoxels st" by (rule totalVoxels_cong)
  have f: "fold clearVoxel_main [0..<Suc n] st = clearVoxel_main n ?s" by simp
  show ?case
  proof (cases "n \<ge> totalVoxels st")
    case True
    with Suc t show ?thesis unfolding f by (simp add: step)
  next
    case False
    with Suc t show ?thesis unfolding f by (auto simp: step nth_update_any)
  qed
qed

lemma clear_pass:
  assumes "buffersAllocated st"
  shows "splatFrame st (dispatch1 (ceilDiv (totalVoxels st) 64) clearVoxel_main st)"
    and "i < totalVoxels st \<Longrightarrow> voxelBuffer (dispatch1 (ceilDiv (totalVoxels st) 64) clearVoxel_main st) ! i = 0"
    and "i < totalVoxels st \<Longrightarrow> voxelColorsRBuffer (dispatch1 (ceilDiv (totalVoxels st) 64) clearVoxel_main st) ! i = 0"
    and "i < totalVoxels st \<Longrightarrow> voxelColorsGBuffer (dispatch1 (ceilDiv (totalVoxels st) 64) clearVoxel_main st) ! i = 0"
    and "i < totalVoxels st \<Longrightarrow> voxelColorsBBuffer (dispatch1 (ceilDiv (totalVoxels st) 64) clearVoxel_main st) ! i = 0"
proof -
  let ?n = "64 * ceilDiv (totalVoxels st) 64"
  from assms have len: "length (voxelBuffer st) = totalVoxels st" "length (voxelColorsRBuffer st) = totalVoxels st"
    "length (voxelColorsGBuffer st) = totalVoxels st" "length (voxelColorsBBuffer st) = totalVoxels st"
    by (simp_all add: buffersAllocated_def)
  note a = clear_pass_buffer[where buf=voxelBuffer, OF clearVoxel_step(1) len(1), of ?n]
  note b = clear_pass_buffer[where buf=voxelColorsRBuffer, OF clearVoxel_step(2) len(2), of ?n]
  note c = clear_pass_buffer[where buf=voxelColorsGBuffer, OF clearVoxel_step(3) len(3), of ?n]
  note d = clear_pass_buffer[where buf=voxelColorsBBuffer, OF clearVoxel_step(4) len(4), of ?n]
  show "splatFrame st (dispatch1 (ceilDiv (totalVoxels st) 64) clearVoxel_main st)"
    using a b c d by (simp add: splatFrame_def dispatch1_keeps) (simp add: dispatch1_def)
  assume "i < totalVoxels st"
  moreover from this have "i < ?n" using ceilDiv_ge[of "totalVoxels st"] by linarith
  ultimately show "voxelBuffer (dispatch1 (ceilDiv (totalVoxels st) 64) clearVoxel_main st) ! i = 0"
    "voxelColorsRBuffer (dispatch1 (ceilDiv (totalVoxels st) 64) clearVoxel_main st) ! i = 0"
    "voxelColorsGBuffer (dispatch1 (ceilDiv (totalVoxels st) 64) clearVoxel_main st) ! i = 0"
    "voxelColorsBBuffer (dispatch1 (ceilDiv (totalVoxels st) 64) clearVoxel_main st) ! i = 0"
    using a b c d by (simp_all add: dispatch1_def)
qed

lemma normalize_color_step:
  "normalizedColorsBuffer (normalizeDensity_main n s) =
     (if n \<ge> totalVoxels s then normalizedColorsBuffer s
      else (normalizedColorsBuffer s)[n := normalizedColor (voxelBuffer s ! n)
              (voxelColorsRBuffer s ! n) (voxelColorsGBuffer s ! n) (voxelColorsBBuffer s ! n)])"
  by (simp add: normalizeDensity_main_def)

lemma normalize_color_pass:
  assumes "length (normalizedColorsBuffer st) = totalVoxels st"
  shows "length (normalizedColorsBuffer (fold normalizeDensity_main [0..<n] st)) = totalVoxels st \<and>
         (\<forall>i < totalVoxels st.
            normalizedColorsBuffer (fold normalizeDensity_main [0..<n] st) ! i =
              (if i < n then normalizedColor (voxelBuffer st ! i) (voxelColorsRBuffer st ! i)
                               (voxelColorsGBuffer st ! i) (voxelColorsBBuffer st ! i)
               else normalizedColorsBuffer st ! i))"
proof (induction n)
  case 0
  with assms show ?case by simp
next
  case (Suc n)
  let ?s = "fold normalizeDensity_main [0..<n] st"
  have v: "voxelBuffer ?s = voxelBuffer st" "voxelColorsRBuffer ?s = voxelColorsRBuffer st"
    "voxelColorsGBuffer ?s = voxelColorsGBuffer st" "voxelColorsBBuffer ?s = voxelColorsBBuffer st"
    by (rule fold_keeps, simp)+
  have "mr_gridSize ?s = mr_gridSize st" by (rule fold_keeps) simp
  then have t: "totalVoxels ?s = totalVoxels st" by (rule totalVoxels_cong)
  have f: "fold normalizeDensity_main [0..<Suc n] st = normalizeDensity_main n ?s" by simp
  show ?case
  proof (cases "n \<ge> totalVoxels st")
    case True
    with Suc t show ?thesis unfolding f by (simp add: normalize_color_step)
  next
    case False
    with Suc t v show ?thesis unfolding f by (auto simp: normalize_color_step nth_update_any)
  qed
qed

lemma splatFrame_counter [simp]: "splatFrame (st\<lparr>triangleCountBuffer := v\<rparr>) s = splatFrame st s"
  by (simp add: splatFrame_def totalVoxels_def)

lemma stateAfter_1_frame:
  assumes "buffersAllocated st"
  shows "splatFrame st (stateAfter et tt (Suc 0) st)"
    and "i < totalVoxels st \<Longrightarrow> voxelBuffer (stateAfter et tt (Suc 0) st) ! i = 0"
    and "i < totalVoxels st \<Longrightarrow> voxelColorsRBuffer (stateAfter et tt (Suc 0) st) ! i = 0"
    and "i < totalVoxels st \<Longrightarrow> voxelColorsGBuffer (stateAfter et tt (Suc 0) st) ! i = 0"
    and "i < totalVoxels st \<Longrightarrow> voxelColorsBBuffer (stateAfter et tt (Suc 0) st) ! i = 0"
proof -
  let ?s0 = "st\<lparr>triangleCountBuffer := 0\<rparr>"
  have t: "totalVoxels ?s0 = totalVoxels st" by (simp add: totalVoxels_def)
  from assms have a: "buffersAllocated ?s0" by (simp add: buffersAllocated_def t)
  from clear_pass(1)[OF a] show "splatFrame st (stateAfter et tt (Suc 0) st)"
    by (simp add: stateAfter_1 t)
  assume "i < totalVoxels st"
  then have "i < totalVoxels ?s0" by (simp add: t)
  from clear_pass(2-5)[OF a this]
  show "voxelBuffer (stateAfter et tt (Suc 0) st) ! i = 0"
    "voxelColorsRBuffer (stateAfter et tt (Suc 0) st) ! i = 0"
    "voxelColorsGBuffer (stateAfter et tt (Suc 0) st) ! i = 0"
    "voxelColorsBBuffer (stateAfter et tt (Suc 0) st) ! i = 0"
    by (simp_all add: stateAfter_1 t)
qed

lemma stateAfter_2_voxels:
  assumes alloc: "buffersAllocated st"
    and g: "mr_gridSize st = (gx, gy, gz)"
    and c': "inGrid (gx, gy, gz) c'"
  shows "voxelBuffer (stateAfter et tt 2 st) ! voxelOf st c' = (\<Sum>i\<leftarrow>[0..<numPoints st]. pointWeight st i c')"
    and "voxelColorsRBuffer (stateAfter et tt 2 st) ! voxelOf st c' = (\<Sum>i\<leftarrow>[0..<numPoints st]. pointColor vx st i c')"
    and "voxelColorsGBuffer (stateAfter et tt 2 st) ! voxelOf st c' = (\<Sum>i\<leftarrow>[0..<numPoints st]. pointColor vy st i c')"
    and "voxelColorsBBuffer (stateAfter et tt 2 st) ! voxelOf st c' = (\<Sum>i\<leftarrow>[0..<numPoints st]. pointColor vz st i c')"
proof -
  have k: "voxelOf st c' < totalVoxels st"
    using voxelOf_less[OF g c'] by (simp add: totalVoxels_def g)
  note z = stateAfter_1_frame(2-5)[OF alloc k, of et tt]
  note fr = stateAfter_1_frame(1)[OF alloc, of et tt]
  have n: "numPoints st \<le> 64 * ceilDiv (numPoints st) 64" by (rule ceilDiv_ge)
  note e = splat_pass_effect[OF fr g c' n]
  show "voxelBuffer (stateAfter et tt 2 st) ! voxelOf st c' = (\<Sum>i\<leftarrow>[0..<numPoints st]. pointWeight st i c')"
    using e(1) z(1) by (simp add: stateAfter_2 dispatch1_def)
  show "voxelColorsRBuffer (stateAfter et tt 2 st) ! voxelOf st c' = (\<Sum>i\<leftarrow>[0..<numPoints st]. pointColor vx st i c')"
    using e(2) z(2) by (simp add: stateAfter_2 dispatch1_def)
  show "voxelColorsGBuffer (stateAfter et tt 2 st) ! voxelOf st c' = (\<Sum>i\<leftarrow>[0..<numPoints st]. pointColor vy st i c')"
    using e(3) z(3) by (simp add: stateAfter_2 dispatch1_def)
  show "voxelColorsBBuffer (stateAfter et tt 2 st) ! voxelOf st c' = (\<Sum>i\<leftarrow>[0..<numPoints st]. pointColor vz st i c')"
    using e(4) z(4) by (simp add: stateAfter_2 dispatch1_def)
qed

lemma stateAfter_4_colors:
  "voxelColorsRBuffer (stateAfter et tt 4 this) = voxelColorsRBuffer (stateAfter et tt 2 this)"
  "voxelColorsGBuffer (stateAfter et tt 4 this) = voxelColorsGBuffer (stateAfter et tt 2 this)"
  "voxelColorsBBuffer (stateAfter et tt 4 this) = voxelColorsBBuffer (stateAfter et tt 2 this)"
  "normalizedColorsBuffer (stateAfter et tt 4 this) = normalizedColorsBuffer (stateAfter et tt 3 this)"
  by (simp_all add: stateAfter_4 stateAfter_3 dispatch1_keeps dispatch3_keeps marchingCubes_main_keeps)

lemma final_voxels:
  assumes alloc: "buffersAllocated st"
    and rec: "reconstruct_gpu et tt st = (Some r, st')"
    and g: "mr_gridSize st = (gx, gy, gz)"
    and c': "inGrid (gx, gy, gz) c'"
  shows "voxelBuffer st' ! voxelOf st c' = (\<Sum>i\<leftarrow>[0..<numPoints st]. pointWeight st i c')"
    and "voxelColorsRBuffer st' ! voxelOf st c' = (\<Sum>i\<leftarrow>[0..<numPoints st]. pointColor vx st i c')"
    and "voxelColorsGBuffer st' ! voxelOf st c' = (\<Sum>i\<leftarrow>[0..<numPoints st]. pointColor vy st i c')"
    and "voxelColorsBBuffer st' ! voxelOf st c' = (\<Sum>i\<leftarrow>[0..<numPoints st]. pointColor vz st i c')"
proof -
  from reconstruct_gpu_stateAfter[OF rec] have s: "st' = snd (readBack (stateAfter et tt 4 st))"
    by simp
  show "voxelBuffer st' ! voxelOf st c' = (\<Sum>i\<leftarrow>[0..<numPoints st]. pointWeight st i c')"
    and "voxelColorsRBuffer st' ! voxelOf st c' = (\<Sum>i\<leftarrow>[0..<numPoints st]. pointColor vx st i c')"
    and "voxelColorsGBuffer st' ! voxelOf st c' = (\<Sum>i\<leftarrow>[0..<numPoints st]. pointColor vy st i c')"
    and "voxelColorsBBuffer st' ! voxelOf st c' = (\<Sum>i\<leftarrow>[0..<numPoints st]. pointColor vz st i c')"
    unfolding s
    by (simp_all add: readBack_keeps stateAfter_4_buffers stateAfter_4_colors stateAfter_2_voxels[OF alloc g c'])
qed

lemma final_colors:
  assumes alloc: "buffersAllocated st"
    and rec: "reconstruct_gpu et tt st = (Some r, st')"
    and i: "i < totalVoxels st"
  shows "normalizedColorsBuffer st' ! i =
           normalizedColor (voxelBuffer st' ! i) (voxelColorsRBuffer st' ! i)
             (voxelColorsGBuffer st' ! i) (voxelColorsBBuffer st' ! i)"
proof -
  let ?s2 = "stateAfter et tt 2 st"
  have t2: "totalVoxels ?s2 = totalVoxels st"
    by (rule totalVoxels_cong) (simp add: stateAfter_gridSize)
  have "normalizedColorsBuffer ?s2 = normalizedColorsBuffer st"
    by (simp add: stateAfter_2 stateAfter_1 dispatch1_keeps)
  with alloc have l2: "length (normalizedColorsBuffer ?s2) = totalVoxels ?s2"
    by (simp add: buffersAllocated_def t2)
  have "i < 64 * ceilDiv (totalVoxels st) 64"
    using i ceilDiv_ge[of "totalVoxels st"] by linarith
  with normalize_color_pass[OF l2, of "64 * ceilDiv (totalVoxels st) 64"] i t2
  have "normalizedColorsBuffer (stateAfter et tt 3 st) ! i =
          normalizedColor (voxelBuffer ?s2 ! i) (voxelColorsRBuffer ?s2 ! i)
             (voxelColorsGBuffer ?s2 ! i) (voxelColorsBBuffer ?s2 ! i)"
    by (simp add: stateAfter_3 dispatch1_def)
  moreover from reconstruct_gpu_stateAfter[OF rec] have "st' = snd (readBack (stateAfter et tt 4 st))"
    by simp
  ultimately show ?thesis
    by (simp add: readBack_keeps stateAfter_4_buffers stateAfter_4_colors)
qed

subsection \<open>The Gaussian kernel in both engines\<close>

lemma buildDensityField_density:
  assumes g: "gridSize this = (gx, gy, gz)" and c: "inGrid (gx, gy, gz) c"
  shows "density (buildDensityField this ps cols count) ! cellIndex (gx, gy, gz) c =
           (\<Sum>i\<leftarrow>[0..<count]. specWeight (splatRadius this) (gridDistance (gridPosition this ps i) c))"
proof -
  from splatAll_sound[of this ps cols count]
  have "s_weights (splatAll this ps cols count) = s_density (splatAll this ps cols count)"
    by (simp add: splatSound_def)
  with buildDensityField_raw[of this ps cols count] splatAll_density[OF g c, of ps cols count]
  show ?thesis by simp
qed

lemma single_point_setup:
  defines "st \<equiv> setPointCloud (initialReconstructor (2 ^ 28)) [0, 0, 0] None 1 3"
  shows "buffersAllocated st" "mr_gridSize st = (3, 3, 3)" "numPoints st = 1"
    "pointsBuffer st = Some [(0, 0, 0)]" "p_splatRadius (params st) = 3/2"
    "splat_cellSize st = (2, 2, 2)" "fin3 (p_gridMin (params st)) = (- 3, - 3, - 3)"
    "splat_gridPos st (0, 0, 0) = (3/2, 3/2, 3/2)" "splat_radiusCells st = 1"
    "initialized st"
proof -
  have i: "initialized (initialReconstructor (2 ^ 28))" by (simp add: initialReconstructor_def)
  show "buffersAllocated st" unfolding st_def by (rule setPointCloud_allocated(1)[OF i])
  show g: "mr_gridSize st = (3, 3, 3)" unfolding st_def by (rule setPointCloud_fields(3)[OF i])
  show "numPoints st = 1" unfolding st_def by (rule setPointCloud_fields(6)[OF i])
  show "initialized st" unfolding st_def by (rule setPointCloud_fields(4)[OF i])
  show "pointsBuffer st = Some [(0, 0, 0)]"
    unfolding st_def by (simp add: setPointCloud_def initialReconstructor_def Let_def case_prod_beta)
  have p: "params st = \<lparr>p_isoValue = 1/2, p_splatRadius = 3/2, p_gridMin = (Fin (- 3), Fin (- 3), Fin (- 3)),
                         p_gridMax = (Fin 3, Fin 3, Fin 3)\<rparr>"
    unfolding st_def
    by (simp add: setPointCloud_def initialReconstructor_def Let_def boundingBox_def)
  show "p_splatRadius (params st) = 3/2" by (simp add: p)
  show cs: "splat_cellSize st = (2, 2, 2)"
    by (simp add: splat_cellSize_def p g gridSizeF_def fin3_def vsub_def vdiv_def vx_def vy_def vz_def)
  show "fin3 (p_gridMin (params st)) = (- 3, - 3, - 3)" by (simp add: p fin3_def)
  show "splat_gridPos st (0, 0, 0) = (3/2, 3/2, 3/2)"
    by (simp add: splat_gridPos_def p g gridSizeF_def fin3_def vsub_def vdiv_def vmul_def vx_def vy_def vz_def)
  show "splat_radiusCells st = 1"
    by (simp add: splat_radiusCells_def cs p vx_def vy_def vz_def)
qed

text \<open>
  The compute-shader engine measures the distance in world coordinates. One point at the
  origin, the default splat radius 1.5 and a grid of \<open>3 * 3 * 3\<close> cells give cells of side 2.
  The centre of cell \<open>(2, 1, 1)\<close> (index 14) is one cell away from the point: its grid-space
  distance is 1, within the splat radius, and the Gaussian weight of that distance is
  positive. In world coordinates the centre is 2 away, beyond the radius, and the cell
  receives nothing.
\<close>

theorem gpu_splat_counterexample:
  "voxelOf (setPointCloud (initialReconstructor (2 ^ 28)) [0, 0, 0] None 1 3) (2, 1, 1) = 14 \<and>
   p_splatRadius (params (setPointCloud (initialReconstructor (2 ^ 28)) [0, 0, 0] None 1 3)) = 3/2 \<and>
   gridDistance (splat_gridPos (setPointCloud (initialReconstructor (2 ^ 28)) [0, 0, 0] None 1 3) (0, 0, 0))
     (2, 1, 1) = 1 \<and>
   0 < specWeight (3/2) 1 \<and>
   fst (reconstruct_gpu EDGE_TABLE TRI_TABLE (setPointCloud (initialReconstructor (2 ^ 28)) [0, 0, 0] None 1 3))
     \<noteq> None \<and>
   voxelBuffer (snd (reconstruct_gpu EDGE_TABLE TRI_TABLE
       (setPointCloud (initialReconstructor (2 ^ 28)) [0, 0, 0] None 1 3))) ! 14 = 0"
proof -
  define st where "st = setPointCloud (initialReconstructor (2 ^ 28)) [0, 0, 0] None 1 3"
  note s = single_point_setup[folded st_def]
  have k: "voxelOf st (2, 1, 1) = 14" by (simp add: voxelOf_eq[OF s(2)])
  have d: "gridDistance (splat_gridPos st (0, 0, 0)) (2, 1, 1) = 1"
    by (simp add: s(8) gridDistance_def vx_def vy_def vz_def)
  have w: "0 < specWeight (3/2) 1" by (simp add: specWeight_def)
  from reconstruct_gpu_some[OF s(10), of EDGE_TABLE TRI_TABLE] s(4)
  obtain r st' where rec: "reconstruct_gpu EDGE_TABLE TRI_TABLE st = (Some r, st')" by auto
  have c: "inGrid (3, 3, 3) (2, 1, 1)" by (simp add: inGrid_def)
  have wd: "worldDistance st (0, 0, 0) (2, 1, 1) = 2"
    by (simp add: worldDistance_def cellCenter_def s(6,7) vlength_def vsub_def vadd_def vmul_def vx_def vy_def vz_def)
  have "quantizedWeight st (0, 0, 0) (2, 1, 1) = 0"
    by (simp add: quantizedWeight_def wd s(5))
  then have "pointWeight st 0 (2, 1, 1) = 0" by (simp add: pointWeight_def Let_def s(4))
  with final_voxels(1)[OF s(1) rec s(2) c] have "voxelBuffer st' ! 14 = 0"
    by (simp add: s(3) k)
  with k s(5) d w rec show ?thesis unfolding st_def[symmetric] by simp
qed

text \<open>
  Claim C4, amended. In the sequential engine every point adds to every cell of the grid the
  Gaussian weight \<open>exp(-dist\<^sup>2 / (2 \<sigma>\<^sup>2))\<close>, \<open>\<sigma> = splatRadius * 0.5\<close>, of the grid-space distance
  between the point and the cell centre, and nothing when that distance exceeds
  \<open>splatRadius\<close>; the cells outside the cube of \<open>ceil(splatRadius)\<close> cells around the
  point's cell, which the loops do not visit, are among those that receive nothing. In the
  compute-shader engine the distance is the world-space distance between the point and the
  centre of the cell, the loops visit the cube of \<open>ceil(splatRadius / min cellSize)\<close> cells
  around the point's cell, and a visited cell receives the truncation \<open>u32(1000 * w)\<close> of
  the same Gaussian weight of that distance, added to a \<open>u32\<close> accumulator.
\<close>

theorem gaussian_splat:
  "(gridSize this = (gx, gy, gz) \<and> inGrid (gx, gy, gz) c \<longrightarrow>
      density (buildDensityField this ps cols count) ! cellIndex (gx, gy, gz) c =
        (\<Sum>i\<leftarrow>[0..<count]. specWeight (splatRadius this) (gridDistance (gridPosition this ps i) c)) \<and>
      (\<forall>i. \<not> withinCube \<lceil>splatRadius this\<rceil> (containingCell (gridPosition this ps i)) c \<longrightarrow>
            specWeight (splatRadius this) (gridDistance (gridPosition this ps i) c) = 0)) \<and>
   (buffersAllocated st \<and> reconstruct_gpu et tt st = (Some r, st') \<and>
    mr_gridSize st = (nx, ny, nz) \<and> inGrid (nx, ny, nz) c2 \<longrightarrow>
      voxelBuffer st' ! voxelOf st c2 = (\<Sum>i\<leftarrow>[0..<numPoints st]. pointWeight st i c2) \<and>
      (\<forall>i. pointWeight st i c2 =
            (if withinCube (splat_radiusCells st) (containingCell (splat_gridPos st (the (pointsBuffer st) ! i))) c2
             then u32_of_real (specWeight (p_splatRadius (params st))
                                 (worldDistance st (the (pointsBuffer st) ! i) c2) * 1000)
             else 0)))"
proof (intro conjI impI allI)
  assume h: "gridSize this = (gx, gy, gz) \<and> inGrid (gx, gy, gz) c"
  then show "density (buildDensityField this ps cols count) ! cellIndex (gx, gy, gz) c =
        (\<Sum>i\<leftarrow>[0..<count]. specWeight (splatRadius this) (gridDistance (gridPosition this ps i) c))"
    using buildDensityField_density[of this gx gy gz c ps cols count] by simp
next
  fix i
  assume "\<not> withinCube \<lceil>splatRadius this\<rceil> (containingCell (gridPosition this ps i)) c"
  then show "specWeight (splatRadius this) (gridDistance (gridPosition this ps i) c) = 0"
    by (rule far_cell_weight)
next
  assume h: "buffersAllocated st \<and> reconstruct_gpu et tt st = (Some r, st') \<and>
    mr_gridSize st = (nx, ny, nz) \<and> inGrid (nx, ny, nz) c2"
  then have "buffersAllocated st" "reconstruct_gpu et tt st = (Some r, st')"
    "mr_gridSize st = (nx, ny, nz)" "inGrid (nx, ny, nz) c2" by simp_all
  then show "voxelBuffer st' ! voxelOf st c2 = (\<Sum>i\<leftarrow>[0..<numPoints st]. pointWeight st i c2)"
    by (rule final_voxels(1))
next
  fix i
  show "pointWeight st i c2 =
            (if withinCube (splat_radiusCells st) (containingCell (splat_gridPos st (the (pointsBuffer st) ! i))) c2
             then u32_of_real (specWeight (p_splatRadius (params st))
                                 (worldDistance st (the (pointsBuffer st) ! i) c2) * 1000)
             else 0)"
    by (simp add: pointWeight_def Let_def splatVisits_def quantizedWeight_spec)
qed

theorem gaussian_splat_witness:
  "inGrid (3, 3, 3) (1, 1, 1) \<and>
   density (buildDensityField
      \<lparr>gridSize = (3, 3, 3), isoValue = 1/2, splatRadius = 1,
       gridMin = (Fin (- 2), Fin (- 2), Fin (- 2)), gridMax = (Fin 2, Fin 2, Fin 2)\<rparr> [0, 0, 0] None 1)
     ! cellIndex (3, 3, 3) (1, 1, 1) = 1 \<and>
   buffersAllocated (setPointCloud (initialReconstructor (2 ^ 28)) [0, 0, 0] None 1 3) \<and>
   mr_gridSize (setPointCloud (initialReconstructor (2 ^ 28)) [0, 0, 0] None 1 3) = (3, 3, 3) \<and>
   fst (reconstruct_gpu EDGE_TABLE TRI_TABLE (setPointCloud (initialReconstructor (2 ^ 28)) [0, 0, 0] None 1 3))
     \<noteq> None \<and>
   voxelBuffer (snd (reconstruct_gpu EDGE_TABLE TRI_TABLE
       (setPointCloud (initialReconstructor (2 ^ 28)) [0, 0, 0] None 1 3)))
     ! voxelOf (setPointCloud (initialReconstructor (2 ^ 28)) [0, 0, 0] None 1 3) (1, 1, 1) = 1000"
proof -
  define st where "st = setPointCloud (initialReconstructor (2 ^ 28)) [0, 0, 0] None 1 3"
  define cpu where "cpu = \<lparr>gridSize = (3, 3, 3), isoValue = 1/2, splatRadius = 1,
       gridMin = (Fin (- 2), Fin (- 2), Fin (- 2)), gridMax = (Fin 2, Fin 2, Fin 2)\<rparr>"
  note s = single_point_setup[folded st_def]
  from reconstruct_gpu_some[OF s(10), of EDGE_TABLE TRI_TABLE] s(4)
  obtain r st' where rec: "reconstruct_gpu EDGE_TABLE TRI_TABLE st = (Some r, st')" by auto
  have c: "inGrid (3, 3, 3) (1, 1, 1)" by (simp add: inGrid_def)
  have g: "gridSize cpu = (3, 3, 3)" by (simp add: cpu_def)
  have p: "gridPosition cpu [0, 0, 0] 0 = (3/2, 3/2, 3/2)"
    by (simp add: gridPosition_def fin3_def cpu_def)
  have d: "gridDistance (3/2, 3/2, 3/2) (1, 1, 1) = 0"
    by (simp add: gridDistance_def vx_def vy_def vz_def)
  have w: "specWeight (splatRadius cpu) (gridDistance (gridPosition cpu [0, 0, 0] 0) (1, 1, 1)) = 1"
    unfolding p d by (simp add: specWeight_def cpu_def)
  have wd: "worldDistance st (0, 0, 0) (1, 1, 1) = 0"
    by (simp add: worldDistance_def cellCenter_def s(6,7) vlength_def vsub_def vadd_def vmul_def vx_def vy_def vz_def)
  have vis: "withinCube (splat_radiusCells st) (containingCell (splat_gridPos st (0, 0, 0))) (1, 1, 1)"
    by (simp add: s(8,9) withinCube_def containingCell_def vx_def vy_def vz_def)
  have q: "u32_of_real (specWeight (p_splatRadius (params st)) (worldDistance st (0, 0, 0) (1, 1, 1)) * 1000) = 1000"
    by (simp add: wd s(5) specWeight_def u32_of_real_def)
  note t = gaussian_splat[where this=cpu and gx=3 and gy=3 and gz=3 and c="(1, 1, 1)" and ps="[0, 0, 0]"
      and cols=None and count=1 and st=st and et=EDGE_TABLE and tt=TRI_TABLE and r=r and st'=st'
      and nx=3 and ny=3 and nz=3 and ?c2.0="(1, 1, 1)"]
  from t[THEN conjunct1] g c w
  have a: "density (buildDensityField cpu [0, 0, 0] None 1) ! cellIndex (3, 3, 3) (1, 1, 1) = 1"
    by simp
  from t[THEN conjunct2] s(1,2) rec c
  have "voxelBuffer st' ! voxelOf st (1, 1, 1) = (\<Sum>i\<leftarrow>[0..<numPoints st]. pointWeight st i (1, 1, 1))"
    and "pointWeight st 0 (1, 1, 1) =
            (if withinCube (splat_radiusCells st) (containingCell (splat_gridPos st (the (pointsBuffer st) ! 0))) (1, 1, 1)
             then u32_of_real (specWeight (p_splatRadius (params st))
                                 (worldDistance st (the (pointsBuffer st) ! 0) (1, 1, 1)) * 1000)
             else 0)"
    by simp_all
  then have b: "voxelBuffer st' ! voxelOf st (1, 1, 1) = 1000"
    by (simp add: s(3,4) vis q)
  from a b c s(1,2) rec show ?thesis
    unfolding st_def[symmetric] cpu_def[symmetric] by simp
qed

subsection \<open>The range of the final density\<close>

lemma boundingBox_origin:
  assumes "3 * Suc count \<le> n"
  shows "boundingBox (replicate n 0) (Suc count) = ((Fin 0, Fin 0, Fin 0), (Fin 0, Fin 0, Fin 0))"
  using assms
proof (induction count)
  case 0
  then show ?case by (simp add: boundingBox_def)
next
  case (Suc c)
  then have ih: "boundingBox (replicate n 0) (Suc c) = ((Fin 0, Fin 0, Fin 0), (Fin 0, Fin 0, Fin 0))"
    by simp
  from Suc.prems have i: "Suc c * 3 < n" "Suc c * 3 + 1 < n" "Suc c * 3 + 2 < n" by simp_all
  have "boundingBox (replicate n 0) (Suc (Suc c)) =
          (\<lambda>i ((minX, minY, minZ), (maxX, maxY, maxZ)).
             let x = replicate n 0 ! (i * 3);
                 y = replicate n 0 ! (i * 3 + 1);
                 z = replicate n 0 ! (i * 3 + 2)
             in ((xmin minX x, xmin minY y, xmin minZ z), (xmax maxX x, xmax maxY y, xmax maxZ z)))
            (Suc c) (boundingBox (replicate n 0) (Suc c))"
    by (simp add: boundingBox_def)
  also have "\<dots> = ((Fin 0, Fin 0, Fin 0), (Fin 0, Fin 0, Fin 0))"
    unfolding ih using i by (simp add: Let_def)
  finally show ?case .
qed

lemma cluster_setup:
  fixes m :: nat
  defines "st \<equiv> setPointCloud (initialReconstructor (2 ^ 28)) (replicate (3 * Suc m) 0) None (Suc m) 3"
  shows "buffersAllocated st" "mr_gridSize st = (3, 3, 3)" "numPoints st = Suc m"
    "initialized st" "pointsBuffer st \<noteq> None"
    "i < Suc m \<Longrightarrow> pointWeight st i (1, 1, 1) = 1000"
proof -
  have i0: "initialized (initialReconstructor (2 ^ 28))" by (simp add: initialReconstructor_def)
  show "buffersAllocated st" unfolding st_def by (rule setPointCloud_allocated(1)[OF i0])
  show g: "mr_gridSize st = (3, 3, 3)" unfolding st_def by (rule setPointCloud_fields(3)[OF i0])
  show "numPoints st = Suc m" unfolding st_def by (rule setPointCloud_fields(6)[OF i0])
  show "initialized st" unfolding st_def by (rule setPointCloud_fields(4)[OF i0])
  show "pointsBuffer st \<noteq> None" unfolding st_def by (rule setPointCloud_fields(5)[OF i0])
  have bb: "boundingBox (replicate (3 * Suc m) 0) (Suc m) = ((Fin 0, Fin 0, Fin 0), (Fin 0, Fin 0, Fin 0))"
    by (rule boundingBox_origin) simp
  have p: "params st = \<lparr>p_isoValue = 1/2, p_splatRadius = 3/2, p_gridMin = (Fin (- 3), Fin (- 3), Fin (- 3)),
                         p_gridMax = (Fin 3, Fin 3, Fin 3)\<rparr>"
    unfolding st_def setPointCloud_def bb
    by (simp add: initialReconstructor_def Let_def)
  have cs: "splat_cellSize st = (2, 2, 2)"
    by (simp add: splat_cellSize_def p g gridSizeF_def fin3_def vsub_def vdiv_def vx_def vy_def vz_def)
  have gp: "splat_gridPos st (0, 0, 0) = (3/2, 3/2, 3/2)"
    by (simp add: splat_gridPos_def p g gridSizeF_def fin3_def vsub_def vdiv_def vmul_def vx_def vy_def vz_def)
  have rc: "splat_radiusCells st = 1"
    by (simp add: splat_radiusCells_def cs p vx_def vy_def vz_def)
  have wd: "worldDistance st (0, 0, 0) (1, 1, 1) = 0"
    by (simp add: worldDistance_def cellCenter_def cs p fin3_def vlength_def vsub_def vadd_def vmul_def
        vx_def vy_def vz_def)
  have q: "quantizedWeight st (0, 0, 0) (1, 1, 1) = 1000"
    by (simp add: quantizedWeight_def wd p u32_of_real_def)
  have vis: "splatVisits st (0, 0, 0) (1, 1, 1)"
    by (simp add: splatVisits_def gp rc withinCube_def containingCell_def vx_def vy_def vz_def)
  assume i: "i < Suc m"
  have "pointsBuffer st = Some (map (\<lambda>i. (replicate (3 * Suc m) 0 ! (i * 3), replicate (3 * Suc m) 0 ! (i * 3 + 1),
                                            replicate (3 * Suc m) 0 ! (i * 3 + 2))) [0..<Suc m])"
    unfolding st_def setPointCloud_def by (simp add: initialReconstructor_def Let_def case_prod_beta)
  moreover have "i * 3 < 3 * Suc m" "i * 3 + 1 < 3 * Suc m" "i * 3 + 2 < 3 * Suc m" using i by simp_all
  ultimately have "the (pointsBuffer st) ! i = (0, 0, 0)" using i by (simp del: replicate_Suc upt_Suc)
  then show "pointWeight st i (1, 1, 1) = 1000"
    by (simp add: pointWeight_def Let_def vis q)
qed

lemma cluster_density:
  assumes "reconstruct_gpu et tt (setPointCloud (initialReconstructor (2 ^ 28)) (replicate (3 * Suc m) 0) None (Suc m) 3) =
             (Some r, st')"
  shows "voxelBuffer st' ! 13 = of_nat (Suc m) * 1000"
    and "densityBuffer st' ! 13 = normalizedDensity (of_nat (Suc m) * 1000)"
proof -
  define st where "st = setPointCloud (initialReconstructor (2 ^ 28)) (replicate (3 * Suc m) 0) None (Suc m) 3"
  note s = cluster_setup[where m=m, folded st_def]
  from assms have rec: "reconstruct_gpu et tt st = (Some r, st')" by (simp only: st_def)
  have c: "inGrid (3, 3, 3) (1, 1, 1)" by (simp add: inGrid_def)
  have k: "voxelOf st (1, 1, 1) = 13" by (simp add: voxelOf_eq[OF s(2)])
  have "map (\<lambda>i. pointWeight st i (1, 1, 1)) [0..<Suc m] = map (\<lambda>i. 1000) [0..<Suc m]"
    by (rule map_cong[OF refl], rule s(6)) (simp del: upt_Suc)
  then have "(\<Sum>i\<leftarrow>[0..<Suc m]. pointWeight st i (1, 1, 1)) = (\<Sum>i\<leftarrow>[0..<Suc m]. (1000 :: 32 word))"
    by (rule arg_cong[where f=sum_list])
  also have "\<dots> = of_nat (Suc m) * 1000" by (simp only: sum_list_triv length_upt diff_zero)
  finally have "(\<Sum>i\<leftarrow>[0..<Suc m]. pointWeight st i (1, 1, 1)) = of_nat (Suc m) * 1000" .
  with final_voxels(1)[OF s(1) rec s(2) c] show v: "voxelBuffer st' ! 13 = of_nat (Suc m) * 1000"
    by (simp only: s(3) k)
  from s(1) have len: "length (densityBuffer st) = totalVoxels st" by (simp add: buffersAllocated_def)
  have "13 < totalVoxels st" by (simp add: totalVoxels_def s(2))
  from final_density[OF len rec this] v
  show "densityBuffer st' ! 13 = normalizedDensity (of_nat (Suc m) * 1000)"
    by (simp only:)
qed

text \<open>
  The sequential engine has no normalisation of the density: \<open>buildDensityField\<close> returns
  the accumulated weights themselves. One point in the middle of a grid of \<open>3 * 3 * 3\<close>
  cells with splat radius 1 sits on the centre of cell \<open>(1, 1, 1)\<close> (index 13), at distance 0,
  and gives that cell the density \<open>exp 0 = 1\<close>: not below 1, and not \<open>1 - exp (-0.5)\<close>.
  In the compute-shader engine the curve is evaluated in \<open>f32\<close>, where it reaches 1: forty
  points at the origin (default splat radius, grid of \<open>3 * 3 * 3\<close> cells) give the middle
  cell the raw weight 40000, \<open>exp(-20)\<close> is below half the spacing of the \<open>f32\<close> numbers under 1,
  and the density stored for that cell is exactly 1.
\<close>

theorem density_range_counterexample:
  "snd (reconstruct (initialCPU\<lparr>gridSize := (3, 3, 3), splatRadius := 1\<rparr>) [0, 0, 0] None 1) =
     \<lparr>gridSize = (3, 3, 3), isoValue = 1/2, splatRadius = 1,
      gridMin = (Fin (- 2), Fin (- 2), Fin (- 2)), gridMax = (Fin 2, Fin 2, Fin 2)\<rparr> \<and>
   density (buildDensityField
      \<lparr>gridSize = (3, 3, 3), isoValue = 1/2, splatRadius = 1,
       gridMin = (Fin (- 2), Fin (- 2), Fin (- 2)), gridMax = (Fin 2, Fin 2, Fin 2)\<rparr> [0, 0, 0] None 1) ! 13 = 1 \<and>
   \<not> (1::real) < 1 \<and> (1::real) \<noteq> 1 - exp (- 1 * 0.5) \<and>
   fst (reconstruct_gpu EDGE_TABLE TRI_TABLE
          (setPointCloud (initialReconstructor (2 ^ 28)) (replicate 120 0) None 40 3)) \<noteq> None \<and>
   voxelBuffer (snd (reconstruct_gpu EDGE_TABLE TRI_TABLE
          (setPointCloud (initialReconstructor (2 ^ 28)) (replicate 120 0) None 40 3))) ! 13 = 40000 \<and>
   densityBuffer (snd (reconstruct_gpu EDGE_TABLE TRI_TABLE
          (setPointCloud (initialReconstructor (2 ^ 28)) (replicate 120 0) None 40 3))) ! 13 = 1"
proof -
  let ?c = "\<lparr>gridSize = (3, 3, 3), isoValue = 1/2, splatRadius = 1,
      gridMin = (Fin (- 2), Fin (- 2), Fin (- 2)), gridMax = (Fin 2, Fin 2, Fin 2)\<rparr>"
  have a: "snd (reconstruct (initialCPU\<lparr>gridSize := (3, 3, 3), splatRadius := 1\<rparr>) [0, 0, 0] None 1) = ?c"
    by (simp add: reconstruct_def boundingBox_def initialCPU_def Let_def)
  have g: "gridSize ?c = (3, 3, 3)" by simp
  have i: "inGrid (3, 3, 3) (1, 1, 1)" by (simp add: inGrid_def)
  have k: "cellIndex (3, 3, 3) (1, 1, 1) = 13" by (simp add: cellIndex_def)
  have p: "gridPosition ?c [0, 0, 0] 0 = (3/2, 3/2, 3/2)"
    by (simp add: gridPosition_def fin3_def)
  have d: "gridDistance (3/2, 3/2, 3/2) (1, 1, 1) = 0"
    by (simp add: gridDistance_def vx_def vy_def vz_def)
  have w: "specWeight 1 (gridDistance (gridPosition ?c [0, 0, 0] 0) (1, 1, 1)) = 1"
    unfolding p d by (simp add: specWeight_def)
  have "s_density (splatAll ?c [0, 0, 0] None 1) ! 13 = 1"
    using splatAll_density[OF g i, of "[0, 0, 0]" None 1]
    unfolding k by (simp add: w)
  then have b: "density (buildDensityField ?c [0, 0, 0] None 1) ! 13 = 1"
    by (simp add: buildDensityField_def Let_def)
  define st where "st = setPointCloud (initialReconstructor (2 ^ 28)) (replicate 120 0) None 40 3"
  have e: "replicate 120 (0::real) = replicate (3 * Suc 39) 0" "(40::nat) = Suc 39" by simp_all
  note s = cluster_setup[where m=39, folded e(1), folded e(2), folded st_def]
  from reconstruct_gpu_some[OF s(4) s(5), of EDGE_TABLE TRI_TABLE]
  obtain r st' where rec: "reconstruct_gpu EDGE_TABLE TRI_TABLE st = (Some r, st')" by blast
  note d = cluster_density[where m=39, folded e(1), folded e(2), OF rec[unfolded st_def]]
  have v: "voxelBuffer st' ! 13 = 40000" using d(1) by simp
  have "densityBuffer st' ! 13 = normalizedDensity 40000" using d(2) by simp
  then have n: "densityBuffer st' ! 13 = 1" by (simp only: normalizedDensity_40000)
  from a b v n rec show ?thesis unfolding st_def[symmetric] by simp
qed

text \<open>
  Claim C1, amended. In the compute-shader engine, after a reconstruction every voxel's
  density is \<open>1 - exp(-(raw / 1000) * 0.5)\<close> evaluated in \<open>f32\<close> on the raw accumulated quantised
  weight \<open>raw\<close> of that voxel, which is within \<open>2\<^sup>-\<^sup>2\<^sup>1\<close> of the exact value of that expression.
  It lies in the closed interval from 0 to 1, and it is exactly 1 once \<open>raw\<close> is 65536 or more. The sequential engine applies no such curve: the density it
  returns is the raw accumulated weight, which is never negative.
\<close>

theorem normalized_density:
  "(buffersAllocated st \<and> reconstruct_gpu et tt st = (Some r, st') \<longrightarrow>
      (\<forall>i < totalVoxels st.
          densityBuffer st' ! i =
            f32 (1 - f32 (exp (f32 (- f32 (f32 (real (unat (voxelBuffer st' ! i))) / 1000) * 0.5)))) \<and>
          \<bar>densityBuffer st' ! i - (1 - exp (- (real (unat (voxelBuffer st' ! i)) / 1000) * 0.5))\<bar>
            \<le> 1 / 2097152 \<and>
          0 \<le> densityBuffer st' ! i \<and> densityBuffer st' ! i \<le> 1 \<and>
          (65536 \<le> unat (voxelBuffer st' ! i) \<longrightarrow> densityBuffer st' ! i = 1))) \<and>
   density (buildDensityField this ps cols count) = s_weights (splatAll this ps cols count) \<and>
   (\<forall>d \<in> set (density (buildDensityField this ps cols count)). 0 \<le> d)"
proof (intro conjI impI allI)
  fix i
  assume h: "buffersAllocated st \<and> reconstruct_gpu et tt st = (Some r, st')" and i: "i < totalVoxels st"
  then have len: "length (densityBuffer st) = totalVoxels st" by (simp add: buffersAllocated_def)
  from h have rec: "reconstruct_gpu et tt st = (Some r, st')" by simp
  from final_density[OF len rec i]
  have e: "densityBuffer st' ! i = normalizedDensity (voxelBuffer st' ! i)" .
  then show "densityBuffer st' ! i =
            f32 (1 - f32 (exp (f32 (- f32 (f32 (real (unat (voxelBuffer st' ! i))) / 1000) * 0.5))))"
    by (simp add: normalizedDensity_def)
  from e normalizedDensity_near[of "voxelBuffer st' ! i"]
  show "\<bar>densityBuffer st' ! i - (1 - exp (- (real (unat (voxelBuffer st' ! i)) / 1000) * 0.5))\<bar>
            \<le> 1 / 2097152"
    by (simp only:)
  from e normalizedDensity_range[of "voxelBuffer st' ! i"]
  show "0 \<le> densityBuffer st' ! i" "densityBuffer st' ! i \<le> 1" by simp_all
  assume "65536 \<le> unat (voxelBuffer st' ! i)"
  from normalizedDensity_saturated[OF this] e show "densityBuffer st' ! i = 1" by simp
next
  show "density (buildDensityField this ps cols count) = s_weights (splatAll this ps cols count)"
    "\<forall>d \<in> set (density (buildDensityField this ps cols count)). 0 \<le> d"
    using buildDensityField_raw[of this ps cols count] by simp_all
qed

theorem normalized_density_witness:
  "buffersAllocated (setPointCloud (initialReconstructor (2 ^ 28)) (replicate 240 0) None 80 3) \<and>
   fst (reconstruct_gpu EDGE_TABLE TRI_TABLE
          (setPointCloud (initialReconstructor (2 ^ 28)) (replicate 240 0) None 80 3)) \<noteq> None \<and>
   (13::nat) < totalVoxels (setPointCloud (initialReconstructor (2 ^ 28)) (replicate 240 0) None 80 3) \<and>
   65536 \<le> unat (voxelBuffer (snd (reconstruct_gpu EDGE_TABLE TRI_TABLE
          (setPointCloud (initialReconstructor (2 ^ 28)) (replicate 240 0) None 80 3))) ! 13) \<and>
   densityBuffer (snd (reconstruct_gpu EDGE_TABLE TRI_TABLE
          (setPointCloud (initialReconstructor (2 ^ 28)) (replicate 240 0) None 80 3))) ! 13 = 1"
proof -
  define st where "st = setPointCloud (initialReconstructor (2 ^ 28)) (replicate 240 0) None 80 3"
  have e: "replicate 240 (0::real) = replicate (3 * Suc 79) 0" "(80::nat) = Suc 79" by simp_all
  note s = cluster_setup[where m=79, folded e(1), folded e(2), folded st_def]
  from reconstruct_gpu_some[OF s(4) s(5), of EDGE_TABLE TRI_TABLE]
  obtain r st' where rec: "reconstruct_gpu EDGE_TABLE TRI_TABLE st = (Some r, st')" by blast
  note d = cluster_density[where m=79, folded e(1), folded e(2), OF rec[unfolded st_def]]
  have v: "voxelBuffer st' ! 13 = 80000" using d(1) by simp
  then have u: "65536 \<le> unat (voxelBuffer st' ! 13)" by simp
  have t: "13 < totalVoxels st" by (simp add: totalVoxels_def s(2))
  from normalized_density[where st=st and et=EDGE_TABLE and tt=TRI_TABLE and r=r and st'=st',
      THEN conjunct1, THEN mp, OF conjI[OF s(1) rec], THEN spec, THEN mp, OF t,
      THEN conjunct2, THEN conjunct2, THEN conjunct2, THEN conjunct2, THEN mp, OF u]
  have "densityBuffer st' ! 13 = 1" .
  with s(1) t u rec show ?thesis unfolding st_def[symmetric] by simp
qed

subsection \<open>Colours of a cloud without colours\<close>

lemma voxel_decode:
  fixes k :: nat
  assumes "k < gx * gy * gz"
  shows "\<exists>c. inGrid (gx, gy, gz) c \<and> (\<forall>st. mr_gridSize st = (gx, gy, gz) \<longrightarrow> voxelOf st c = k)"
proof -
  from assms have p: "0 < gx" "0 < gy" "0 < gz" by (auto intro: Nat.gr0I)
  let ?x = "k mod gx" and ?y = "(k div gx) mod gy" and ?z = "k div (gx * gy)"
  have x: "?x < gx" and y: "?y < gy" using p by simp_all
  have z: "?z < gz" using assms p by (simp add: less_mult_imp_div_less mult.commute)
  have "k = ?x + (k div gx) * gx" by simp
  moreover have "k div gx = ?y + ((k div gx) div gy) * gy" by simp
  moreover have "(k div gx) div gy = ?z" by (simp add: div_mult2_eq)
  ultimately have e: "?x + ?y * gx + ?z * gx * gy = k"
    by (metis (no_types, lifting) add.assoc distrib_right mult.assoc mult.commute)
  have "inGrid (gx, gy, gz) (int ?x, int ?y, int ?z)"
    using x y z by (simp add: inGrid_def)
  moreover have "voxelOf st (int ?x, int ?y, int ?z) = k" if "mr_gridSize st = (gx, gy, gz)" for st
    using e by (simp add: voxelOf_eq[OF that])
  ultimately show ?thesis by blast
qed

lemma unat_sum_list:
  fixes ws :: "32 word list"
  assumes "sum_list (map unat ws) < 2 ^ 32"
  shows "unat (sum_list ws) = sum_list (map unat ws)"
  using assms
proof (induction ws)
  case Nil
  show ?case by simp
next
  case (Cons w ws)
  then have 1: "unat (sum_list ws) = sum_list (map unat ws)" by simp
  from Cons.prems have h: "unat w + unat (sum_list ws) < 2 ^ LENGTH(32)" by (simp add: 1)
  have "unat (w + sum_list ws) = unat w + unat (sum_list ws)"
    by (rule unat_add_lem[THEN iffD1, OF h])
  with 1 show ?case by simp
qed

lemma unat_u32_of_real:
  assumes "0 \<le> x" "x < 4294967040"
  shows "unat (u32_of_real x) = nat \<lfloor>x\<rfloor>"
proof (cases "x = 0")
  case True
  then show ?thesis by simp
next
  case False
  with assms have "0 \<le> \<lfloor>x\<rfloor>" "\<lfloor>x\<rfloor> < 2 ^ 32" by (simp_all add: floor_less_iff)
  then have "unat (word_of_int \<lfloor>x\<rfloor> :: 32 word) = nat \<lfloor>x\<rfloor>"
    by (simp add: unat_eq_nat_uint uint_word_of_int take_bit_eq_mod)
  with assms False show ?thesis by (simp add: u32_of_real_def)
qed

lemma unat_half_nat:
  fixes n :: nat
  assumes "n \<le> 1000"
  shows "unat (u32_of_real (1/2 * real n)) = n div 2"
proof -
  from assms have "real n \<le> 1000" by linarith
  then have b: "1/2 * real n < 4294967040" by linarith
  have "\<lfloor>real n / real 2\<rfloor> = int (n div 2)" by (rule floor_divide_of_nat_eq)
  moreover have "1/2 * real n = real n / real 2" by simp
  ultimately have "nat \<lfloor>1/2 * real n\<rfloor> = n div 2" by simp
  moreover have "unat (u32_of_real (1/2 * real n)) = nat \<lfloor>1/2 * real n\<rfloor>"
    by (rule unat_u32_of_real[OF _ b]) simp
  ultimately show ?thesis by (simp only:)
qed

lemma half_sums:
  fixes qs :: "nat list"
  assumes "\<forall>q \<in> set qs. q = 0 \<or> 111 \<le> q"
  shows "2 * sum_list (map (\<lambda>q. q div 2) qs) \<le> sum_list qs"
    and "110 * sum_list qs \<le> 222 * sum_list (map (\<lambda>q. q div 2) qs)"
  using assms
proof (induction qs)
  case Nil
  case 1 show ?case by simp
  case 2 show ?case by simp
next
  case (Cons q qs)
  case 1
  with Cons.IH(1) show ?case by simp
  case 2
  from 2 have "q = 0 \<or> 111 \<le> q" by simp
  then have "110 * q \<le> 222 * (q div 2)" by (elim disjE) (simp, arith)
  with Cons.IH(2) 2 show ?case by simp
qed

lemma exp_minus_2: "1/9 \<le> exp (- 2 :: real)"
proof -
  have "exp (real 2 * 1) = exp (1::real) ^ 2" by (rule exp_of_nat_mult)
  moreover have "exp (1::real) ^ 2 \<le> 3 ^ 2" by (rule power_mono[OF exp_le]) simp
  ultimately have "exp (2::real) \<le> 9" by simp
  then have "inverse 9 \<le> inverse (exp (2::real))" by (intro le_imp_inverse_le) simp_all
  then show ?thesis by (simp add: exp_minus)
qed

lemma vlength_nonneg: "0 \<le> vlength a"
  by (simp add: vlength_def)

lemma quantizedWeight_bounds:
  "unat (quantizedWeight st pos c) \<le> 1000 \<and>
   (unat (quantizedWeight st pos c) = 0 \<or> 111 \<le> unat (quantizedWeight st pos c))"
proof -
  define r where "r = p_splatRadius (params st)"
  define d where "d = worldDistance st pos c"
  define a where "a = d / (r * 0.5)"
  define w where "w = exp (- 0.5 * a * a)"
  have q: "quantizedWeight st pos c = (if d > r then 0 else u32_of_real (w * 1000))"
    by (simp add: quantizedWeight_def Let_def r_def d_def a_def w_def)
  show ?thesis
  proof (cases "d > r")
    case True
    with q show ?thesis by simp
  next
    case False
    have d0: "0 \<le> d" unfolding d_def worldDistance_def by (rule vlength_nonneg)
    have a2: "a * a \<le> 4"
    proof (cases "r = 0")
      case True
      then show ?thesis by (simp add: a_def)
    next
      case nz: False
      with False d0 have rp: "0 < r" by linarith
      have e: "a = 2 * d / r" using rp by (simp add: a_def)
      have "0 \<le> 2 * d / r" using rp d0 by simp
      moreover have "2 * d / r \<le> 2" using rp False by (simp add: field_simps)
      ultimately have "0 \<le> a" "a \<le> 2" unfolding e by simp_all
      then have "a * a \<le> 2 * 2" by (intro mult_mono) simp_all
      then show ?thesis by simp
    qed
    have "0 \<le> a * a" by simp
    have lo: "exp (- 2) \<le> w" unfolding w_def using a2 by simp
    have hi: "w \<le> 1" unfolding w_def using \<open>0 \<le> a * a\<close> by (simp add: mult.assoc)
    from lo exp_minus_2 have b1: "111 \<le> w * 1000" by linarith
    from hi have b2: "w * 1000 \<le> 1000" by simp
    have u: "unat (u32_of_real (w * 1000)) = nat \<lfloor>w * 1000\<rfloor>"
      by (rule unat_u32_of_real) (use b1 b2 in linarith)+
    have "111 \<le> \<lfloor>w * 1000\<rfloor>" "\<lfloor>w * 1000\<rfloor> \<le> 1000" using b1 b2 by linarith+
    then have "111 \<le> nat \<lfloor>w * 1000\<rfloor>" "nat \<lfloor>w * 1000\<rfloor> \<le> 1000" by linarith+
    with u q False show ?thesis by simp
  qed
qed

lemma pointWeight_bounds:
  "unat (pointWeight st i c) \<le> 1000 \<and> (unat (pointWeight st i c) = 0 \<or> 111 \<le> unat (pointWeight st i c))"
  using quantizedWeight_bounds[of st "the (pointsBuffer st) ! i" c]
  by (simp add: pointWeight_def Let_def)

lemma pointColor_gray:
  assumes "colorsBuffer st ! i = (1/2, 1/2, 1/2)"
  shows "unat (pointColor vx st i c) = unat (pointWeight st i c) div 2"
    and "pointColor vy st i c = pointColor vx st i c"
    and "pointColor vz st i c = pointColor vx st i c"
proof -
  from pointWeight_bounds[of st i c] have b: "unat (pointWeight st i c) \<le> 1000" by simp
  have "pointColor vx st i c = u32_of_real (1/2 * real (unat (pointWeight st i c)))"
    unfolding pointColor_def assms vx_def by simp
  with unat_half_nat[OF b] show "unat (pointColor vx st i c) = unat (pointWeight st i c) div 2"
    by (simp only:)
  show "pointColor vy st i c = pointColor vx st i c" "pointColor vz st i c = pointColor vx st i c"
    by (simp_all add: pointColor_def assms vx_def vy_def vz_def)
qed

lemma accum_rounding:
  fixes R D :: nat
  assumes "1 \<le> R" "1 \<le> D"
  shows "real R * (16777215 / 16777216) \<le> f32 (real R)"
    and "f32 (real R) \<le> real R * (16777217 / 16777216)"
    and "real D * (7999999 / 8000000000) \<le> f32 (f32 (real D) / 1000)"
    and "f32 (f32 (real D) / 1000) \<le> real D * (8000001 / 8000000000)"
proof -
  have s: "(2::real) powi (- 126) \<le> 1 / 2097152" by (simp add: power_int_minus)
  from assms have r1: "1 \<le> real R" and d1: "1 \<le> real D" by simp_all
  have a: "\<bar>f32 (real R) - real R\<bar> \<le> \<bar>real R\<bar> / 16777216"
    by (rule f32_error) (use r1 s in linarith)
  have b: "\<bar>f32 (real D) - real D\<bar> \<le> \<bar>real D\<bar> / 16777216"
    by (rule f32_error) (use d1 s in linarith)
  have c: "\<bar>f32 (f32 (real D) / 1000) - f32 (real D) / 1000\<bar> \<le> \<bar>f32 (real D) / 1000\<bar> / 16777216"
    by (rule f32_error) (use d1 b s in \<open>simp add: abs_if split: if_splits; linarith\<close>)
  show "real R * (16777215 / 16777216) \<le> f32 (real R)" "f32 (real R) \<le> real R * (16777217 / 16777216)"
    using a r1 by (simp_all add: abs_if split: if_splits; linarith)+
  show "real D * (7999999 / 8000000000) \<le> f32 (f32 (real D) / 1000)"
    "f32 (f32 (real D) / 1000) \<le> real D * (8000001 / 8000000000)"
    using b c d1 by (simp_all add: abs_if split: if_splits; linarith)+
qed

lemma channel_from_ratio:
  fixes A rd zl zh :: real
  assumes rd: "0 < rd" and lo: "zl * rd \<le> A" and hi: "A \<le> zh * rd"
    and zl: "1 \<le> zl" and zh: "zh \<le> 1000"
  shows "zl / 1000 - 1 / 10000 \<le> f32 (f32 (A / rd) / 1000)"
    and "f32 (f32 (A / rd) / 1000) \<le> zh / 1000 + 1 / 10000"
proof -
  define z where "z = A / rd"
  have s: "(2::real) powi (- 126) \<le> 1 / 2097152" by (simp add: power_int_minus)
  have z1: "zl \<le> z" unfolding z_def using rd lo by (simp add: pos_le_divide_eq)
  have z2: "z \<le> zh" unfolding z_def using rd hi by (simp add: pos_divide_le_eq)
  have a: "\<bar>f32 z - z\<bar> \<le> \<bar>z\<bar> / 16777216"
    by (rule f32_error) (use z1 zl s in linarith)
  have b: "\<bar>f32 (f32 z / 1000) - f32 z / 1000\<bar> \<le> \<bar>f32 z / 1000\<bar> / 16777216"
    by (rule f32_error) (use a z1 zl s in \<open>simp add: abs_if split: if_splits; linarith\<close>)
  show "zl / 1000 - 1 / 10000 \<le> f32 (f32 (A / rd) / 1000)"
    "f32 (f32 (A / rd) / 1000) \<le> zh / 1000 + 1 / 10000"
    unfolding z_def[symmetric] using a b z1 z2 zl zh
    by (simp_all add: abs_if split: if_splits; linarith)+
qed

lemma gray_channel:
  fixes R D :: nat
  assumes h: "2 * R \<le> D" "110 * D \<le> 222 * R" and d: "1 \<le> D"
  shows "\<bar>f32 (f32 (f32 (real R) / f32 (f32 (real D) / 1000)) / 1000) - 1/2\<bar> \<le> 1/200"
proof -
  from h d have r: "1 \<le> R" by linarith
  note e = accum_rounding[OF r d]
  from h have hr: "2 * real R \<le> real D" "110 * real D \<le> 222 * real R"
    by (metis of_nat_le_iff of_nat_mult of_nat_numeral)+
  from d have d1: "1 \<le> real D" by simp
  have rd: "0 < f32 (f32 (real D) / 1000)" using e(3) d1 by linarith
  have lo: "4954 / 10 * f32 (f32 (real D) / 1000) \<le> f32 (real R)" using e hr d1 by linarith
  have hi: "f32 (real R) \<le> 5001 / 10 * f32 (f32 (real D) / 1000)" using e hr d1 by linarith
  from channel_from_ratio[OF rd lo hi] show ?thesis by (simp add: abs_if)
qed

lemma sum_list_bounded:
  fixes f :: "'a \<Rightarrow> nat"
  assumes "\<And>x. x \<in> set xs \<Longrightarrow> f x \<le> b"
  shows "sum_list (map f xs) \<le> b * length xs"
  using assms by (induction xs) (simp_all add: add_mono)

lemma gray_accumulators:
  assumes alloc: "buffersAllocated st"
    and rec: "reconstruct_gpu et tt st = (Some r, st')"
    and g: "mr_gridSize st = (gx, gy, gz)"
    and c: "inGrid (gx, gy, gz) c"
    and gray: "\<forall>i < numPoints st. colorsBuffer st ! i = (1/2, 1/2, 1/2)"
    and nov: "numPoints st * 1000 < 2 ^ 32"
  shows "voxelColorsGBuffer st' ! voxelOf st c = voxelColorsRBuffer st' ! voxelOf st c"
    and "voxelColorsBBuffer st' ! voxelOf st c = voxelColorsRBuffer st' ! voxelOf st c"
    and "2 * unat (voxelColorsRBuffer st' ! voxelOf st c) \<le> unat (voxelBuffer st' ! voxelOf st c)"
    and "110 * unat (voxelBuffer st' ! voxelOf st c) \<le> 222 * unat (voxelColorsRBuffer st' ! voxelOf st c)"
proof -
  define np where "np = numPoints st"
  define qs where "qs = map (\<lambda>i. unat (pointWeight st i c)) [0..<np]"
  note fv = final_voxels[OF alloc rec g c, folded np_def]
  have in_np: "i < np" if "i \<in> set [0..<np]" for i using that by simp
  have "map (\<lambda>i. pointColor vy st i c) [0..<np] = map (\<lambda>i. pointColor vx st i c) [0..<np]"
    by (rule map_cong[OF refl]) (rule pointColor_gray(2), rule gray[rule_format], simp add: np_def)
  then show "voxelColorsGBuffer st' ! voxelOf st c = voxelColorsRBuffer st' ! voxelOf st c"
    by (simp only: fv)
  have "map (\<lambda>i. pointColor vz st i c) [0..<np] = map (\<lambda>i. pointColor vx st i c) [0..<np]"
    by (rule map_cong[OF refl]) (rule pointColor_gray(3), rule gray[rule_format], simp add: np_def)
  then show "voxelColorsBBuffer st' ! voxelOf st c = voxelColorsRBuffer st' ! voxelOf st c"
    by (simp only: fv)
  have "sum_list qs \<le> 1000 * length [0..<np]"
    unfolding qs_def by (rule sum_list_bounded) (use pointWeight_bounds in blast)
  with nov have b: "sum_list qs < 2 ^ 32" by (simp add: np_def)
  have "map unat (map (\<lambda>i. pointWeight st i c) [0..<np]) = qs" by (simp add: qs_def)
  with unat_sum_list[of "map (\<lambda>i. pointWeight st i c) [0..<np]"] b
  have D: "unat (voxelBuffer st' ! voxelOf st c) = sum_list qs" by (simp only: fv)
  have hq: "map unat (map (\<lambda>i. pointColor vx st i c) [0..<np]) = map (\<lambda>q. q div 2) qs"
    unfolding qs_def map_map
    by (rule map_cong[OF refl]) (simp add: pointColor_gray(1)[OF gray[rule_format]] np_def)
  have all: "\<forall>q \<in> set qs. q = 0 \<or> 111 \<le> q"
    unfolding qs_def using pointWeight_bounds by auto
  note hs = half_sums[OF all]
  from hs(1) b have "sum_list (map (\<lambda>q. q div 2) qs) < 2 ^ 32" by linarith
  with unat_sum_list[of "map (\<lambda>i. pointColor vx st i c) [0..<np]"] hq
  have R: "unat (voxelColorsRBuffer st' ! voxelOf st c) = sum_list (map (\<lambda>q. q div 2) qs)"
    by (simp only: fv)
  show "2 * unat (voxelColorsRBuffer st' ! voxelOf st c) \<le> unat (voxelBuffer st' ! voxelOf st c)"
    "110 * unat (voxelBuffer st' ! voxelOf st c) \<le> 222 * unat (voxelColorsRBuffer st' ! voxelOf st c)"
    unfolding D R by (rule hs)+
qed

lemma f32_epsilon: "0 \<le> f32 0.001"
  by (rule f32_nonneg) simp

lemma gray_voxel:
  assumes alloc: "buffersAllocated st"
    and rec: "reconstruct_gpu et tt st = (Some r, st')"
    and gray: "\<forall>i < numPoints st. colorsBuffer st ! i = (1/2, 1/2, 1/2)"
    and nov: "numPoints st * 1000 < 2 ^ 32"
    and k: "k < totalVoxels st"
  shows "voxelColorsGBuffer st' ! k = voxelColorsRBuffer st' ! k"
    and "voxelColorsBBuffer st' ! k = voxelColorsRBuffer st' ! k"
    and "2 * unat (voxelColorsRBuffer st' ! k) \<le> unat (voxelBuffer st' ! k)"
    and "110 * unat (voxelBuffer st' ! k) \<le> 222 * unat (voxelColorsRBuffer st' ! k)"
    and "f32 (f32 (real (unat (voxelBuffer st' ! k))) / 1000) > f32 0.001 \<Longrightarrow>
         \<exists>v. normalizedColorsBuffer st' ! k = (v, v, v) \<and> \<bar>v - 1/2\<bar> \<le> 1/200"
proof -
  obtain gx gy gz where g: "mr_gridSize st = (gx, gy, gz)" by (cases "mr_gridSize st") auto
  from k g have "k < gx * gy * gz" by (simp add: totalVoxels_def)
  from voxel_decode[OF this] g obtain c where c: "inGrid (gx, gy, gz) c" and v: "voxelOf st c = k"
    by blast
  note a = gray_accumulators[OF alloc rec g c gray nov, unfolded v]
  show "voxelColorsGBuffer st' ! k = voxelColorsRBuffer st' ! k" by (fact a(1))
  show "voxelColorsBBuffer st' ! k = voxelColorsRBuffer st' ! k" by (fact a(2))
  show "2 * unat (voxelColorsRBuffer st' ! k) \<le> unat (voxelBuffer st' ! k)" by (fact a(3))
  show "110 * unat (voxelBuffer st' ! k) \<le> 222 * unat (voxelColorsRBuffer st' ! k)" by (fact a(4))
  assume e: "f32 (f32 (real (unat (voxelBuffer st' ! k))) / 1000) > f32 0.001"
  define D where "D = unat (voxelBuffer st' ! k)"
  define R where "R = unat (voxelColorsRBuffer st' ! k)"
  note e' = e[folded D_def]
  have "D \<noteq> 0"
  proof
    assume "D = 0"
    with e' f32_epsilon show False by simp
  qed
  then have d: "1 \<le> D" by simp
  from gray_channel[OF a(3,4)[folded D_def R_def] d]
  have ch: "\<bar>f32 (f32 (f32 (real R) / f32 (f32 (real D) / 1000)) / 1000) - 1/2\<bar> \<le> 1/200" .
  have "normalizedColorsBuffer st' ! k =
          normalizedColor (voxelBuffer st' ! k) (voxelColorsRBuffer st' ! k)
             (voxelColorsRBuffer st' ! k) (voxelColorsRBuffer st' ! k)"
    using final_colors[OF alloc rec k] by (simp only: a(1,2))
  also have "\<dots> = (f32 (f32 (f32 (real R) / f32 (f32 (real D) / 1000)) / 1000),
                     f32 (f32 (f32 (real R) / f32 (f32 (real D) / 1000)) / 1000),
                     f32 (f32 (f32 (real R) / f32 (f32 (real D) / 1000)) / 1000))"
    using e by (simp add: normalizedColor_def D_def R_def Let_def)
  finally show "\<exists>v. normalizedColorsBuffer st' ! k = (v, v, v) \<and> \<bar>v - 1/2\<bar> \<le> 1/200"
    using ch by blast
qed

lemma f32_epsilon_small: "f32 0.001 \<le> 1 / 512"
proof -
  have "f32 0.001 \<le> 2 powi (- 9)" by (rule f32_le_pow2) (simp_all add: power_int_minus)
  then show ?thesis by (simp add: power_int_minus)
qed

lemma vlength_x: "vlength (x, 0, 0) = \<bar>x\<bar>"
  by (simp add: vlength_def vx_def vy_def vz_def)

lemma quantize_999: "u32_of_real (exp (- (1 / 1250)) * 1000) = 999"
proof -
  have "1 + (- (1 / 1250)) \<le> exp (- (1 / 1250) :: real)" by (rule exp_ge_add_one_self)
  moreover have "exp (- (1 / 1250) :: real) < 1" by simp
  ultimately have b: "999 \<le> exp (- (1 / 1250) :: real) * 1000" "exp (- (1 / 1250) :: real) * 1000 < 1000"
    by linarith+
  then have fl: "\<lfloor>exp (- (1 / 1250) :: real) * 1000\<rfloor> = 999" by linarith
  from b have c: "\<not> exp (- (1 / 1250) :: real) * 1000 \<le> 0"
    "\<not> 4294967040 \<le> exp (- (1 / 1250) :: real) * 1000" by linarith+
  have "u32_of_real (exp (- (1 / 1250)) * 1000) = word_of_int \<lfloor>exp (- (1 / 1250) :: real) * 1000\<rfloor>"
    unfolding u32_of_real_def using c by (simp only: if_False)
  then show ?thesis unfolding fl by simp
qed

lemma pair_setup:
  defines "st \<equiv> setPointCloud (initialReconstructor (2 ^ 28)) [0, 0, 0, 3/50, 0, 0] None 2 3"
  shows "buffersAllocated st" "mr_gridSize st = (3, 3, 3)" "numPoints st = 2"
    "initialized st" "pointsBuffer st \<noteq> None"
    "pointWeight st 0 (1, 1, 1) = 999" "pointWeight st 1 (1, 1, 1) = 999"
    "colorsBuffer st ! 0 = (1/2, 1/2, 1/2)" "colorsBuffer st ! 1 = (1/2, 1/2, 1/2)"
proof -
  have i0: "initialized (initialReconstructor (2 ^ 28))" by (simp add: initialReconstructor_def)
  show "buffersAllocated st" unfolding st_def by (rule setPointCloud_allocated(1)[OF i0])
  show g: "mr_gridSize st = (3, 3, 3)" unfolding st_def by (rule setPointCloud_fields(3)[OF i0])
  show "numPoints st = 2" unfolding st_def by (rule setPointCloud_fields(6)[OF i0])
  show "initialized st" unfolding st_def by (rule setPointCloud_fields(4)[OF i0])
  show "pointsBuffer st \<noteq> None" unfolding st_def by (rule setPointCloud_fields(5)[OF i0])
  have u2: "[0..<2] = [0, 1]" by (simp add: upt_rec)
  have bb: "boundingBox [0, 0, 0, 3/50, 0, 0] 2 = ((Fin 0, Fin 0, Fin 0), (Fin (3/50), Fin 0, Fin 0))"
    by (simp add: boundingBox_def u2)
  have p: "params st = \<lparr>p_isoValue = 1/2, p_splatRadius = 3/2, p_gridMin = (Fin (- 3), Fin (- 3), Fin (- 3)),
                         p_gridMax = (Fin (153/50), Fin 3, Fin 3)\<rparr>"
    unfolding st_def setPointCloud_def bb
    by (simp add: initialReconstructor_def Let_def)
  have pts: "pointsBuffer st = Some [(0, 0, 0), (3/50, 0, 0)]"
    unfolding st_def setPointCloud_def by (simp add: initialReconstructor_def Let_def case_prod_beta u2)
  have cols: "colorsBuffer st = [(1/2, 1/2, 1/2), (1/2, 1/2, 1/2)]"
    unfolding st_def setPointCloud_def by (simp add: initialReconstructor_def Let_def case_prod_beta u2)
  show "colorsBuffer st ! 0 = (1/2, 1/2, 1/2)" "colorsBuffer st ! 1 = (1/2, 1/2, 1/2)"
    by (simp_all add: cols)
  have cs: "splat_cellSize st = (101/50, 2, 2)"
    by (simp add: splat_cellSize_def p g gridSizeF_def fin3_def vsub_def vdiv_def vx_def vy_def vz_def)
  have gp0: "splat_gridPos st (0, 0, 0) = (150/101, 3/2, 3/2)"
    by (simp add: splat_gridPos_def p g gridSizeF_def fin3_def vsub_def vdiv_def vmul_def vx_def vy_def vz_def)
  have gp1: "splat_gridPos st (3/50, 0, 0) = (153/101, 3/2, 3/2)"
    by (simp add: splat_gridPos_def p g gridSizeF_def fin3_def vsub_def vdiv_def vmul_def vx_def vy_def vz_def)
  have rc: "splat_radiusCells st = 1"
    by (simp add: splat_radiusCells_def cs p vx_def vy_def vz_def)
  have fl: "\<lfloor>150/101 :: real\<rfloor> = 1" "\<lfloor>153/101 :: real\<rfloor> = 1" "\<lfloor>3/2 :: real\<rfloor> = 1" by linarith+
  have vis: "splatVisits st (0, 0, 0) (1, 1, 1)" "splatVisits st (3/50, 0, 0) (1, 1, 1)"
    by (simp_all add: splatVisits_def gp0 gp1 rc withinCube_def containingCell_def vx_def vy_def vz_def fl)
  have cc: "cellCenter st (1, 1, 1) = (3/100, 0, 0)"
    by (simp add: cellCenter_def cs p fin3_def vadd_def vmul_def vx_def vy_def vz_def)
  have vs: "vsub (0, 0, 0) (3/100, 0, 0) = (- (3/100), 0, 0)" "vsub (3/50, 0, 0) (3/100, 0, 0) = (3/100, 0, 0)"
    by (simp_all add: vsub_def vx_def vy_def vz_def)
  have wd: "worldDistance st (0, 0, 0) (1, 1, 1) = 3/100" "worldDistance st (3/50, 0, 0) (1, 1, 1) = 3/100"
    unfolding worldDistance_def cc vs vlength_x by simp_all
  have e: "- (5 / 10) * (3 / 100 / (3 / 2 * (5 / 10))) * (3 / 100 / (3 / 2 * (5 / 10))) = - (1 / 1250 :: real)"
    by simp
  have q: "quantizedWeight st (0, 0, 0) (1, 1, 1) = 999" "quantizedWeight st (3/50, 0, 0) (1, 1, 1) = 999"
    unfolding quantizedWeight_def Let_def wd p by (simp_all add: quantize_999)
  show "pointWeight st 0 (1, 1, 1) = 999" "pointWeight st 1 (1, 1, 1) = 999"
    by (simp_all add: pointWeight_def Let_def pts vis q)
qed

lemma splatVoxel_no_colors:
  "s_colorR (splatVoxel this None i n c a) = s_colorR a"
  "s_colorG (splatVoxel this None i n c a) = s_colorG a"
  "s_colorB (splatVoxel this None i n c a) = s_colorB a"
  by (simp_all add: splatVoxel_def Let_def case_prod_beta)

lemma splatAll_no_colors:
  assumes "gridSize this = (gx, gy, gz)"
  shows "s_colorR (splatAll this ps None count) = replicate (gx * gy * gz) 0"
    and "s_colorG (splatAll this ps None count) = replicate (gx * gy * gz) 0"
    and "s_colorB (splatAll this ps None count) = replicate (gx * gy * gz) 0"
proof -
  have p: "g (splatPoint this ps None i a) = g a" if "\<And>i n c a. g (splatVoxel this None i n c a) = g a"
    for g :: "SplatArrays \<Rightarrow> real list" and i a
    unfolding splatPoint_def Let_def case_prod_beta by (intro fold_keeps that)
  have q: "g (fold (splatPoint this ps None) xs a) = g a" if "\<And>i n c a. g (splatVoxel this None i n c a) = g a"
    for g :: "SplatArrays \<Rightarrow> real list" and xs a
    by (rule fold_keeps) (rule p[OF that])
  show "s_colorR (splatAll this ps None count) = replicate (gx * gy * gz) 0"
    unfolding splatAll_def Let_def assms case_prod_conv
    by (subst q[where g=s_colorR]) (simp_all add: splatVoxel_no_colors)
  show "s_colorG (splatAll this ps None count) = replicate (gx * gy * gz) 0"
    unfolding splatAll_def Let_def assms case_prod_conv
    by (subst q[where g=s_colorG]) (simp_all add: splatVoxel_no_colors)
  show "s_colorB (splatAll this ps None count) = replicate (gx * gy * gz) 0"
    unfolding splatAll_def Let_def assms case_prod_conv
    by (subst q[where g=s_colorB]) (simp_all add: splatVoxel_no_colors)
qed

lemma no_colors_black:
  assumes g: "gridSize this = (gx, gy, gz)" and k: "k < gx * gy * gz"
    and w: "0 < density (buildDensityField this ps None count) ! k"
  shows "colorR (buildDensityField this ps None count) ! k = 0"
    and "colorG (buildDensityField this ps None count) ! k = 0"
    and "colorB (buildDensityField this ps None count) ! k = 0"
proof -
  from buildDensityField_raw[of this ps None count] w
  have "0 < s_weights (splatAll this ps None count) ! k" by simp
  with k show "colorR (buildDensityField this ps None count) ! k = 0"
    "colorG (buildDensityField this ps None count) ! k = 0"
    "colorB (buildDensityField this ps None count) ! k = 0"
    by (simp_all add: buildDensityField_def Let_def g normalizeColor_def splatAll_no_colors[OF g])
qed

lemma pair_colors:
  assumes "reconstruct_gpu et tt (setPointCloud (initialReconstructor (2 ^ 28)) [0, 0, 0, 3/50, 0, 0] None 2 3) =
             (Some r, st')"
  shows "voxelBuffer st' ! 13 = 1998" "voxelColorsRBuffer st' ! 13 = 998"
    "f32 0.001 < f32 (f32 1998 / 1000)"
    "\<exists>v. normalizedColorsBuffer st' ! 13 = (v, v, v) \<and> v \<le> 4997 / 10000"
proof -
  define st where "st = setPointCloud (initialReconstructor (2 ^ 28)) [0, 0, 0, 3/50, 0, 0] None 2 3"
  note s = pair_setup[folded st_def]
  from assms have rec: "reconstruct_gpu et tt st = (Some r, st')" by (simp only: st_def)
  have c: "inGrid (3, 3, 3) (1, 1, 1)" by (simp add: inGrid_def)
  have k: "voxelOf st (1, 1, 1) = 13" by (simp add: voxelOf_eq[OF s(2)])
  have u2: "[0..<2] = [0, Suc 0]" by (simp add: upt_rec)
  have s7: "pointWeight st (Suc 0) (1, 1, 1) = 999" using s(7) by simp
  have s9: "colorsBuffer st ! Suc 0 = (1/2, 1/2, 1/2)" using s(9) by simp
  note fv = final_voxels[OF s(1) rec s(2) c, unfolded k s(3) u2]
  from fv(1) show D: "voxelBuffer st' ! 13 = 1998" by (simp add: s(6) s7)
  have h: "unat (999 :: 32 word) \<le> 1000" by simp
  have "unat (u32_of_real (1/2 * real (unat (999 :: 32 word)))) = unat (999 :: 32 word) div 2"
    by (rule unat_half_nat[OF h])
  then have "unat (u32_of_real (1/2 * real (unat (999 :: 32 word)))) = 499" by simp
  then have "unat (u32_of_real (1/2 * real (unat (999 :: 32 word)))) = unat (499 :: 32 word)" by simp
  then have "u32_of_real (1/2 * real (unat (999 :: 32 word))) = 499"
    by (rule word_unat_eq_iff[THEN iffD2])
  then have h499: "u32_of_real (999 / 2) = 499" by simp
  have pr: "pointColor vx st 0 (1, 1, 1) = 499" "pointColor vx st (Suc 0) (1, 1, 1) = 499"
    by (simp_all add: pointColor_def s(6,8) s7 s9 vx_def h499)
  have pg: "pointColor vy st 0 (1, 1, 1) = 499" "pointColor vy st (Suc 0) (1, 1, 1) = 499"
    by (simp_all add: pointColor_def s(6,8) s7 s9 vy_def h499)
  have pb: "pointColor vz st 0 (1, 1, 1) = 499" "pointColor vz st (Suc 0) (1, 1, 1) = 499"
    by (simp_all add: pointColor_def s(6,8) s7 s9 vz_def h499)
  from fv(2) show R: "voxelColorsRBuffer st' ! 13 = 998" by (simp add: pr)
  from fv(3) have G: "voxelColorsGBuffer st' ! 13 = 998" by (simp add: pg)
  from fv(4) have B: "voxelColorsBBuffer st' ! 13 = 998" by (simp add: pb)
  note e = accum_rounding[of 998 1998]
  have rd: "0 < f32 (f32 (real 1998) / 1000)" using e(3) by simp
  from e(3) f32_epsilon_small show eps: "f32 0.001 < f32 (f32 1998 / 1000)" by simp
  have lo: "499 * f32 (f32 (real 1998) / 1000) \<le> f32 (real 998)" using e by simp
  have hi: "f32 (real 998) \<le> 4996 / 10 * f32 (f32 (real 1998) / 1000)" using e by simp
  from channel_from_ratio(2)[OF rd lo hi]
  have v: "f32 (f32 (f32 998 / f32 (f32 1998 / 1000)) / 1000) \<le> 4997 / 10000" by simp
  have t: "13 < totalVoxels st" by (simp add: totalVoxels_def s(2))
  have "normalizedColorsBuffer st' ! 13 = normalizedColor 1998 998 998 998"
    using final_colors[OF s(1) rec t] by (simp only: D R G B)
  also have "\<dots> = (f32 (f32 (f32 998 / f32 (f32 1998 / 1000)) / 1000),
                     f32 (f32 (f32 998 / f32 (f32 1998 / 1000)) / 1000),
                     f32 (f32 (f32 998 / f32 (f32 1998 / 1000)) / 1000))"
    using eps by (simp add: normalizedColor_def Let_def)
  finally show "\<exists>v. normalizedColorsBuffer st' ! 13 = (v, v, v) \<and> v \<le> 4997 / 10000"
    using v by blast
qed

text \<open>
  Without colours the compute-shader engine gives every point the colour \<open>(0.5, 0.5, 0.5)\<close>,
  but its colour accumulators are integers: a splat with quantised weight \<open>q\<close> adds
  \<open>u32(0.5 * q)\<close>, which loses one half when \<open>q\<close> is odd. Two points at distance 0.06 from each
  other (default splat radius, grid of \<open>3 * 3 * 3\<close> cells) are both 0.03 away from the centre
  of the middle cell (index 13) and both add the weight 999 and the colour 499: the cell
  ends with density 1998, above the epsilon, colour sum 998 and a normalised red channel
  below 0.5. The sequential engine adds nothing to its colour sums when \<open>colors\<close> is \<open>null\<close>:
  the one cell that a single point in the middle of such a grid (splat radius 1) reaches
  with weight 1 ends with the colour \<open>(0, 0, 0)\<close>.
\<close>

theorem gray_counterexample:
  "fst (reconstruct_gpu EDGE_TABLE TRI_TABLE
          (setPointCloud (initialReconstructor (2 ^ 28)) [0, 0, 0, 3/50, 0, 0] None 2 3)) \<noteq> None \<and>
   voxelBuffer (snd (reconstruct_gpu EDGE_TABLE TRI_TABLE
          (setPointCloud (initialReconstructor (2 ^ 28)) [0, 0, 0, 3/50, 0, 0] None 2 3))) ! 13 = 1998 \<and>
   voxelColorsRBuffer (snd (reconstruct_gpu EDGE_TABLE TRI_TABLE
          (setPointCloud (initialReconstructor (2 ^ 28)) [0, 0, 0, 3/50, 0, 0] None 2 3))) ! 13 = 998 \<and>
   f32 0.001 < f32 (f32 1998 / 1000) \<and>
   vx (normalizedColorsBuffer (snd (reconstruct_gpu EDGE_TABLE TRI_TABLE
          (setPointCloud (initialReconstructor (2 ^ 28)) [0, 0, 0, 3/50, 0, 0] None 2 3))) ! 13) < 1/2 \<and>
   snd (reconstruct (initialCPU\<lparr>gridSize := (3, 3, 3), splatRadius := 1\<rparr>) [0, 0, 0] None 1) =
     \<lparr>gridSize = (3, 3, 3), isoValue = 1/2, splatRadius = 1,
      gridMin = (Fin (- 2), Fin (- 2), Fin (- 2)), gridMax = (Fin 2, Fin 2, Fin 2)\<rparr> \<and>
   density (buildDensityField
      \<lparr>gridSize = (3, 3, 3), isoValue = 1/2, splatRadius = 1,
       gridMin = (Fin (- 2), Fin (- 2), Fin (- 2)), gridMax = (Fin 2, Fin 2, Fin 2)\<rparr> [0, 0, 0] None 1) ! 13 = 1 \<and>
   colorR (buildDensityField
      \<lparr>gridSize = (3, 3, 3), isoValue = 1/2, splatRadius = 1,
       gridMin = (Fin (- 2), Fin (- 2), Fin (- 2)), gridMax = (Fin 2, Fin 2, Fin 2)\<rparr> [0, 0, 0] None 1) ! 13 = 0 \<and>
   colorG (buildDensityField
      \<lparr>gridSize = (3, 3, 3), isoValue = 1/2, splatRadius = 1,
       gridMin = (Fin (- 2), Fin (- 2), Fin (- 2)), gridMax = (Fin 2, Fin 2, Fin 2)\<rparr> [0, 0, 0] None 1) ! 13 = 0 \<and>
   colorB (buildDensityField
      \<lparr>gridSize = (3, 3, 3), isoValue = 1/2, splatRadius = 1,
       gridMin = (Fin (- 2), Fin (- 2), Fin (- 2)), gridMax = (Fin 2, Fin 2, Fin 2)\<rparr> [0, 0, 0] None 1) ! 13 = 0"
proof -
  define st where "st = setPointCloud (initialReconstructor (2 ^ 28)) [0, 0, 0, 3/50, 0, 0] None 2 3"
  define cpu where "cpu = \<lparr>gridSize = (3, 3, 3), isoValue = 1/2, splatRadius = 1,
       gridMin = (Fin (- 2), Fin (- 2), Fin (- 2)), gridMax = (Fin 2, Fin 2, Fin 2)\<rparr>"
  note s = pair_setup[folded st_def]
  from reconstruct_gpu_some[OF s(4) s(5), of EDGE_TABLE TRI_TABLE]
  obtain r st' where rec: "reconstruct_gpu EDGE_TABLE TRI_TABLE st = (Some r, st')" by blast
  note p = pair_colors[OF rec[unfolded st_def]]
  from p(4) obtain v where v: "normalizedColorsBuffer st' ! 13 = (v, v, v)" "v \<le> 4997 / 10000" by blast
  then have lt: "vx (normalizedColorsBuffer st' ! 13) < 1/2" by (simp add: vx_def)
  have a: "snd (reconstruct (initialCPU\<lparr>gridSize := (3, 3, 3), splatRadius := 1\<rparr>) [0, 0, 0] None 1) = cpu"
    by (simp add: reconstruct_def boundingBox_def initialCPU_def Let_def cpu_def)
  have g: "gridSize cpu = (3, 3, 3)" by (simp add: cpu_def)
  have c: "inGrid (3, 3, 3) (1, 1, 1)" by (simp add: inGrid_def)
  have k: "cellIndex (3, 3, 3) (1, 1, 1) = 13" by (simp add: cellIndex_def)
  have gp: "gridPosition cpu [0, 0, 0] 0 = (3/2, 3/2, 3/2)"
    by (simp add: gridPosition_def fin3_def cpu_def)
  have d: "gridDistance (3/2, 3/2, 3/2) (1, 1, 1) = 0"
    by (simp add: gridDistance_def vx_def vy_def vz_def)
  have w: "specWeight (splatRadius cpu) (gridDistance (gridPosition cpu [0, 0, 0] 0) (1, 1, 1)) = 1"
    unfolding gp d by (simp add: specWeight_def cpu_def)
  have dn: "density (buildDensityField cpu [0, 0, 0] None 1) ! 13 = 1"
    using buildDensityField_density[OF g c, of "[0, 0, 0]" None 1] unfolding k by (simp add: w)
  then have pos: "0 < density (buildDensityField cpu [0, 0, 0] None 1) ! 13" by simp
  have "(13::nat) < 3 * 3 * 3" by simp
  note b = no_colors_black[OF g this pos]
  from rec p(1,2,3) lt a dn b show ?thesis
    unfolding st_def[symmetric] cpu_def[symmetric] by simp
qed

text \<open>
  Claim C3, amended. When \<open>colors\<close> is \<open>null\<close>, \<open>setPointCloud\<close> of the compute-shader engine
  gives every point the colour \<open>(0.5, 0.5, 0.5)\<close>. As long as the accumulators cannot
  overflow (1000 times the number of points is below \<open>2\<^sup>3\<^sup>2\<close>), after a reconstruction the three
  colour accumulators of every voxel are equal and hold between \<open>110/222\<close> and one half of its
  density accumulator, and every voxel whose raw density exceeds the epsilon 0.001 has
  three equal normalised colour channels within 0.005 of 0.5.
\<close>

theorem gray_without_colors:
  "initialized mr \<and> count * 1000 < 2 ^ 32 \<and>
   reconstruct_gpu et tt (setPointCloud mr ps None count n) = (Some r, st') \<longrightarrow>
     colorsBuffer (setPointCloud mr ps None count n) = replicate count (1/2, 1/2, 1/2) \<and>
     (\<forall>k < n * n * n.
        voxelColorsGBuffer st' ! k = voxelColorsRBuffer st' ! k \<and>
        voxelColorsBBuffer st' ! k = voxelColorsRBuffer st' ! k \<and>
        2 * unat (voxelColorsRBuffer st' ! k) \<le> unat (voxelBuffer st' ! k) \<and>
        110 * unat (voxelBuffer st' ! k) \<le> 222 * unat (voxelColorsRBuffer st' ! k) \<and>
        (f32 0.001 < f32 (f32 (real (unat (voxelBuffer st' ! k))) / 1000) \<longrightarrow>
           (\<exists>v. normalizedColorsBuffer st' ! k = (v, v, v) \<and> \<bar>v - 1/2\<bar> \<le> 1/200)))"
proof (intro impI)
  assume h: "initialized mr \<and> count * 1000 < 2 ^ 32 \<and>
   reconstruct_gpu et tt (setPointCloud mr ps None count n) = (Some r, st')"
  define st where "st = setPointCloud mr ps None count n"
  from h have i: "initialized mr" and nov: "count * 1000 < 2 ^ 32"
    and rec: "reconstruct_gpu et tt st = (Some r, st')" by (simp_all add: st_def)
  have alloc: "buffersAllocated st" and tv: "totalVoxels st = n * n * n"
    unfolding st_def by (rule setPointCloud_allocated[OF i])+
  have np: "numPoints st = count" unfolding st_def by (rule setPointCloud_fields(6)[OF i])
  have cb: "colorsBuffer st = replicate count (1/2, 1/2, 1/2)"
    unfolding st_def setPointCloud_def using i
    by (simp add: Let_def case_prod_beta map_replicate_const)
  then have gray: "\<forall>i < numPoints st. colorsBuffer st ! i = (1/2, 1/2, 1/2)" by (simp add: np)
  from nov have nov': "numPoints st * 1000 < 2 ^ 32" by (simp only: np)
  have "voxelColorsGBuffer st' ! k = voxelColorsRBuffer st' ! k \<and>
        voxelColorsBBuffer st' ! k = voxelColorsRBuffer st' ! k \<and>
        2 * unat (voxelColorsRBuffer st' ! k) \<le> unat (voxelBuffer st' ! k) \<and>
        110 * unat (voxelBuffer st' ! k) \<le> 222 * unat (voxelColorsRBuffer st' ! k) \<and>
        (f32 0.001 < f32 (f32 (real (unat (voxelBuffer st' ! k))) / 1000) \<longrightarrow>
           (\<exists>v. normalizedColorsBuffer st' ! k = (v, v, v) \<and> \<bar>v - 1/2\<bar> \<le> 1/200))"
    if "k < n * n * n" for k
  proof -
    from that have k: "k < totalVoxels st" by (simp only: tv)
    note v = gray_voxel[OF alloc rec gray nov' k]
    from v(1) v(2) v(3) v(4) v(5) show ?thesis by blast
  qed
  with cb show "colorsBuffer (setPointCloud mr ps None count n) = replicate count (1/2, 1/2, 1/2) \<and>
     (\<forall>k < n * n * n.
        voxelColorsGBuffer st' ! k = voxelColorsRBuffer st' ! k \<and>
        voxelColorsBBuffer st' ! k = voxelColorsRBuffer st' ! k \<and>
        2 * unat (voxelColorsRBuffer st' ! k) \<le> unat (voxelBuffer st' ! k) \<and>
        110 * unat (voxelBuffer st' ! k) \<le> 222 * unat (voxelColorsRBuffer st' ! k) \<and>
        (f32 0.001 < f32 (f32 (real (unat (voxelBuffer st' ! k))) / 1000) \<longrightarrow>
           (\<exists>v. normalizedColorsBuffer st' ! k = (v, v, v) \<and> \<bar>v - 1/2\<bar> \<le> 1/200)))"
    unfolding st_def by blast
qed

theorem gray_without_colors_witness:
  "initialized (initialReconstructor (2 ^ 28)) \<and> (40::nat) * 1000 < 2 ^ 32 \<and>
   fst (reconstruct_gpu EDGE_TABLE TRI_TABLE
          (setPointCloud (initialReconstructor (2 ^ 28)) (replicate 120 0) None 40 3)) \<noteq> None \<and>
   (13::nat) < 3 * 3 * 3 \<and>
   f32 0.001 < f32 (f32 (real (unat (voxelBuffer (snd (reconstruct_gpu EDGE_TABLE TRI_TABLE
          (setPointCloud (initialReconstructor (2 ^ 28)) (replicate 120 0) None 40 3))) ! 13))) / 1000) \<and>
   (\<exists>v. normalizedColorsBuffer (snd (reconstruct_gpu EDGE_TABLE TRI_TABLE
          (setPointCloud (initialReconstructor (2 ^ 28)) (replicate 120 0) None 40 3))) ! 13 = (v, v, v) \<and>
        \<bar>v - 1/2\<bar> \<le> 1/200)"
proof -
  define mr where "mr = initialReconstructor (2 ^ 28)"
  define st where "st = setPointCloud mr (replicate 120 0) None 40 3"
  have i: "initialized mr" by (simp add: mr_def initialReconstructor_def)
  have nov: "(40::nat) * 1000 < 2 ^ 32" by simp
  have e: "replicate 120 (0::real) = replicate (3 * Suc 39) 0" "(40::nat) = Suc 39" by simp_all
  note s = cluster_setup[where m=39, folded e(1), folded e(2), folded mr_def, folded st_def]
  from reconstruct_gpu_some[OF s(4) s(5), of EDGE_TABLE TRI_TABLE]
  obtain r st' where rec: "reconstruct_gpu EDGE_TABLE TRI_TABLE st = (Some r, st')" by blast
  note d = cluster_density[where m=39, folded e(1), folded e(2), folded mr_def, OF rec[unfolded st_def]]
  have v: "voxelBuffer st' ! 13 = 40000" using d(1) by simp
  have u: "unat (voxelBuffer st' ! 13) = 40000" unfolding v by simp
  have k: "(13::nat) < 3 * 3 * 3" by simp
  from accum_rounding(3)[of 1 40000] f32_epsilon_small
  have eps: "f32 0.001 < f32 (f32 (real 40000) / 1000)" by simp
  then have eps': "f32 0.001 < f32 (f32 (real (unat (voxelBuffer st' ! 13))) / 1000)"
    by (simp only: u)
  from gray_without_colors[where mr=mr and count=40 and et=EDGE_TABLE and tt=TRI_TABLE
      and ps="replicate 120 0" and n=3 and r=r and st'=st',
      THEN mp, OF conjI[OF i conjI[OF nov rec[unfolded st_def]]], THEN conjunct2, THEN spec, THEN mp, OF k,
      THEN conjunct2, THEN conjunct2, THEN conjunct2, THEN conjunct2, THEN mp, OF eps']
  have g: "\<exists>v. normalizedColorsBuffer st' ! 13 = (v, v, v) \<and> \<bar>v - 1/2\<bar> \<le> 1/200" .
  from i nov rec k eps' g show ?thesis
    unfolding st_def[symmetric] mr_def[symmetric] by simp
qed

end
